(* ===== verification/Reap_Prelude.thy ===== *)
theory Reap_Prelude
  imports Main "HOL-Library.Word"
begin

text \<open>
  What every component of the development shares: the machine integers of the Rust
  source, its \<open>Result\<close> and \<open>Ordering\<close> types, the \<open>?\<close> operator on plain and on
  state-passing computations, the checked, saturating and overflowing integer
  operations, and the \<open>Vec\<close> and slice operations the reducers use (insertion,
  removal, binary search, sorting by a comparator).

  The locale \<open>comparator\<close> is the contract of a Rust \<open>Ord\<close> implementation.  Its
  extension \<open>keyed_order\<close> is the contract of a vector that is kept sorted by a key; the
  lemmas about searching, inserting, replacing and removing are proved there once and
  used by every component that keeps such a vector.
\<close>

unbundle bit_operations_syntax

section \<open>Machine integers\<close>

type_synonym u8 = "8 word"
type_synonym u16 = "16 word"
type_synonym u32 = "32 word"
type_synonym u64 = "64 word"
type_synonym u128 = "128 word"

named_theorems int_ops \<open>definitions of the integer operations of the Rust standard library\<close>

definition saturating_add :: "'a::len word \<Rightarrow> 'a word \<Rightarrow> 'a word" where
  [int_ops]: "saturating_add a b =
     (if unat a + unat b < 2 ^ LENGTH('a) then a + b else - 1)"

definition checked_add_word :: "'a::len word \<Rightarrow> 'a word \<Rightarrow> 'a word option" where
  [int_ops]: "checked_add_word a b =
     (if unat a + unat b < 2 ^ LENGTH('a) then Some (a + b) else None)"

definition checked_sub_word :: "'a::len word \<Rightarrow> 'a word \<Rightarrow> 'a word option" where
  [int_ops]: "checked_sub_word a b = (if b \<le> a then Some (a - b) else None)"

definition overflowing_add :: "'a::len word \<Rightarrow> 'a word \<Rightarrow> 'a word \<times> bool" where
  [int_ops]: "overflowing_add a b = (a + b, 2 ^ LENGTH('a) \<le> unat a + unat b)"

definition overflowing_sub :: "'a::len word \<Rightarrow> 'a word \<Rightarrow> 'a word \<times> bool" where
  [int_ops]: "overflowing_sub a b = (a - b, a < b)"

section \<open>Results, orderings and early return\<close>

datatype ('a, 'e) result = Ok 'a | Err 'e

datatype ordering = Less | Equal | Greater

primrec is_ok :: "('a, 'e) result \<Rightarrow> bool" where
  "is_ok (Ok a) = True"
| "is_ok (Err e) = False"

primrec bind_result :: "('a, 'e) result \<Rightarrow> ('a \<Rightarrow> ('b, 'e) result) \<Rightarrow> ('b, 'e) result" where
  "bind_result (Ok a) k = k a"
| "bind_result (Err e) k = Err e"

primrec map_err :: "('e \<Rightarrow> 'f) \<Rightarrow> ('a, 'e) result \<Rightarrow> ('a, 'f) result" where
  "map_err f (Ok a) = Ok a"
| "map_err f (Err e) = Err (f e)"

primrec is_some_and :: "('a \<Rightarrow> bool) \<Rightarrow> 'a option \<Rightarrow> bool" where
  "is_some_and p None = False"
| "is_some_and p (Some a) = p a"

text \<open>
  A method on \<open>&mut self\<close> that returns a \<open>Result\<close> is a function to the new state and
  the result.  The \<open>?\<close> operator after such a call keeps the mutated state and returns
  early on an error.
\<close>

definition then_do ::
    "'s \<times> ('a, 'e) result \<Rightarrow> ('s \<Rightarrow> 'a \<Rightarrow> 's \<times> ('b, 'e) result) \<Rightarrow> 's \<times> ('b, 'e) result" where
  "then_do r k = (case r of (s, Ok a) \<Rightarrow> k s a | (s, Err e) \<Rightarrow> (s, Err e))"

definition compare_of :: "'a::linorder \<Rightarrow> 'a \<Rightarrow> ordering" where
  "compare_of a b = (if a < b then Less else if a = b then Equal else Greater)"

section \<open>Vectors\<close>

definition vec_insert :: "nat \<Rightarrow> 'a \<Rightarrow> 'a list \<Rightarrow> 'a list" where
  "vec_insert i x xs = take i xs @ x # drop i xs"

definition vec_remove :: "nat \<Rightarrow> 'a list \<Rightarrow> 'a list" where
  "vec_remove i xs = take i xs @ drop (Suc i) xs"

text \<open>
  \<open>slice::binary_search_by\<close>, as the standard library computes it: the window
  \<open>[base, base + n)\<close> is halved until one element is left.
\<close>

function bsearch_loop :: "('a \<Rightarrow> ordering) \<Rightarrow> 'a list \<Rightarrow> nat \<Rightarrow> nat \<Rightarrow> nat" where
  "bsearch_loop f xs n base =
     (if 1 < n then
        (let half = n div 2; mid = base + half
         in bsearch_loop f xs (n - half) (if f (xs ! mid) = Greater then base else mid))
      else base)"
  by pat_completeness auto
termination
  by (relation "measure (\<lambda>(f, xs, n, base). n)") auto

declare bsearch_loop.simps [simp del]

definition binary_search_by :: "('a \<Rightarrow> ordering) \<Rightarrow> 'a list \<Rightarrow> (nat, nat) result" where
  "binary_search_by f xs =
     (if xs = [] then Err 0
      else let base = bsearch_loop f xs (length xs) 0
           in case f (xs ! base) of
                Equal \<Rightarrow> Ok base
              | Less \<Rightarrow> Err (base + 1)
              | Greater \<Rightarrow> Err base)"

text \<open>
  \<open>slice::sort_unstable_by\<close>.  The source fixes no order among elements that compare
  equal; the model keeps their input order, which is one of the orders it allows.
\<close>

primrec insort_by :: "('a \<Rightarrow> 'a \<Rightarrow> ordering) \<Rightarrow> 'a \<Rightarrow> 'a list \<Rightarrow> 'a list" where
  "insort_by cmp x [] = [x]"
| "insort_by cmp x (y # ys) =
     (if cmp x y = Greater then y # insort_by cmp x ys else x # y # ys)"

definition sort_unstable_by :: "('a \<Rightarrow> 'a \<Rightarrow> ordering) \<Rightarrow> 'a list \<Rightarrow> 'a list" where
  "sort_unstable_by cmp xs = foldr (insort_by cmp) xs []"

text \<open>\<open>slice::windows(2).any(p)\<close>: some adjacent pair satisfies \<open>p\<close>.\<close>

fun adjacent_any :: "('a \<Rightarrow> 'a \<Rightarrow> bool) \<Rightarrow> 'a list \<Rightarrow> bool" where
  "adjacent_any p (x # y # ys) = (p x y \<or> adjacent_any p (y # ys))"
| "adjacent_any p _ = False"

text \<open>A vector kept strictly sorted by a key, and the finite map it stands for.\<close>

definition sorted_by_key :: "('k \<Rightarrow> 'k \<Rightarrow> ordering) \<Rightarrow> ('a \<Rightarrow> 'k) \<Rightarrow> 'a list \<Rightarrow> bool" where
  "sorted_by_key cmp key = sorted_wrt (\<lambda>x y. cmp (key x) (key y) = Less)"

definition weakly_sorted_by :: "('k \<Rightarrow> 'k \<Rightarrow> ordering) \<Rightarrow> ('a \<Rightarrow> 'k) \<Rightarrow> 'a list \<Rightarrow> bool" where
  "weakly_sorted_by cmp key xs \<longleftrightarrow> sorted_wrt (\<lambda>x y. cmp (key x) (key y) \<noteq> Greater) xs"

definition index_map :: "('a \<Rightarrow> 'k) \<Rightarrow> 'a list \<Rightarrow> 'k \<rightharpoonup> 'a" where
  "index_map key xs = map_of (map (\<lambda>x. (key x, x)) xs)"

section \<open>Lemmas on integers and results\<close>

lemma unat_saturating_add:
  fixes a b :: "'a::len word"
  shows "unat (saturating_add a b) = min (unat a + unat b) (2 ^ LENGTH('a) - 1)"
  by (auto simp: saturating_add_def unat_word_ariths unsigned_minus_1_eq_mask mask_eq_exp_minus_1 min_def)

lemma checked_add_word_Some:
  fixes a b :: "'a::len word"
  shows "checked_add_word a b = Some c
    \<longleftrightarrow> unat a + unat b < 2 ^ LENGTH('a) \<and> unat c = unat a + unat b"
  by (auto simp: checked_add_word_def unat_word_ariths word_unat_eq_iff)

lemma checked_sub_word_Some:
  "checked_sub_word a b = Some c \<longleftrightarrow> b \<le> a \<and> unat c = unat a - unat b"
  by (auto simp: checked_sub_word_def unat_sub word_unat_eq_iff)

lemma bind_result_assoc:
  "bind_result (bind_result r f) g = bind_result r (\<lambda>a. bind_result (f a) g)"
  by (cases r) simp_all

lemma bind_map_err:
  "bind_result (map_err e r) (\<lambda>a. map_err e (f a)) = map_err e (bind_result r f)"
  by (cases r) simp_all

lemma bind_result_Ok [simp]:
  "bind_result r k = Ok b \<longleftrightarrow> (\<exists>a. r = Ok a \<and> k a = Ok b)"
  by (cases r) auto

lemma map_err_Ok [simp]: "map_err f r = Ok a \<longleftrightarrow> r = Ok a"
  by (cases r) auto

lemma is_some_and_iff: "is_some_and p x \<longleftrightarrow> (\<exists>a. x = Some a \<and> p a)"
  by (cases x) auto

lemma then_do_simps [simp]:
  "then_do (s, Ok a) k = k s a"
  "then_do (s, Err e) k = (s, Err e)"
  by (simp_all add: then_do_def)

lemma then_do_Ok:
  "then_do r k = (s'', Ok b) \<longleftrightarrow> (\<exists>s' a. r = (s', Ok a) \<and> k s' a = (s'', Ok b))"
  by (cases r; cases "snd r") auto

lemma then_do_Err:
  "then_do r k = (s'', Err e) \<longleftrightarrow>
     r = (s'', Err e) \<or> (\<exists>s' a. r = (s', Ok a) \<and> k s' a = (s'', Err e))"
  by (cases r; cases "snd r") auto

lemma compare_of_simps [simp]:
  "compare_of a b = Less \<longleftrightarrow> a < b"
  "compare_of a b = Equal \<longleftrightarrow> a = b"
  "compare_of a b = Greater \<longleftrightarrow> b < a"
  by (auto simp: compare_of_def)

section \<open>Lemmas on vectors\<close>

lemma length_vec_insert [simp]: "length (vec_insert i x xs) = Suc (length xs)"
  by (simp add: vec_insert_def)

lemma length_vec_remove [simp]: "i < length xs \<Longrightarrow> length (vec_remove i xs) = length xs - 1"
  by (simp add: vec_remove_def)

lemma set_vec_insert [simp]: "set (vec_insert i x xs) = insert x (set xs)"
  by (metis append_take_drop_id set_append Un_insert_right list.simps(15) vec_insert_def)

lemma set_vec_remove_subset: "set (vec_remove i xs) \<subseteq> set xs"
  by (auto simp: vec_remove_def dest: in_set_takeD in_set_dropD)

lemma set_insort_by [simp]: "set (insort_by cmp x xs) = insert x (set xs)"
  by (induction xs) auto

lemma set_sort_unstable_by [simp]: "set (sort_unstable_by cmp xs) = set xs"
  unfolding sort_unstable_by_def by (induction xs) auto

lemma length_insort_by [simp]: "length (insort_by cmp x xs) = Suc (length xs)"
  by (induction xs) auto

lemma length_sort_unstable_by [simp]: "length (sort_unstable_by cmp xs) = length xs"
  unfolding sort_unstable_by_def by (induction xs) auto

lemma bsearch_loop_bounds:
  "0 < n \<Longrightarrow> base \<le> bsearch_loop f xs n base \<and> bsearch_loop f xs n base < base + n"
proof (induction f xs n base rule: bsearch_loop.induct)
  case (1 f xs n base)
  show ?case
  proof (cases "1 < n")
    case True
    then show ?thesis
      using 1(1) [OF True refl refl]
      by (cases "f (xs ! (base + n div 2)) = Greater")
        (auto simp: bsearch_loop.simps [of f xs n base] Let_def)
  next
    case False
    with 1(2) show ?thesis by (simp add: bsearch_loop.simps [of f xs n base])
  qed
qed

text \<open>
  The search keeps two facts: everything before the window is not greater than the
  target, and everything from the end of the window on is greater.
\<close>

lemma bsearch_loop_split:
  assumes mono: "\<And>i j. i < j \<Longrightarrow> j < length xs \<Longrightarrow> f (xs ! i) = Greater \<Longrightarrow> f (xs ! j) = Greater"
    and "0 < n" and "base + n \<le> length xs"
    and "\<And>i. base + n \<le> i \<Longrightarrow> i < length xs \<Longrightarrow> f (xs ! i) = Greater"
    and "0 < base \<Longrightarrow> f (xs ! base) \<noteq> Greater"
  defines "b \<equiv> bsearch_loop f xs n base"
  shows "(\<forall>i. b < i \<longrightarrow> i < length xs \<longrightarrow> f (xs ! i) = Greater) \<and> (0 < b \<longrightarrow> f (xs ! b) \<noteq> Greater)"
  unfolding b_def using assms(2-5)
proof (induction n arbitrary: base rule: less_induct)
  case (less n)
  show ?case
  proof (cases "1 < n")
    case False
    with less.prems(1) have "n = 1" by simp
    from False have "bsearch_loop f xs n base = base" by (subst bsearch_loop.simps) simp
    with less.prems \<open>n = 1\<close> show ?thesis by simp
  next
    case True
    let ?half = "n div 2"
    let ?mid = "base + ?half"
    let ?base = "if f (xs ! ?mid) = Greater then base else ?mid"
    have step: "bsearch_loop f xs n base = bsearch_loop f xs (n - ?half) ?base"
      using True by (simp add: bsearch_loop.simps [of f xs n base] Let_def)
    have half: "0 < ?half" "?half < n" "2 * ?half \<le> n" using True by auto
    have tail: "f (xs ! i) = Greater" if "?base + (n - ?half) \<le> i" "i < length xs" for i
    proof (cases "f (xs ! ?mid) = Greater")
      case True
      with that half have "?mid \<le> i" by simp
      then show ?thesis using True mono [of ?mid i] that(2) by (cases "i = ?mid") auto
    next
      case False
      with that half have "base + n \<le> i" by simp
      then show ?thesis using less.prems(3) that(2) by blast
    qed
    have fits: "?base + (n - ?half) \<le> length xs" using less.prems(2) half by auto
    have start: "0 < ?base \<Longrightarrow> f (xs ! ?base) \<noteq> Greater" using less.prems(4) by auto
    have smaller: "n - ?half < n" "0 < n - ?half" using half by auto
    show ?thesis
      unfolding step by (rule less.IH [OF smaller fits tail start])
  qed
qed

section \<open>Comparators and sorted vectors\<close>

locale comparator =
  fixes cmp :: "'k \<Rightarrow> 'k \<Rightarrow> ordering"
  assumes cmp_equal: "cmp a b = Equal \<longleftrightarrow> a = b"
    and cmp_flip: "cmp a b = Greater \<longleftrightarrow> cmp b a = Less"
    and cmp_trans: "cmp a b = Less \<Longrightarrow> cmp b c = Less \<Longrightarrow> cmp a c = Less"
begin

lemma cmp_irrefl [simp]: "cmp a a = Equal"
  by (simp add: cmp_equal)

lemma cmp_asym: "cmp a b = Less \<Longrightarrow> cmp b a \<noteq> Less"
  using cmp_flip [of a b] by auto

lemma cmp_cases: "cmp a b = Less \<or> a = b \<or> cmp b a = Less"
  by (cases "cmp a b") (auto simp: cmp_equal cmp_flip)

end

text \<open>A vector of records sorted by a key that a comparator orders.\<close>

locale keyed_order = comparator cmp
  for cmp :: "'k \<Rightarrow> 'k \<Rightarrow> ordering" +
  fixes key :: "'a \<Rightarrow> 'k"
begin

lemma sorted_by_key_append:
  "sorted_by_key cmp key (xs @ ys) \<longleftrightarrow> sorted_by_key cmp key xs \<and> sorted_by_key cmp key ys
     \<and> (\<forall>x\<in>set xs. \<forall>y\<in>set ys. cmp (key x) (key y) = Less)"
  by (simp add: sorted_by_key_def sorted_wrt_append)

lemma sorted_by_key_Cons:
  "sorted_by_key cmp key (x # xs) \<longleftrightarrow>
     (\<forall>y\<in>set xs. cmp (key x) (key y) = Less) \<and> sorted_by_key cmp key xs"
  by (simp add: sorted_by_key_def)

lemma sorted_by_key_map:
  "sorted_by_key cmp key xs \<longleftrightarrow> sorted_wrt (\<lambda>a b. cmp a b = Less) (map key xs)"
  by (simp add: sorted_by_key_def sorted_wrt_map)

lemma sorted_by_key_split:
  assumes "sorted_by_key cmp key xs"
  shows "sorted_by_key cmp key (take i xs)" and "sorted_by_key cmp key (drop i xs)"
    and "x \<in> set (take i xs) \<Longrightarrow> y \<in> set (drop i xs) \<Longrightarrow> cmp (key x) (key y) = Less"
  using assms sorted_by_key_append [of "take i xs" "drop i xs"]
  unfolding append_take_drop_id by blast+

lemma sorted_by_key_nth:
  "sorted_by_key cmp key xs \<Longrightarrow> i < j \<Longrightarrow> j < length xs \<Longrightarrow> cmp (key (xs ! i)) (key (xs ! j)) = Less"
  unfolding sorted_by_key_def by (erule sorted_wrt_nth_less)

lemma sorted_by_key_distinct: "sorted_by_key cmp key xs \<Longrightarrow> distinct (map key xs)"
proof (induction xs)
  case (Cons x xs)
  have "key x \<notin> key ` set xs"
  proof
    assume "key x \<in> key ` set xs"
    then obtain y where "y \<in> set xs" "key y = key x" by (metis imageE)
    with Cons.prems show False by (auto simp: sorted_by_key_Cons)
  qed
  with Cons show ?case by (simp add: sorted_by_key_Cons)
qed simp

lemma index_map_nth:
  "sorted_by_key cmp key xs \<Longrightarrow> i < length xs \<Longrightarrow> index_map key xs (key (xs ! i)) = Some (xs ! i)"
  unfolding index_map_def
  by (rule map_of_is_SomeI) (auto simp: comp_def sorted_by_key_distinct)

lemma index_map_Some_key: "index_map key xs k = Some x \<Longrightarrow> x \<in> set xs \<and> key x = k"
  unfolding index_map_def by (auto dest!: map_of_SomeD)

lemma index_map_None: "index_map key xs k = None \<longleftrightarrow> k \<notin> key ` set xs"
  by (simp add: index_map_def map_of_eq_None_iff image_image)

lemma index_map_append:
  "index_map key (xs @ ys) = index_map key ys ++ index_map key xs"
  by (simp add: index_map_def)

lemma index_map_Cons: "index_map key (x # xs) = (index_map key xs)(key x \<mapsto> x)"
  by (simp add: index_map_def)

lemma search_result:
  assumes sorted: "sorted_by_key cmp key xs"
  shows "case binary_search_by (\<lambda>x. cmp (key x) k) xs of
           Ok i \<Rightarrow> i < length xs \<and> key (xs ! i) = k
         | Err i \<Rightarrow> i \<le> length xs \<and> (\<forall>x\<in>set (take i xs). cmp (key x) k = Less)
                     \<and> (\<forall>x\<in>set (drop i xs). cmp k (key x) = Less)"
proof (cases "xs = []")
  case True
  then show ?thesis by (simp add: binary_search_by_def)
next
  case False
  let ?f = "\<lambda>x. cmp (key x) k"
  let ?b = "bsearch_loop ?f xs (length xs) 0"
  have greater_up: "?f (xs ! j) = Greater"
    if "i < j" "j < length xs" "?f (xs ! i) = Greater" for i j
    using sorted_by_key_nth [OF sorted that(1,2)] that(3) by (meson cmp_flip cmp_trans)
  have less_down: "?f (xs ! i) = Less"
    if "i < j" "j < length xs" "?f (xs ! j) \<noteq> Greater" for i j
    using sorted_by_key_nth [OF sorted that(1,2)] that(3)
    by (metis cmp_cases cmp_flip cmp_trans)
  have bound: "?b < length xs"
    using bsearch_loop_bounds [of "length xs" 0 ?f xs] False by simp
  have after: "?f (xs ! i) = Greater" if "?b < i" "i < length xs" for i
    using bsearch_loop_split [of xs ?f "length xs" 0] greater_up False that by simp
  have at: "0 < ?b \<Longrightarrow> ?f (xs ! ?b) \<noteq> Greater"
    using bsearch_loop_split [of xs ?f "length xs" 0] greater_up False by simp
  have before: "?f (xs ! i) = Less" if "i < ?b" for i
    using less_down [OF that bound] at that by auto
  have taken: "\<forall>x\<in>set (take i xs). ?f x = Less" if "\<And>j. j < i \<Longrightarrow> ?f (xs ! j) = Less" for i
    using that by (auto simp: in_set_conv_nth)
  have dropped: "\<forall>x\<in>set (drop i xs). cmp k (key x) = Less"
    if "\<And>j. i \<le> j \<Longrightarrow> j < length xs \<Longrightarrow> ?f (xs ! j) = Greater" for i
    using that by (auto simp: in_set_conv_nth simp flip: cmp_flip)
  show ?thesis
  proof (cases "?f (xs ! ?b)")
    case Less
    have "\<forall>x\<in>set (take (?b + 1) xs). ?f x = Less"
      by (rule taken) (metis Less before less_Suc_eq Suc_eq_plus1)
    moreover have "\<forall>x\<in>set (drop (?b + 1) xs). cmp k (key x) = Less"
      by (rule dropped) (simp add: after)
    moreover have "binary_search_by ?f xs = Err (?b + 1)"
      unfolding binary_search_by_def Let_def using False Less by (simp only: if_False ordering.case)
    moreover have "?b + 1 \<le> length xs" using bound by linarith
    ultimately show ?thesis by (simp only: result.case simp_thms)
  next
    case Equal
    then have "binary_search_by ?f xs = Ok ?b"
      unfolding binary_search_by_def Let_def using False by (simp only: if_False ordering.case)
    with Equal bound show ?thesis by (simp only: result.case cmp_equal simp_thms)
  next
    case Greater
    have "\<forall>x\<in>set (take ?b xs). ?f x = Less"
      by (rule taken) (rule before)
    moreover have "\<forall>x\<in>set (drop ?b xs). cmp k (key x) = Less"
      by (rule dropped) (metis Greater after le_neq_implies_less)
    moreover have "binary_search_by ?f xs = Err ?b"
      unfolding binary_search_by_def Let_def using False Greater by (simp only: if_False ordering.case)
    moreover have "?b \<le> length xs" using bound by linarith
    ultimately show ?thesis by (simp only: result.case simp_thms)
  qed
qed

lemma search_Ok:
  assumes "sorted_by_key cmp key xs" and "binary_search_by (\<lambda>x. cmp (key x) k) xs = Ok i"
  shows "i < length xs \<and> key (xs ! i) = k"
  using search_result [OF assms(1), of k] unfolding assms(2) result.case by assumption

lemma search_Err:
  assumes "sorted_by_key cmp key xs" and "binary_search_by (\<lambda>x. cmp (key x) k) xs = Err i"
  shows "i \<le> length xs \<and> (\<forall>x\<in>set (take i xs). cmp (key x) k = Less)
           \<and> (\<forall>x\<in>set (drop i xs). cmp k (key x) = Less)"
  using search_result [OF assms(1), of k] unfolding assms(2) result.case by assumption

lemma search_Err_absent:
  assumes "sorted_by_key cmp key xs" and "binary_search_by (\<lambda>x. cmp (key x) k) xs = Err i"
  shows "k \<notin> key ` set xs"
proof
  assume "k \<in> key ` set xs"
  then obtain x where "x \<in> set xs" and x: "key x = k" by auto
  then have "x \<in> set (take i xs) \<or> x \<in> set (drop i xs)"
    by (metis Un_iff append_take_drop_id set_append)
  with search_Err [OF assms] x show False
    by (metis cmp_irrefl ordering.distinct(1))
qed

lemma search_present:
  assumes "sorted_by_key cmp key xs"
  shows "is_ok (binary_search_by (\<lambda>x. cmp (key x) k) xs) \<longleftrightarrow> k \<in> key ` set xs"
proof (cases "binary_search_by (\<lambda>x. cmp (key x) k) xs")
  case (Ok i)
  with search_Ok [OF assms Ok] show ?thesis by (auto intro!: image_eqI [of _ _ "xs ! i"])
next
  case (Err i)
  with search_Err_absent [OF assms Err] show ?thesis by simp
qed

lemma sorted_insert:
  assumes "sorted_by_key cmp key xs" and "binary_search_by (\<lambda>x. cmp (key x) k) xs = Err i"
    and "key x = k"
  shows "sorted_by_key cmp key (vec_insert i x xs)"
  using search_Err [OF assms(1,2)] assms(3) sorted_by_key_split [OF assms(1)]
  unfolding vec_insert_def by (simp add: sorted_by_key_append sorted_by_key_Cons)

lemma index_map_insert:
  assumes "sorted_by_key cmp key xs" and "binary_search_by (\<lambda>x. cmp (key x) k) xs = Err i"
    and "key x = k"
  shows "index_map key (vec_insert i x xs) = (index_map key xs)(k \<mapsto> x)"
proof -
  have "k \<notin> key ` set (take i xs)"
    using search_Err_absent [OF assms(1,2)] by (auto dest: in_set_takeD)
  then have "index_map key (take i xs) k = None" by (simp add: index_map_None)
  moreover have "index_map key xs = index_map key (drop i xs) ++ index_map key (take i xs)"
    using index_map_append [of "take i xs" "drop i xs"] by simp
  ultimately show ?thesis
    unfolding vec_insert_def using assms(3)
    by (auto simp: index_map_append index_map_Cons map_add_def fun_eq_iff split: option.splits)
qed

lemma sorted_replace:
  assumes "sorted_by_key cmp key xs" and "i < length xs" and "key x = key (xs ! i)"
  shows "sorted_by_key cmp key (xs[i := x])"
proof -
  have "map key (xs[i := x]) = map key xs"
    using assms(2,3) by (simp add: map_update list_update_same_conv)
  then show ?thesis
    using assms(1) by (simp only: sorted_by_key_map)
qed

lemma index_map_replace:
  assumes "sorted_by_key cmp key xs" and "i < length xs" and "key x = key (xs ! i)"
  shows "index_map key (xs[i := x]) = (index_map key xs)(key x \<mapsto> x)"
proof -
  have split: "xs = take i xs @ xs ! i # drop (Suc i) xs" using assms(2) by (rule id_take_nth_drop)
  have "distinct (map key xs)" using assms(1) by (rule sorted_by_key_distinct)
  then have "key (xs ! i) \<notin> key ` set (take i xs)"
    by (subst (asm) split) (auto simp: distinct_append)
  then have fresh: "index_map key (take i xs) (key x) = None"
    using assms(3) by (simp add: index_map_None)
  have "index_map key xs
      = (index_map key (drop (Suc i) xs))(key x \<mapsto> xs ! i) ++ index_map key (take i xs)"
    by (subst split) (simp add: index_map_append index_map_Cons assms(3))
  with fresh show ?thesis
    unfolding upd_conv_take_nth_drop [OF assms(2)]
    by (auto simp: index_map_append index_map_Cons map_add_def fun_eq_iff split: option.splits)
qed

lemma sorted_remove:
  assumes "sorted_by_key cmp key xs" and "i < length xs"
  shows "sorted_by_key cmp key (vec_remove i xs)"
proof -
  have "cmp (key x) (key y) = Less" if "x \<in> set (take i xs)" "y \<in> set (drop (Suc i) xs)" for x y
    using sorted_by_key_split(3) [OF assms(1) that(1)] that(2)
    by (metis Suc_n_not_le_n nat_le_linear set_drop_subset_set_drop subsetD)
  then show ?thesis
    using sorted_by_key_split(1,2) [OF assms(1)]
    unfolding vec_remove_def by (simp add: sorted_by_key_append)
qed

lemma index_map_remove:
  assumes "sorted_by_key cmp key xs" and "i < length xs"
  shows "index_map key (vec_remove i xs) = (index_map key xs)(key (xs ! i) := None)"
proof -
  let ?k = "key (xs ! i)"
  have split: "xs = take i xs @ xs ! i # drop (Suc i) xs" using assms(2) by (rule id_take_nth_drop)
  have "distinct (map key xs)" using assms(1) by (rule sorted_by_key_distinct)
  then have "?k \<notin> key ` set (take i xs)" "?k \<notin> key ` set (drop (Suc i) xs)"
    by (subst (asm) split, auto simp: distinct_append)+
  then have fresh: "index_map key (take i xs) ?k = None" "index_map key (drop (Suc i) xs) ?k = None"
    by (simp_all add: index_map_None)
  have "index_map key xs
      = (index_map key (drop (Suc i) xs))(?k \<mapsto> xs ! i) ++ index_map key (take i xs)"
    by (subst split) (simp add: index_map_append index_map_Cons)
  with fresh show ?thesis
    unfolding vec_remove_def
    by (auto simp: index_map_append map_add_def fun_eq_iff split: option.splits)
qed

lemma cmp_le_trans: "cmp a b \<noteq> Greater \<Longrightarrow> cmp b c \<noteq> Greater \<Longrightarrow> cmp a c \<noteq> Greater"
  by (metis cmp_cases cmp_flip cmp_trans)

lemma weakly_sorted_by_Cons:
  "weakly_sorted_by cmp key (x # xs) \<longleftrightarrow>
     (\<forall>y\<in>set xs. cmp (key x) (key y) \<noteq> Greater) \<and> weakly_sorted_by cmp key xs"
  by (simp add: weakly_sorted_by_def)

lemma insort_by_weak:
  "weakly_sorted_by cmp key ys \<Longrightarrow>
     weakly_sorted_by cmp key (insort_by (\<lambda>x y. cmp (key x) (key y)) x ys)"
proof (induction ys)
  case (Cons y ys)
  then have tail: "weakly_sorted_by cmp key ys" by (simp only: weakly_sorted_by_Cons)
  show ?case
  proof (cases "cmp (key x) (key y) = Greater")
    case True
    then have "cmp (key y) (key x) \<noteq> Greater" by (metis cmp_asym cmp_flip)
    then have "\<forall>z\<in>insert x (set ys). cmp (key y) (key z) \<noteq> Greater"
      using Cons.prems unfolding weakly_sorted_by_Cons by blast
    with True Cons.IH [OF tail] show ?thesis
      by (simp only: insort_by.simps if_True weakly_sorted_by_Cons set_insort_by simp_thms)
  next
    case False
    have "\<forall>z\<in>set (y # ys). cmp (key x) (key z) \<noteq> Greater"
      using False Cons.prems cmp_le_trans [OF False] unfolding weakly_sorted_by_Cons by auto
    with False Cons.prems show ?thesis
      by (simp only: insort_by.simps if_False weakly_sorted_by_Cons [of x "y # ys"] simp_thms)
  qed
qed (simp add: weakly_sorted_by_def)

lemma sort_unstable_by_weak:
  "weakly_sorted_by cmp key (sort_unstable_by (\<lambda>x y. cmp (key x) (key y)) xs)"
  unfolding sort_unstable_by_def
  by (induction xs) (simp_all add: insort_by_weak weakly_sorted_by_def [of _ _ "[]"])

lemma weak_no_adjacent_strict:
  "weakly_sorted_by cmp key xs
     \<Longrightarrow> \<not> adjacent_any (\<lambda>x y. key x = key y) xs \<Longrightarrow> sorted_by_key cmp key xs"
proof (induction xs rule: induct_list012)
  case (3 x y ys)
  have le: "cmp (key x) (key y) \<noteq> Greater" and tail: "weakly_sorted_by cmp key (y # ys)"
    using "3.prems"(1) unfolding weakly_sorted_by_Cons [of x] by auto
  have ne: "key x \<noteq> key y" and none: "\<not> adjacent_any (\<lambda>x y. key x = key y) (y # ys)"
    using "3.prems"(2) by auto
  have xy: "cmp (key x) (key y) = Less" using le ne cmp_cases cmp_flip by metis
  have rest: "sorted_by_key cmp key (y # ys)" by (rule "3.IH"(2) [OF tail none])
  then have "\<forall>z\<in>set ys. cmp (key x) (key z) = Less"
    using cmp_trans [OF xy] unfolding sorted_by_key_Cons by blast
  with xy rest show ?case unfolding sorted_by_key_Cons [of x] by simp
qed (simp_all add: sorted_by_key_def)

lemma sort_no_duplicate_sorted:
  "\<not> adjacent_any (\<lambda>x y. key x = key y) (sort_unstable_by (\<lambda>x y. cmp (key x) (key y)) xs)
     \<Longrightarrow> sorted_by_key cmp key (sort_unstable_by (\<lambda>x y. cmp (key x) (key y)) xs)"
  by (rule weak_no_adjacent_strict [OF sort_unstable_by_weak])

lemma sort_sorted:
  "sorted_by_key cmp key xs \<Longrightarrow> sort_unstable_by (\<lambda>x y. cmp (key x) (key y)) xs = xs"
  unfolding sort_unstable_by_def
proof (induction xs)
  case (Cons x xs)
  then show ?case by (cases xs) (simp_all add: sorted_by_key_Cons)
qed simp

lemma index_map_same_set:
  assumes "distinct (map key xs)" and "distinct (map key ys)" and "set xs = set ys"
  shows "index_map key xs = index_map key ys"
  unfolding index_map_def using assms
  by (subst map_of_inject_set) (simp_all add: comp_def)

end

text \<open>Every linear order gives a comparator: the derived \<open>Ord\<close> of a one-field struct.\<close>

interpretation ord_of: comparator "compare_of :: 'a::linorder \<Rightarrow> 'a \<Rightarrow> ordering"
  by unfold_locales auto

end
