(* ===== verification/Pm_U256.thy ===== *)
theory Pm_U256
  imports Reap_Prelude
begin

text \<open>
  The heap-free 256-bit integer of \<open>crates/reap-pm-core/src/numeric.rs\<close>: four
  little-endian 64-bit limbs, byte order conversion, checked addition, subtraction,
  multiplication and division by a 32-bit value, the limb-wise order, decimal parsing
  and decimal printing.

  The source's loops run over the fixed indices 0 to 3; each loop body is one \<open>_limb\<close>
  function and the loop is its four applications.  \<open>u256_nat\<close> reads a value as a natural
  number and is the reference every operation is compared with.
\<close>

section \<open>The type and its operations\<close>

definition PM_PROTOCOL_SCALE :: u32 where
  "PM_PROTOCOL_SCALE = 1000000"

definition CLOB_V2_LOT_UNITS :: u32 where
  "CLOB_V2_LOT_UNITS = 10000"

definition MAX_DECIMAL_INPUT_BYTES :: nat where
  "MAX_DECIMAL_INPUT_BYTES = 256"

definition U256_DECIMAL_DIGITS :: nat where
  "U256_DECIMAL_DIGITS = 78"

datatype PmNumericError =
    Empty
  | InputTooLong
  | Negative
  | InvalidFormat
  | Zero
  | Underflow
  | Overflow
  | NonRepresentable
  | PriceAtOrAboveOne
  | UnsupportedTick
  | PriceOffTick
  | QuantityOffLot
  | QuantityBelowMinimum
  | NonIntegralOrderAmount
  | DivisionByZero
  | SaltOutsideJsonSafeInteger
  | NonCanonicalSignedZero

datatype U256 = U256 u64 u64 u64 u64

definition U256_ZERO :: U256 where
  "U256_ZERO = U256 0 0 0 0"

definition U256_ONE :: U256 where
  "U256_ONE = U256 1 0 0 0"

definition U256_MAX :: U256 where
  "U256_MAX = U256 (- 1) (- 1) (- 1) (- 1)"

definition U256_from_u64 :: "u64 \<Rightarrow> U256" where
  "U256_from_u64 value = U256 value 0 0 0"

fun U256_is_zero :: "U256 \<Rightarrow> bool" where
  "U256_is_zero (U256 l0 l1 l2 l3) \<longleftrightarrow> l0 = 0 \<and> l1 = 0 \<and> l2 = 0 \<and> l3 = 0"

subsection \<open>Byte order\<close>

definition u64_to_be_bytes :: "u64 \<Rightarrow> u8 list" where
  "u64_to_be_bytes w = map (\<lambda>i. ucast (drop_bit (8 * i) w)) [7, 6, 5, 4, 3, 2, 1, 0]"

definition u64_from_be_bytes :: "u8 list \<Rightarrow> u64" where
  "u64_from_be_bytes bs = foldl (\<lambda>w b. (push_bit 8 w) OR ucast b) 0 bs"

fun U256_to_be_bytes :: "U256 \<Rightarrow> u8 list" where
  "U256_to_be_bytes (U256 l0 l1 l2 l3) =
     u64_to_be_bytes l3 @ u64_to_be_bytes l2 @ u64_to_be_bytes l1 @ u64_to_be_bytes l0"

definition U256_from_be_bytes :: "u8 list \<Rightarrow> U256" where
  "U256_from_be_bytes bytes =
     U256 (u64_from_be_bytes (take 8 (drop 24 bytes)))
          (u64_from_be_bytes (take 8 (drop 16 bytes)))
          (u64_from_be_bytes (take 8 (drop 8 bytes)))
          (u64_from_be_bytes (take 8 bytes))"

subsection \<open>Checked arithmetic\<close>

definition add_limb :: "u64 \<Rightarrow> u64 \<Rightarrow> bool \<Rightarrow> u64 \<times> bool" where
  "add_limb a b carry =
     (let (partial, first_carry) = overflowing_add a b;
          (sum, second_carry) = overflowing_add partial (of_bool carry)
      in (sum, first_carry \<or> second_carry))"

fun U256_checked_add :: "U256 \<Rightarrow> U256 \<Rightarrow> (U256, PmNumericError) result" where
  "U256_checked_add (U256 a0 a1 a2 a3) (U256 b0 b1 b2 b3) =
     (let (r0, carry) = add_limb a0 b0 False;
          (r1, carry) = add_limb a1 b1 carry;
          (r2, carry) = add_limb a2 b2 carry;
          (r3, carry) = add_limb a3 b3 carry
      in if carry then Err Overflow else Ok (U256 r0 r1 r2 r3))"

definition sub_limb :: "u64 \<Rightarrow> u64 \<Rightarrow> bool \<Rightarrow> u64 \<times> bool" where
  "sub_limb a b borrow =
     (let (partial, first_borrow) = overflowing_sub a b;
          (difference, second_borrow) = overflowing_sub partial (of_bool borrow)
      in (difference, first_borrow \<or> second_borrow))"

fun U256_checked_sub :: "U256 \<Rightarrow> U256 \<Rightarrow> (U256, PmNumericError) result" where
  "U256_checked_sub (U256 a0 a1 a2 a3) (U256 b0 b1 b2 b3) =
     (let (r0, borrow) = sub_limb a0 b0 False;
          (r1, borrow) = sub_limb a1 b1 borrow;
          (r2, borrow) = sub_limb a2 b2 borrow;
          (r3, borrow) = sub_limb a3 b3 borrow
      in if borrow then Err Underflow else Ok (U256 r0 r1 r2 r3))"

definition mul_limb :: "u64 \<Rightarrow> u32 \<Rightarrow> u128 \<Rightarrow> u64 \<times> u128" where
  "mul_limb a multiplier carry =
     (let product = (ucast a * ucast multiplier + carry :: u128)
      in (ucast product, drop_bit 64 product))"

fun U256_checked_mul_u32 :: "U256 \<Rightarrow> u32 \<Rightarrow> (U256, PmNumericError) result" where
  "U256_checked_mul_u32 (U256 a0 a1 a2 a3) multiplier =
     (let (r0, carry) = mul_limb a0 multiplier 0;
          (r1, carry) = mul_limb a1 multiplier carry;
          (r2, carry) = mul_limb a2 multiplier carry;
          (r3, carry) = mul_limb a3 multiplier carry
      in if carry = 0 then Ok (U256 r0 r1 r2 r3) else Err Overflow)"

definition div_limb :: "u128 \<Rightarrow> u64 \<Rightarrow> u128 \<Rightarrow> u64 \<times> u128" where
  "div_limb divisor a remainder =
     (let dividend = (push_bit 64 remainder) OR ucast a
      in (ucast (dividend div divisor), dividend mod divisor))"

fun U256_checked_div_rem_u32 :: "U256 \<Rightarrow> u32 \<Rightarrow> (U256 \<times> u32, PmNumericError) result" where
  "U256_checked_div_rem_u32 (U256 a0 a1 a2 a3) divisor =
     (if divisor = 0 then Err DivisionByZero
      else let d = (ucast divisor :: u128);
               (q3, remainder) = div_limb d a3 0;
               (q2, remainder) = div_limb d a2 remainder;
               (q1, remainder) = div_limb d a1 remainder;
               (q0, remainder) = div_limb d a0 remainder
           in Ok (U256 q0 q1 q2 q3, ucast remainder))"

definition U256_checked_add_u32 :: "U256 \<Rightarrow> u32 \<Rightarrow> (U256, PmNumericError) result" where
  "U256_checked_add_u32 x value = U256_checked_add x (U256_from_u64 (ucast value))"

fun U256_cmp :: "U256 \<Rightarrow> U256 \<Rightarrow> ordering" where
  "U256_cmp (U256 a0 a1 a2 a3) (U256 b0 b1 b2 b3) =
     (if compare_of a3 b3 \<noteq> Equal then compare_of a3 b3
      else if compare_of a2 b2 \<noteq> Equal then compare_of a2 b2
      else if compare_of a1 b1 \<noteq> Equal then compare_of a1 b1
      else if compare_of a0 b0 \<noteq> Equal then compare_of a0 b0
      else Equal)"

subsection \<open>The reference reading\<close>

fun u256_nat :: "U256 \<Rightarrow> nat" where
  "u256_nat (U256 l0 l1 l2 l3) =
     unat l0 + 2 ^ 64 * unat l1 + 2 ^ 128 * unat l2 + 2 ^ 192 * unat l3"

definition u256_of_nat :: "nat \<Rightarrow> U256" where
  "u256_of_nat n =
     U256 (word_of_nat n) (word_of_nat (n div 2 ^ 64))
          (word_of_nat (n div 2 ^ 128)) (word_of_nat (n div 2 ^ 192))"

definition be_nat :: "u8 list \<Rightarrow> nat" where
  "be_nat bs = foldl (\<lambda>n b. 256 * n + unat b) 0 bs"

section \<open>The reading is a bijection\<close>

lemma unat_u64_bound: "unat (w :: u64) < 2 ^ 64"
  using unsigned_less [of w] by simp

lemma u256_nat_bound: "u256_nat x < 2 ^ 256"
proof (cases x)
  case (U256 l0 l1 l2 l3)
  then show ?thesis
    using unat_u64_bound [of l0] unat_u64_bound [of l1] unat_u64_bound [of l2] unat_u64_bound [of l3]
    by simp
qed

lemma base_digits:
  fixes n B :: nat
  assumes "n < B * (B * (B * B))"
  shows "n mod B + B * (n div B mod B) + B * B * (n div (B * B) mod B)
           + B * B * B * (n div (B * B * B) mod B) = n"
proof -
  have last: "n div (B * B * B) mod B = n div (B * B * B)"
    using assms by (simp add: less_mult_imp_div_less mult.assoc)
  have "n mod B + B * (n div B mod B) + B * B * (n div B div B mod B)
          + B * B * B * (n div B div B div B)
      = n mod B + B * (n div B mod B + B * (n div B div B mod B + B * (n div B div B div B)))"
    by (simp only: distrib_left mult.assoc add.assoc)
  also have "\<dots> = n"
    by simp
  finally show ?thesis
    unfolding last by (simp only: div_mult2_eq)
qed

lemma digits_of_base:
  fixes a b c d B :: nat
  assumes "a < B" "b < B" "c < B"
  defines "n \<equiv> a + B * b + B * B * c + B * B * B * d"
  shows "n mod B = a" "n div B mod B = b" "n div (B * B) mod B = c" "n div (B * B * B) = d"
proof -
  have n: "n = a + B * (b + B * (c + B * d))"
    by (simp add: n_def algebra_simps)
  have "n div B = b + B * (c + B * d)" "n div B div B = c + B * d" "n div B div B div B = d"
    using assms(1-3) by (simp_all add: n)
  then show "n mod B = a" "n div B mod B = b" "n div (B * B) mod B = c" "n div (B * B * B) = d"
    using assms(1-3) by (simp_all add: div_mult2_eq n)
qed

lemma len_u64: "LENGTH(64) = 64"
  by simp

lemma limb_powers: "(2::nat) ^ 128 = 2 ^ 64 * 2 ^ 64" "(2::nat) ^ 192 = 2 ^ 64 * 2 ^ 64 * 2 ^ 64"
  "(2::nat) ^ 256 = 2 ^ 64 * (2 ^ 64 * (2 ^ 64 * 2 ^ 64))"
  by simp_all

lemma u256_nat_of_nat: "n < 2 ^ 256 \<Longrightarrow> u256_nat (u256_of_nat n) = n"
  unfolding u256_of_nat_def u256_nat.simps limb_powers unat_of_nat len_u64
  by (rule base_digits)

lemma u256_of_nat_nat: "u256_of_nat (u256_nat x) = x"
proof (cases x)
  case (U256 l0 l1 l2 l3)
  note d = digits_of_base [OF unat_u64_bound [of l0] unat_u64_bound [of l1] unat_u64_bound [of l2],
    of "unat l3"]
  have "word_of_nat (u256_nat x) = l0" "word_of_nat (u256_nat x div 2 ^ 64) = l1"
    "word_of_nat (u256_nat x div (2 ^ 64 * 2 ^ 64)) = l2"
    "word_of_nat (u256_nat x div (2 ^ 64 * 2 ^ 64 * 2 ^ 64)) = l3"
    unfolding U256 u256_nat.simps limb_powers word_unat_eq_iff unat_of_nat len_u64
    by (simp_all only: d mod_less [OF unat_u64_bound])
  then show ?thesis
    by (simp only: U256 u256_of_nat_def limb_powers)
qed

lemma u256_nat_of_div [simp]: "u256_nat (u256_of_nat (u256_nat x div d)) = u256_nat x div d"
  by (rule u256_nat_of_nat) (rule le_less_trans [OF div_le_dividend u256_nat_bound])

lemma u256_nat_eq_iff: "u256_nat x = u256_nat y \<longleftrightarrow> x = y"
  by (metis u256_of_nat_nat)

lemma u256_is_zero_iff [simp]: "U256_is_zero x \<longleftrightarrow> u256_nat x = 0"
  by (cases x) (auto simp: unat_eq_zero)

lemma u256_nat_consts [simp]:
  "u256_nat U256_ZERO = 0" "u256_nat U256_ONE = 1" "u256_nat U256_MAX = 2 ^ 256 - 1"
  by (simp_all add: U256_ZERO_def U256_ONE_def U256_MAX_def unsigned_minus_1_eq_mask mask_eq_exp_minus_1)

lemma u256_nat_from_u64 [simp]: "u256_nat (U256_from_u64 w) = unat w"
  by (simp add: U256_from_u64_def)

section \<open>Addition and subtraction\<close>

lemma overflowing_add_unat:
  fixes a b :: "'a::len word"
  assumes "overflowing_add a b = (s, c)"
  shows "unat s + 2 ^ LENGTH('a) * of_bool c = unat a + unat b"
proof (cases "unat a + unat b < 2 ^ LENGTH('a)")
  case True
  then show ?thesis
    using assms by (auto simp: overflowing_add_def unat_word_ariths)
next
  case False
  have "unat a + unat b - 2 ^ LENGTH('a) < 2 ^ LENGTH('a)"
    using add_strict_mono [OF unsigned_less [where 'a = nat, of a] unsigned_less [of b]]
    by linarith
  then have "(unat a + unat b) mod 2 ^ LENGTH('a) = unat a + unat b - 2 ^ LENGTH('a)"
    using False by (simp add: le_mod_geq)
  then show ?thesis
    using assms False by (auto simp: overflowing_add_def unat_word_ariths)
qed

lemma overflowing_sub_unat:
  fixes a b :: "'a::len word"
  assumes "overflowing_sub a b = (s, c)"
  shows "unat s + unat b = unat a + 2 ^ LENGTH('a) * of_bool c"
proof -
  have "unat b \<le> unat a + 2 ^ LENGTH('a)"
    using unsigned_less [where 'a = nat, of b] by linarith
  then show ?thesis
    using assms by (auto simp: overflowing_sub_def unat_sub_if' word_less_nat_alt word_le_nat_alt)
qed

lemma add_limb_unat:
  assumes "add_limb a b c = (s, c')"
  shows "unat s + 2 ^ 64 * of_bool c' = unat a + unat b + of_bool c"
proof -
  obtain p c1 c2 where p: "overflowing_add a b = (p, c1)"
    and q: "overflowing_add p (of_bool c) = (s, c2)" and c': "c' = (c1 \<or> c2)"
    using assms by (auto simp: add_limb_def split: prod.splits)
  have one: "unat (of_bool c :: u64) = of_bool c"
    by (cases c) simp_all
  show ?thesis
    using overflowing_add_unat [OF p] overflowing_add_unat [OF q]
      unat_u64_bound [of a] unat_u64_bound [of b] unat_u64_bound [of s] unat_u64_bound [of p]
    by (cases c; cases c1; cases c2) (simp_all add: one c')
qed

lemma sub_limb_unat:
  assumes "sub_limb a b c = (s, c')"
  shows "unat s + unat b + of_bool c = unat a + 2 ^ 64 * of_bool c'"
proof -
  obtain p c1 c2 where p: "overflowing_sub a b = (p, c1)"
    and q: "overflowing_sub p (of_bool c) = (s, c2)" and c': "c' = (c1 \<or> c2)"
    using assms by (auto simp: sub_limb_def split: prod.splits)
  have one: "unat (of_bool c :: u64) = of_bool c"
    by (cases c) simp_all
  show ?thesis
    using overflowing_sub_unat [OF p] overflowing_sub_unat [OF q]
      unat_u64_bound [of a] unat_u64_bound [of b] unat_u64_bound [of s] unat_u64_bound [of p]
    by (cases c; cases c1; cases c2) (simp_all add: one c')
qed

lemma U256_checked_add_cases:
  obtains r c where "u256_nat r + 2 ^ 256 * of_bool c = u256_nat x + u256_nat y"
    and "U256_checked_add x y = (if c then Err Overflow else Ok r)"
proof -
  obtain a0 a1 a2 a3 b0 b1 b2 b3 where x: "x = U256 a0 a1 a2 a3" and y: "y = U256 b0 b1 b2 b3"
    by (metis U256.exhaust)
  obtain r0 c0 r1 c1 r2 c2 r3 c3 where l: "add_limb a0 b0 False = (r0, c0)"
    "add_limb a1 b1 c0 = (r1, c1)" "add_limb a2 b2 c1 = (r2, c2)" "add_limb a3 b3 c2 = (r3, c3)"
    by (metis surj_pair)
  have "u256_nat (U256 r0 r1 r2 r3) + 2 ^ 256 * of_bool c3 = u256_nat x + u256_nat y"
    using l [THEN add_limb_unat] by (simp add: x y)
  moreover have "U256_checked_add x y = (if c3 then Err Overflow else Ok (U256 r0 r1 r2 r3))"
    by (simp add: x y l)
  ultimately show thesis
    by (rule that)
qed

lemma U256_checked_sub_cases:
  obtains r c where "u256_nat r + u256_nat y = u256_nat x + 2 ^ 256 * of_bool c"
    and "U256_checked_sub x y = (if c then Err Underflow else Ok r)"
proof -
  obtain a0 a1 a2 a3 b0 b1 b2 b3 where x: "x = U256 a0 a1 a2 a3" and y: "y = U256 b0 b1 b2 b3"
    by (metis U256.exhaust)
  obtain r0 c0 r1 c1 r2 c2 r3 c3 where l: "sub_limb a0 b0 False = (r0, c0)"
    "sub_limb a1 b1 c0 = (r1, c1)" "sub_limb a2 b2 c1 = (r2, c2)" "sub_limb a3 b3 c2 = (r3, c3)"
    by (metis surj_pair)
  have "u256_nat (U256 r0 r1 r2 r3) + u256_nat y = u256_nat x + 2 ^ 256 * of_bool c3"
    using l [THEN sub_limb_unat] by (simp add: x y)
  moreover have "U256_checked_sub x y = (if c3 then Err Underflow else Ok (U256 r0 r1 r2 r3))"
    by (simp add: x y l)
  ultimately show thesis
    by (rule that)
qed

lemma U256_checked_add_eq:
  "U256_checked_add x y =
     (if u256_nat x + u256_nat y < 2 ^ 256 then Ok (u256_of_nat (u256_nat x + u256_nat y))
      else Err Overflow)"
proof (rule U256_checked_add_cases [of x y])
  fix r c
  assume e: "u256_nat r + 2 ^ 256 * of_bool c = u256_nat x + u256_nat y"
    and v: "U256_checked_add x y = (if c then Err Overflow else Ok r)"
  show ?thesis
    using e u256_nat_bound [of r] by (cases c) (simp_all add: v flip: e, simp add: u256_of_nat_nat)
qed

lemma U256_checked_sub_eq:
  "U256_checked_sub x y =
     (if u256_nat y \<le> u256_nat x then Ok (u256_of_nat (u256_nat x - u256_nat y))
      else Err Underflow)"
proof (rule U256_checked_sub_cases [where x = x and y = y])
  fix r c
  assume e: "u256_nat r + u256_nat y = u256_nat x + 2 ^ 256 * of_bool c"
    and v: "U256_checked_sub x y = (if c then Err Underflow else Ok r)"
  show ?thesis
  proof (cases c)
    case True
    then show ?thesis
      using e u256_nat_bound [of r] by (simp add: v)
  next
    case False
    then have "u256_nat x = u256_nat r + u256_nat y"
      using e by simp
    then show ?thesis
      using False by (simp add: v u256_of_nat_nat)
  qed
qed

section \<open>Multiplication and division by a 32-bit value\<close>

lemma unat_u32_bound: "unat (w :: u32) < 2 ^ 32"
  using unsigned_less [of w] by simp

lemma unat_ucast_u128 [simp]:
  "unat (ucast (a :: u64) :: u128) = unat a" "unat (ucast (m :: u32) :: u128) = unat m"
  by (simp_all add: unsigned_ucast_eq take_bit_nat_eq_self unat_u64_bound [THEN less_le_trans]
      unat_u32_bound [THEN less_le_trans])

lemma mul_limb_unat:
  assumes "mul_limb a m c = (r, c')" and c: "unat c < 2 ^ 32"
  shows "unat r + 2 ^ 64 * unat c' = unat a * unat m + unat c" and "unat c' < 2 ^ 32"
proof -
  define p where "p = (ucast a * ucast m + c :: u128)"
  have le: "unat a * unat m \<le> (2 ^ 64 - 1) * (2 ^ 32 - 1)"
    using unat_u64_bound [of a] unat_u32_bound [of m] by (intro mult_mono) simp_all
  then have "unat p = unat a * unat m + unat c"
    using c by (simp add: p_def unat_word_ariths)
  moreover have rc: "r = ucast p" "c' = drop_bit 64 p"
    using assms(1) by (auto simp: mul_limb_def Let_def p_def)
  moreover have "unat r = unat p mod 2 ^ 64" "unat c' = unat p div 2 ^ 64"
    unfolding rc unat_drop_bit_eq unsigned_ucast_eq
    by (simp_all add: drop_bit_eq_div take_bit_eq_mod)
  ultimately show "unat r + 2 ^ 64 * unat c' = unat a * unat m + unat c" "unat c' < 2 ^ 32"
    using le c by (simp_all add: div_less_iff_less_mult)
qed

lemma U256_checked_mul_u32_cases:
  obtains r and c :: u128 where "u256_nat r + 2 ^ 256 * unat c = u256_nat x * unat m"
    and "U256_checked_mul_u32 x m = (if c = 0 then Ok r else Err Overflow)"
proof -
  obtain a0 a1 a2 a3 where x: "x = U256 a0 a1 a2 a3"
    by (metis U256.exhaust)
  obtain r0 c0 r1 c1 r2 c2 r3 c3 where l: "mul_limb a0 m 0 = (r0, c0)"
    "mul_limb a1 m c0 = (r1, c1)" "mul_limb a2 m c1 = (r2, c2)" "mul_limb a3 m c2 = (r3, c3)"
    by (metis surj_pair)
  have e0: "unat r0 + 2 ^ 64 * unat c0 = unat a0 * unat m" and b0: "unat c0 < 2 ^ 32"
    using mul_limb_unat [OF l(1)] by simp_all
  note e1 = mul_limb_unat(1) [OF l(2) b0] and b1 = mul_limb_unat(2) [OF l(2) b0]
  note e2 = mul_limb_unat(1) [OF l(3) b1] and b2 = mul_limb_unat(2) [OF l(3) b1]
  note e3 = mul_limb_unat(1) [OF l(4) b2]
  have "u256_nat (U256 r0 r1 r2 r3) + 2 ^ 256 * unat c3 = u256_nat x * unat m"
    using e0 e1 e2 e3 by (simp add: x distrib_right)
  moreover have "U256_checked_mul_u32 x m = (if c3 = 0 then Ok (U256 r0 r1 r2 r3) else Err Overflow)"
    by (simp add: x l)
  ultimately show thesis
    by (rule that)
qed

lemma U256_checked_mul_u32_eq:
  "U256_checked_mul_u32 x m =
     (if u256_nat x * unat m < 2 ^ 256 then Ok (u256_of_nat (u256_nat x * unat m))
      else Err Overflow)"
proof (rule U256_checked_mul_u32_cases [of x m])
  fix r and c :: u128
  assume e: "u256_nat r + 2 ^ 256 * unat c = u256_nat x * unat m"
    and v: "U256_checked_mul_u32 x m = (if c = 0 then Ok r else Err Overflow)"
  show ?thesis
  proof (cases "c = 0")
    case True
    then show ?thesis
      using e u256_nat_bound [of r] by (simp add: v u256_of_nat_nat flip: e)
  next
    case False
    then have "0 < unat c"
      by (simp add: unat_gt_0)
    then have "2 ^ 256 \<le> u256_nat x * unat m"
      unfolding e [symmetric] by simp
    then show ?thesis
      using False by (simp add: v)
  qed
qed

lemma div_limb_unat:
  assumes "div_limb (ucast d) a r = (q, r')" and r: "unat r < unat (d :: u32)"
  shows "unat q * unat d + unat r' = 2 ^ 64 * unat r + unat a" and "unat r' < unat d"
proof -
  define n where "n = (push_bit 64 r) OR (ucast a :: u128)"
  have rb: "unat r < 2 ^ 32"
    using r unat_u32_bound [of d] by simp
  have "push_bit 64 r AND (ucast a :: u128) = 0"
    by (rule bit_word_eqI) (auto simp: bit_simps not_less dest: bit_imp_le_length)
  then have "n = push_bit 64 r + ucast a"
    unfolding n_def by (rule disjunctive_add_eq_or [symmetric])
  moreover have "unat (push_bit 64 r) = 2 ^ 64 * unat r"
    using rb by (simp add: push_bit_eq_mult unat_word_ariths)
  ultimately have n: "unat n = 2 ^ 64 * unat r + unat a"
    using rb unat_u64_bound [of a] by (simp add: unat_word_ariths)
  have d: "0 < unat d"
    using r by simp
  have "unat n < 2 ^ 64 * unat d"
    using r unat_u64_bound [of a] unfolding n by simp
  then have "unat n div unat d < 2 ^ 64"
    using d by (simp add: div_less_iff_less_mult)
  moreover have qr: "q = ucast (n div ucast d)" "r' = n mod ucast d"
    using assms(1) by (auto simp: div_limb_def Let_def n_def)
  moreover have "unat q = (unat n div unat d) mod 2 ^ 64" "unat r' = unat n mod unat d"
    unfolding qr unsigned_ucast_eq
    by (simp_all add: take_bit_eq_mod unat_div_distrib unat_mod_distrib)
  ultimately show "unat q * unat d + unat r' = 2 ^ 64 * unat r + unat a" "unat r' < unat d"
    unfolding n [symmetric] using d by simp_all
qed

lemma U256_checked_div_rem_u32_cases:
  assumes "d \<noteq> 0"
  obtains q r where "u256_nat q * unat d + unat r = u256_nat x" and "unat r < unat d"
    and "U256_checked_div_rem_u32 x d = Ok (q, r)"
proof -
  obtain a0 a1 a2 a3 where x: "x = U256 a0 a1 a2 a3"
    by (metis U256.exhaust)
  obtain q3 r3 q2 r2 q1 r1 q0 r0 where l: "div_limb (ucast d) a3 0 = (q3, r3)"
    "div_limb (ucast d) a2 r3 = (q2, r2)" "div_limb (ucast d) a1 r2 = (q1, r1)"
    "div_limb (ucast d) a0 r1 = (q0, r0)"
    by (metis surj_pair)
  have "unat (0 :: u128) < unat d"
    using assms by (simp add: unat_gt_0)
  note e3 = div_limb_unat [OF l(1) this]
  note e2 = div_limb_unat [OF l(2) e3(2)]
  note e1 = div_limb_unat [OF l(3) e2(2)]
  note e0 = div_limb_unat [OF l(4) e1(2)]
  have r: "unat (ucast r0 :: u32) = unat r0"
    using e0(2) unat_u32_bound [of d] by (simp add: unsigned_ucast_eq take_bit_nat_eq_self)
  have "u256_nat (U256 q0 q1 q2 q3) * unat d + unat r0 = u256_nat x"
    using e0(1) e1(1) e2(1) e3(1) by (simp add: x distrib_right)
  moreover have "U256_checked_div_rem_u32 x d = Ok (U256 q0 q1 q2 q3, ucast r0)"
    using assms by (simp add: x l)
  ultimately show thesis
    using e0(2) that [of "U256 q0 q1 q2 q3" "ucast r0"] by (simp add: r)
qed

lemma U256_checked_div_rem_u32_eq:
  "U256_checked_div_rem_u32 x d =
     (if d = 0 then Err DivisionByZero
      else Ok (u256_of_nat (u256_nat x div unat d), word_of_nat (u256_nat x mod unat d)))"
proof (cases "d = 0")
  case True
  then show ?thesis
    by (cases x) simp
next
  case False
  then obtain q r where e: "u256_nat q * unat d + unat r = u256_nat x" "unat r < unat d"
    and v: "U256_checked_div_rem_u32 x d = Ok (q, r)"
    by (rule U256_checked_div_rem_u32_cases)
  have "u256_nat x div unat d = u256_nat q" "u256_nat x mod unat d = unat r"
    using e(2) by (simp_all flip: e(1))
  then show ?thesis
    using False by (simp add: v u256_of_nat_nat)
qed

lemma U256_checked_add_u32_eq:
  "U256_checked_add_u32 x m =
     (if u256_nat x + unat m < 2 ^ 256 then Ok (u256_of_nat (u256_nat x + unat m))
      else Err Overflow)"
proof -
  have "unat (ucast m :: u64) = unat m"
    using unat_u32_bound [of m] by (simp add: unsigned_ucast_eq take_bit_nat_eq_self)
  then show ?thesis
    by (simp only: U256_checked_add_u32_def U256_checked_add_eq u256_nat_from_u64)
qed

lemmas u256_arith = U256_checked_add_eq U256_checked_sub_eq U256_checked_mul_u32_eq
  U256_checked_div_rem_u32_eq U256_checked_add_u32_eq

section \<open>The order\<close>

lemma compare_of_limbs:
  fixes a b x y B :: nat
  assumes "x < B" "y < B"
  shows "compare_of (x + B * a) (y + B * b) = (if compare_of a b \<noteq> Equal then compare_of a b else compare_of x y)"
proof -
  have "x + B * a < y + B * b" if "a < b"
    using that assms(1) mult_le_mono2 [of "Suc a" b B] by simp
  moreover have "y + B * b < x + B * a" if "b < a"
    using that assms(2) mult_le_mono2 [of "Suc b" a B] by simp
  ultimately show ?thesis
    by (cases a b rule: linorder_cases) (auto simp: compare_of_def)
qed

lemma compare_of_unat: "compare_of (a :: 'a::len word) b = compare_of (unat a) (unat b)"
  by (simp add: compare_of_def word_less_nat_alt word_unat_eq_iff)

lemma U256_cmp_eq: "U256_cmp x y = compare_of (u256_nat x) (u256_nat y)"
proof -
  obtain a0 a1 a2 a3 b0 b1 b2 b3 where x: "x = U256 a0 a1 a2 a3" and y: "y = U256 b0 b1 b2 b3"
    by (metis U256.exhaust)
  have v: "u256_nat (U256 l0 l1 l2 l3) = unat l0 + 2 ^ 64 * (unat l1 + 2 ^ 64 * (unat l2 + 2 ^ 64 * unat l3))"
    for l0 l1 l2 l3
    by simp
  show ?thesis
    unfolding x y v by (simp only: U256_cmp.simps compare_of_limbs unat_u64_bound compare_of_unat) auto
qed

instantiation U256 :: linorder
begin

definition less_eq_U256 :: "U256 \<Rightarrow> U256 \<Rightarrow> bool" where
  "less_eq_U256 x y \<longleftrightarrow> U256_cmp x y \<noteq> Greater"

definition less_U256 :: "U256 \<Rightarrow> U256 \<Rightarrow> bool" where
  "less_U256 x y \<longleftrightarrow> U256_cmp x y = Less"

instance
  by standard
    (auto simp: less_eq_U256_def less_U256_def U256_cmp_eq compare_of_def u256_nat_eq_iff split: if_splits)

end

lemma u256_le_iff: "x \<le> y \<longleftrightarrow> u256_nat x \<le> u256_nat y"
  by (simp add: less_eq_U256_def U256_cmp_eq compare_of_def)

lemma u256_less_iff: "x < y \<longleftrightarrow> u256_nat x < u256_nat y"
  by (simp add: less_U256_def U256_cmp_eq compare_of_def)

lemma U256_cmp_compare_of: "U256_cmp x y = compare_of x y"
  by (simp add: U256_cmp_eq compare_of_def u256_less_iff u256_nat_eq_iff)

interpretation u256_order: comparator U256_cmp
  by unfold_locales (auto simp: U256_cmp_compare_of compare_of_def split: if_splits)

section \<open>Big-endian bytes\<close>

lemma unat_u8_bound: "unat (b :: u8) < 256"
  using unsigned_less [of b] by simp

lemma be_nat_snoc: "be_nat (bs @ [b]) = 256 * be_nat bs + unat b"
  by (simp add: be_nat_def)

lemma be_nat_append: "be_nat (xs @ ys) = be_nat xs * 256 ^ length ys + be_nat ys"
proof (induction ys rule: rev_induct)
  case (snoc y ys)
  then show ?case
    unfolding append_assoc [symmetric] be_nat_snoc by (simp add: algebra_simps)
qed (simp add: be_nat_def)

lemma be_nat_bound: "be_nat bs < 256 ^ length bs"
proof (induction bs rule: rev_induct)
  case (snoc b bs)
  then show ?case
    unfolding be_nat_snoc using unat_u8_bound [of b] by simp
qed (simp add: be_nat_def)

lemma be_nat_inject: "length bs = length cs \<Longrightarrow> be_nat bs = be_nat cs \<Longrightarrow> bs = cs"
proof (induction bs arbitrary: cs rule: rev_induct)
  case (snoc b bs)
  then obtain c ds where cs: "cs = ds @ [c]"
    by (metis Nil_is_append_conv length_0_conv not_Cons_self2 rev_exhaust)
  have "256 * be_nat bs + unat b = 256 * be_nat ds + unat c"
    using snoc.prems(2) by (simp only: cs be_nat_snoc)
  then have "(256 * be_nat bs + unat b) div 256 = (256 * be_nat ds + unat c) div 256"
    "(256 * be_nat bs + unat b) mod 256 = (256 * be_nat ds + unat c) mod 256"
    by simp_all
  then have "be_nat bs = be_nat ds" "unat b = unat c"
    using unat_u8_bound [of b] unat_u8_bound [of c] by simp_all
  then show ?case
    using snoc.IH [of ds] snoc.prems(1) by (simp add: cs word_unat_eq_iff)
qed simp

lemma unat_shift_or:
  assumes "unat w < 2 ^ 56"
  shows "unat (push_bit 8 w OR ucast (b :: u8) :: u64) = 256 * unat w + unat b"
proof -
  have "push_bit 8 w AND (ucast b :: u64) = 0"
    by (rule bit_word_eqI) (auto simp: bit_simps not_less dest: bit_imp_le_length)
  then have "push_bit 8 w OR (ucast b :: u64) = push_bit 8 w + ucast b"
    by (rule disjunctive_add_eq_or [symmetric])
  moreover have "unat (ucast b :: u64) = unat b"
    using unat_u8_bound [of b] by (simp add: unsigned_ucast_eq take_bit_nat_eq_self)
  ultimately show ?thesis
    using assms unat_u8_bound [of b] by (simp add: push_bit_eq_mult unat_word_ariths)
qed

lemma u64_from_be_bytes_nat: "length bs \<le> 8 \<Longrightarrow> unat (u64_from_be_bytes bs) = be_nat bs"
proof (induction bs rule: rev_induct)
  case (snoc b bs)
  have "be_nat bs < 256 ^ 7"
    using be_nat_bound [of bs] power_increasing [of "length bs" 7 "256 :: nat"] snoc.prems by simp
  then show ?case
    unfolding be_nat_snoc using snoc unat_shift_or [of "u64_from_be_bytes bs" b]
    by (simp add: u64_from_be_bytes_def)
qed (simp add: be_nat_def u64_from_be_bytes_def)

lemma be_nat_digits:
  "be_nat (map (\<lambda>i. ucast (drop_bit (8 * i) (w :: u64))) (rev [0..<k])) = unat w mod 256 ^ k"
proof (induction k)
  case (Suc k)
  have p: "(2::nat) ^ (8 * k) = 256 ^ k"
    by (simp add: power_mult)
  have byte: "unat (ucast (drop_bit (8 * k) w) :: u8) = unat w div 256 ^ k mod 256"
    unfolding unsigned_ucast_eq unat_drop_bit_eq by (simp add: take_bit_eq_mod drop_bit_eq_div p)
  have "be_nat (map (\<lambda>i. ucast (drop_bit (8 * i) w)) (rev [0..<Suc k]))
      = be_nat ([ucast (drop_bit (8 * k) w)] @ map (\<lambda>i. ucast (drop_bit (8 * i) w)) (rev [0..<k]))"
    by simp
  also have "\<dots> = (unat w div 256 ^ k mod 256) * 256 ^ k + unat w mod 256 ^ k"
    unfolding be_nat_append Suc.IH by (simp add: be_nat_def byte)
  also have "\<dots> = unat w mod 256 ^ Suc k"
    using mod_mult2_eq [of "unat w" "256 ^ k" 256] by (simp add: mult.commute)
  finally show ?case .
qed (simp add: be_nat_def)

lemma u64_to_be_bytes_nat: "be_nat (u64_to_be_bytes w) = unat w"
proof -
  have "[7, 6, 5, 4, 3, 2, 1, 0] = rev [0..<8]"
    by (simp add: upt_rec)
  then show ?thesis
    unfolding u64_to_be_bytes_def using be_nat_digits [of w 8] unat_u64_bound [of w] by simp
qed

lemma length_u64_to_be_bytes [simp]: "length (u64_to_be_bytes w) = 8"
  by (simp add: u64_to_be_bytes_def)

lemma U256_to_be_bytes_nat: "be_nat (U256_to_be_bytes x) = u256_nat x"
  by (cases x) (simp add: be_nat_append u64_to_be_bytes_nat)

lemma length_U256_to_be_bytes [simp]: "length (U256_to_be_bytes x) = 32"
  by (cases x) simp

lemma U256_from_be_bytes_nat:
  assumes "length bs = 32"
  shows "u256_nat (U256_from_be_bytes bs) = be_nat bs"
proof -
  define b3 b2 b1 b0 where "b3 = take 8 bs" "b2 = take 8 (drop 8 bs)"
    "b1 = take 8 (drop 16 bs)" "b0 = drop 24 bs"
  note b = this
  have l: "length b3 = 8" "length b2 = 8" "length b1 = 8" "length b0 = 8"
    using assms by (simp_all add: b)
  have bs: "bs = b3 @ b2 @ b1 @ b0"
    unfolding b using append_take_drop_id [of 8 bs] append_take_drop_id [of 8 "drop 8 bs"]
      append_take_drop_id [of 8 "drop 16 bs"] by (simp add: drop_drop)
  show ?thesis
    by (simp add: bs l U256_from_be_bytes_def u64_from_be_bytes_nat be_nat_append)
qed

section \<open>Properties\<close>

text \<open>
  C24: the limb-wise checked operations compute exact 256-bit arithmetic.  Each succeeds
  exactly when the mathematical result fits, and then returns it; otherwise it returns the
  error its caller branches on.  No carry, borrow, product or partial remainder is lost.
\<close>

theorem U256_arithmetic_exact:
  "U256_checked_add x y =
     (if u256_nat x + u256_nat y < 2 ^ 256 then Ok (u256_of_nat (u256_nat x + u256_nat y))
      else Err Overflow)
   \<and> U256_checked_sub x y =
     (if u256_nat y \<le> u256_nat x then Ok (u256_of_nat (u256_nat x - u256_nat y)) else Err Underflow)
   \<and> U256_checked_mul_u32 x m =
     (if u256_nat x * unat m < 2 ^ 256 then Ok (u256_of_nat (u256_nat x * unat m)) else Err Overflow)
   \<and> U256_checked_div_rem_u32 x m =
     (if m = 0 then Err DivisionByZero
      else Ok (u256_of_nat (u256_nat x div unat m), word_of_nat (u256_nat x mod unat m)))
   \<and> U256_cmp x y = compare_of (u256_nat x) (u256_nat y)"
  by (intro conjI U256_checked_add_eq U256_checked_sub_eq U256_checked_mul_u32_eq
      U256_checked_div_rem_u32_eq U256_cmp_eq)

text \<open>
  C29: the 32-byte form is the big-endian value and loses nothing in either direction.
\<close>

theorem U256_be_bytes_roundtrip:
  assumes "length bytes = 32"
  shows "U256_from_be_bytes (U256_to_be_bytes x) = x
    \<and> U256_to_be_bytes (U256_from_be_bytes bytes) = bytes
    \<and> u256_nat (U256_from_be_bytes bytes) = be_nat bytes"
proof (intro conjI)
  show "u256_nat (U256_from_be_bytes bytes) = be_nat bytes"
    by (rule U256_from_be_bytes_nat [OF assms])
  then show "U256_to_be_bytes (U256_from_be_bytes bytes) = bytes"
    by (intro be_nat_inject) (simp_all add: assms U256_to_be_bytes_nat)
  show "U256_from_be_bytes (U256_to_be_bytes x) = x"
    by (simp add: U256_from_be_bytes_nat U256_to_be_bytes_nat flip: u256_nat_eq_iff)
qed

theorem U256_be_bytes_roundtrip_witness:
  "let bytes = [0, 0, 0, 0, 0, 0, 0, 0, 0, 0, 0, 0, 0, 0, 0, 0, 0, 0, 0, 0, 0, 0, 0, 0, 0, 0, 0, 0, 0, 0, 1, 7] :: u8 list
   in length bytes = 32
      \<and> U256_to_be_bytes (U256_from_be_bytes bytes) = bytes
      \<and> u256_nat (U256_from_be_bytes bytes) = 263"
  using U256_be_bytes_roundtrip [of "[0, 0, 0, 0, 0, 0, 0, 0, 0, 0, 0, 0, 0, 0, 0, 0, 0, 0, 0, 0, 0, 0, 0, 0, 0, 0, 0, 0, 0, 0, 1, 7]" U256_ONE]
  by (simp add: be_nat_def)

end
