(* ===== verification/Pm_Decimal.thy ===== *)
theory Pm_Decimal
  imports Pm_U256
begin

text \<open>
  Decimal text for 256-bit integers, from \<open>crates/reap-pm-core/src/numeric.rs\<close>: integral
  and six-decimal fixed-point parsing, and the two printers.  A Rust \<open>&str\<close> is its byte
  sequence, one \<open>char\<close> per byte, so \<open>len\<close> counts bytes as the source does.  A cursor or
  a width that would step below zero panics in the source and is the error
  \<open>ArithmeticPanic\<close> here.
\<close>

section \<open>Bytes of text\<close>

definition byte_of :: "char \<Rightarrow> nat" where
  "byte_of c = of_char c"

definition is_ascii_digit :: "char \<Rightarrow> bool" where
  "is_ascii_digit c \<longleftrightarrow> 48 \<le> byte_of c \<and> byte_of c \<le> 57"

definition digit_value :: "char \<Rightarrow> u32" where
  "digit_value c = word_of_nat (byte_of c - 48)"

definition digit_char :: "nat \<Rightarrow> char" where
  "digit_char d = char_of (48 + d)"

definition starts_with :: "char \<Rightarrow> string \<Rightarrow> bool" where
  "starts_with c s \<longleftrightarrow> (case s of [] \<Rightarrow> False | d # ds \<Rightarrow> d = c)"

text \<open>\<open>str::split\<close> on one character: always at least one component.\<close>

fun split_on :: "char \<Rightarrow> string \<Rightarrow> string list" where
  "split_on sep [] = [[]]"
| "split_on sep (c # cs) =
     (if c = sep then [] # split_on sep cs
      else (case split_on sep cs of [] \<Rightarrow> [[c]] | w # ws \<Rightarrow> (c # w) # ws))"

section \<open>Parsing\<close>

primrec push_digits :: "U256 \<Rightarrow> string \<Rightarrow> (U256, PmNumericError) result" where
  "push_digits value [] = Ok value"
| "push_digits value (c # cs) =
     bind_result (U256_checked_mul_u32 value 10) (\<lambda>scaled.
     bind_result (U256_checked_add_u32 scaled (digit_value c)) (\<lambda>next.
     push_digits next cs))"

definition parse_integral_u256 :: "string \<Rightarrow> (U256, PmNumericError) result" where
  "parse_integral_u256 input =
     (if input = [] then Err PmNumericError.Empty
      else if MAX_DECIMAL_INPUT_BYTES < length input then Err InputTooLong
      else if starts_with (CHR ''-'') input then Err Negative
      else if starts_with (CHR ''+'') input \<or> \<not> list_all is_ascii_digit input then Err InvalidFormat
      else push_digits U256_ZERO input)"

definition first_six_digits :: "string \<Rightarrow> string" where
  "first_six_digits fractional =
     map (\<lambda>index. if index < length fractional then fractional ! index else CHR ''0'') [0..<6]"

definition parse_scaled_components :: "string \<Rightarrow> string option \<Rightarrow> (U256, PmNumericError) result" where
  "parse_scaled_components integer fractional_part =
     bind_result (push_digits U256_ZERO integer) (\<lambda>whole.
      let fractional = (case fractional_part of None \<Rightarrow> [] | Some digits \<Rightarrow> digits)
      in bind_result (push_digits whole (first_six_digits fractional)) (\<lambda>value.
         if list_ex (\<lambda>digit. digit \<noteq> CHR ''0'') (drop 6 fractional)
         then Err (if U256_is_zero value then Underflow else NonRepresentable)
         else Ok value))"

definition parse_scaled_decimal :: "string \<Rightarrow> (U256, PmNumericError) result" where
  "parse_scaled_decimal input =
     (if input = [] then Err PmNumericError.Empty
      else if MAX_DECIMAL_INPUT_BYTES < length input then Err InputTooLong
      else if starts_with (CHR ''-'') input then Err Negative
      else if starts_with (CHR ''+'') input then Err InvalidFormat
      else let components = split_on (CHR ''.'') input;
               integer = hd components;
               fractional = (if 1 < length components then Some (components ! 1) else None)
           in if 2 < length components \<or> integer = [] \<or> \<not> list_all is_ascii_digit integer
                \<or> is_some_and (\<lambda>digits. digits = [] \<or> \<not> list_all is_ascii_digit digits) fractional
              then Err InvalidFormat
              else parse_scaled_components integer fractional)"

section \<open>Printing\<close>

datatype fmt_fault = FmtError | ArithmeticPanic

definition u8_try_from_u32 :: "u32 \<Rightarrow> u8 option" where
  "u8_try_from_u32 w = (if unat w < 256 then Some (ucast w) else None)"

function display_loop :: "U256 \<Rightarrow> nat \<Rightarrow> string \<Rightarrow> (string, fmt_fault) result" where
  "display_loop remaining cursor digits =
     (if U256_is_zero remaining then Ok digits
      else case U256_checked_div_rem_u32 remaining 10 of
             Err _ \<Rightarrow> Err FmtError
           | Ok (quot, remainder) \<Rightarrow>
               if cursor = 0 then Err ArithmeticPanic
               else case u8_try_from_u32 remainder of
                      None \<Rightarrow> Err FmtError
                    | Some d \<Rightarrow> display_loop quot (cursor - 1) (digit_char (unat d) # digits))"
  by pat_completeness auto
termination
  by (relation "measure (\<lambda>(remaining, cursor, digits). u256_nat remaining)")
    (auto simp: U256_checked_div_rem_u32_eq)

declare display_loop.simps [simp del]

definition U256_fmt :: "U256 \<Rightarrow> (string, fmt_fault) result" where
  "U256_fmt x = (if U256_is_zero x then Ok ''0'' else display_loop x U256_DECIMAL_DIGITS [])"

text \<open>\<open>{value}\<close> and \<open>{value:0width$}\<close> of the standard library's formatter on a \<open>u32\<close>.\<close>

fun nat_digits :: "nat \<Rightarrow> string" where
  "nat_digits n = (if n = 0 then [] else nat_digits (n div 10) @ [digit_char (n mod 10)])"

declare nat_digits.simps [simp del]

definition nat_to_string :: "nat \<Rightarrow> string" where
  "nat_to_string n = (if n = 0 then ''0'' else nat_digits n)"

definition zero_padded :: "nat \<Rightarrow> u32 \<Rightarrow> string" where
  "zero_padded width value =
     (let s = nat_to_string (unat value) in replicate (width - length s) (CHR ''0'') @ s)"

fun trim_zeros :: "u32 \<Rightarrow> nat \<Rightarrow> (u32 \<times> nat, fmt_fault) result" where
  "trim_zeros fractional width =
     (if fractional mod 10 = 0 then
        (case width of
           0 \<Rightarrow> Err ArithmeticPanic
         | Suc w \<Rightarrow> trim_zeros (fractional div 10) w)
      else Ok (fractional, width))"

declare trim_zeros.simps [simp del]

definition format_scaled_units :: "U256 \<Rightarrow> (string, fmt_fault) result" where
  "format_scaled_units units =
     (case U256_checked_div_rem_u32 units PM_PROTOCOL_SCALE of
        Err _ \<Rightarrow> Err FmtError
      | Ok (whole, fractional) \<Rightarrow>
          bind_result (U256_fmt whole) (\<lambda>text.
            if fractional = 0 then Ok text
            else bind_result (trim_zeros fractional 6) (\<lambda>(fractional, width).
                   Ok (text @ CHR ''.'' # zero_padded width fractional))))"

section \<open>Values of digit strings\<close>

definition dec_from :: "nat \<Rightarrow> string \<Rightarrow> nat" where
  "dec_from n s = foldl (\<lambda>v c. 10 * v + (byte_of c - 48)) n s"

abbreviation dec_value :: "string \<Rightarrow> nat" where
  "dec_value \<equiv> dec_from 0"

text \<open>The decimal text with integer digits \<open>i\<close> and fractional digits \<open>f\<close>.\<close>

definition scaled_text :: "string \<Rightarrow> string \<Rightarrow> string" where
  "scaled_text i f = (if f = [] then i else i @ CHR ''.'' # f)"

lemma dec_from_simps [simp]:
  "dec_from n [] = n" "dec_from n (c # cs) = dec_from (10 * n + (byte_of c - 48)) cs"
  "dec_from n (s @ t) = dec_from (dec_from n s) t"
  by (simp_all add: dec_from_def)

lemma dec_from_split: "dec_from n s = n * 10 ^ length s + dec_value s"
proof (induction s arbitrary: n)
  case (Cons c cs)
  show ?case
    using Cons [of "10 * n + (byte_of c - 48)"] Cons [of "byte_of c - 48"]
    by (simp add: algebra_simps)
qed simp

lemma dec_from_le: "n \<le> dec_from n s"
  by (subst dec_from_split) (simp add: trans_le_add1)

lemma digit_char_digit [simp]:
  "d < 10 \<Longrightarrow> byte_of (digit_char d) = 48 + d" "d < 10 \<Longrightarrow> is_ascii_digit (digit_char d)"
  by (simp_all add: byte_of_def digit_char_def is_ascii_digit_def)

lemma is_ascii_digit_bound: "is_ascii_digit c \<Longrightarrow> byte_of c - 48 \<le> 9"
  unfolding is_ascii_digit_def by linarith

lemma digit_value_unat: "is_ascii_digit c \<Longrightarrow> unat (digit_value c) = byte_of c - 48"
  unfolding digit_value_def unat_of_nat is_ascii_digit_def by (intro mod_less) (simp add: less_diff_conv2)

lemma dec_value_bound: "list_all is_ascii_digit s \<Longrightarrow> dec_value s < 10 ^ length s"
proof (induction s)
  case (Cons c cs)
  then have "byte_of c - 48 \<le> 9" "dec_value cs < 10 ^ length cs"
    by (simp_all add: is_ascii_digit_bound)
  then have "(byte_of c - 48) * 10 ^ length cs + dec_value cs < 9 * 10 ^ length cs + 10 ^ length cs"
    by (intro add_le_less_mono mult_le_mono1)
  then show ?case
    by (simp add: dec_from_split [of "byte_of c - 48"])
qed simp

lemma push_digits_eq:
  "list_all is_ascii_digit s \<Longrightarrow>
   push_digits v s =
     (if dec_from (u256_nat v) s < 2 ^ 256 then Ok (u256_of_nat (dec_from (u256_nat v) s))
      else Err Overflow)"
proof (induction s arbitrary: v)
  case Nil
  show ?case
    using u256_nat_bound [of v] by (simp add: u256_of_nat_nat)
next
  case (Cons c cs)
  let ?n = "10 * u256_nat v + (byte_of c - 48)"
  have d: "unat (digit_value c) = byte_of c - 48"
    using Cons.prems by (simp add: digit_value_unat)
  show ?case
  proof (cases "?n < 2 ^ 256")
    case True
    then show ?thesis
      using Cons by (simp add: U256_checked_mul_u32_eq U256_checked_add_u32_eq u256_nat_of_nat d mult.commute)
  next
    case False
    then have "\<not> dec_from ?n cs < 2 ^ 256"
      using dec_from_le [of ?n cs] by simp
    then show ?thesis
      using False by (auto simp: U256_checked_mul_u32_eq U256_checked_add_u32_eq u256_nat_of_nat d mult.commute)
  qed
qed

section \<open>Printers\<close>

lemma nat_digits_digits: "list_all is_ascii_digit (nat_digits n)"
  by (induction n rule: nat_digits.induct) (subst nat_digits.simps, simp)

lemma nat_digits_value: "dec_value (nat_digits n) = n"
  by (induction n rule: nat_digits.induct) (subst nat_digits.simps, simp)

lemma nat_digits_length: "n < 10 ^ k \<Longrightarrow> length (nat_digits n) \<le> k"
proof (induction n arbitrary: k rule: nat_digits.induct)
  case (1 n)
  show ?case
  proof (cases "n = 0")
    case False
    then obtain j where k: "k = Suc j"
      using 1(2) by (cases k) auto
    then show ?thesis
      using 1(1) [OF False, of j] 1(2) False
      by (subst nat_digits.simps) (simp add: less_mult_imp_div_less mult.commute)
  qed (simp add: nat_digits.simps)
qed

lemma nat_digits_empty: "nat_digits n = [] \<longleftrightarrow> n = 0"
  by (subst nat_digits.simps) simp

lemma nat_to_string_digits: "list_all is_ascii_digit (nat_to_string n)"
  by (simp add: nat_to_string_def nat_digits_digits is_ascii_digit_def byte_of_def)

lemma nat_to_string_value: "dec_value (nat_to_string n) = n"
  by (simp add: nat_to_string_def nat_digits_value byte_of_def)

lemma nat_to_string_nonempty: "nat_to_string n \<noteq> []"
  by (simp add: nat_to_string_def nat_digits_empty)

lemma nat_to_string_length: "n < 10 ^ k \<Longrightarrow> 0 < k \<Longrightarrow> length (nat_to_string n) \<le> k"
  by (simp add: nat_to_string_def nat_digits_length)

lemmas nat_to_string_facts = nat_to_string_digits nat_to_string_value nat_to_string_nonempty

lemma display_loop_eq:
  "u256_nat x < 10 ^ cursor \<Longrightarrow> display_loop x cursor ds = Ok (nat_digits (u256_nat x) @ ds)"
proof (induction cursor arbitrary: x ds)
  case 0
  then show ?case
    by (simp add: display_loop.simps nat_digits.simps)
next
  case (Suc cursor)
  let ?d = "u256_nat x mod 10"
  have d: "unat (word_of_nat ?d :: u32) = ?d" "unat (word_of_nat ?d :: u8) = ?d"
    by (simp_all add: unat_of_nat)
  then have b: "u8_try_from_u32 (word_of_nat ?d) = Some (word_of_nat ?d)"
    by (simp add: u8_try_from_u32_def word_unat_eq_iff unsigned_ucast_eq take_bit_nat_eq_self)
  have "u256_nat x div 10 < 10 ^ cursor"
    using Suc.prems by (simp add: less_mult_imp_div_less mult.commute)
  then have "display_loop (u256_of_nat (u256_nat x div 10)) cursor (digit_char ?d # ds)
      = Ok (nat_digits (u256_nat x div 10) @ digit_char ?d # ds)"
    using Suc.IH [of "u256_of_nat (u256_nat x div 10)"] by simp
  then show ?case
    by (subst display_loop.simps, subst nat_digits.simps)
      (simp add: U256_checked_div_rem_u32_eq b d)
qed

lemma U256_fmt_eq: "U256_fmt x = Ok (nat_to_string (u256_nat x))"
proof -
  have "u256_nat x < 10 ^ 78"
    using u256_nat_bound [of x] by simp
  then show ?thesis
    by (simp add: U256_fmt_def nat_to_string_def U256_DECIMAL_DIGITS_def display_loop_eq)
qed

lemma trim_zeros_Ok:
  "unat f \<noteq> 0 \<Longrightarrow> unat f < 10 ^ width \<Longrightarrow>
   \<exists>g w. trim_zeros f width = Ok (g, w) \<and> w \<le> width \<and> unat f = unat g * 10 ^ (width - w)
     \<and> unat g \<noteq> 0 \<and> unat g < 10 ^ w"
proof (induction width arbitrary: f)
  case (Suc width)
  show ?case
  proof (cases "f mod 10 = 0")
    case True
    then have m: "unat f mod 10 = 0"
      by (simp add: word_unat_eq_iff unat_mod_distrib)
    have q: "unat (f div 10) = unat f div 10"
      by (simp add: unat_div_distrib)
    have "unat (f div 10) \<noteq> 0" "unat (f div 10) < 10 ^ width"
      using m Suc.prems by (auto simp: q less_mult_imp_div_less mult.commute)
    from Suc.IH [OF this] obtain g w where g: "trim_zeros (f div 10) width = Ok (g, w)" "w \<le> width"
      "unat (f div 10) = unat g * 10 ^ (width - w)" "unat g \<noteq> 0" "unat g < 10 ^ w"
      by blast
    have "unat f = unat g * 10 ^ (Suc width - w)"
      using g(2,3) m by (auto simp: q Suc_diff_le)
    then show ?thesis
      using g True by (subst trim_zeros.simps) auto
  next
    case False
    then show ?thesis
      using Suc.prems by (subst trim_zeros.simps) auto
  qed
qed simp

lemma dec_value_zeros: "dec_from 0 (replicate k (CHR ''0'') @ s) = dec_value s"
  by (induction k) (simp_all add: byte_of_def)

lemma dec_from_zeros: "dec_from n (replicate k (CHR ''0'')) = n * 10 ^ k"
  by (induction k arbitrary: n) (simp_all add: byte_of_def)

lemma zero_padded_facts:
  assumes "unat f < 10 ^ w" "unat f \<noteq> 0"
  shows "length (zero_padded w f) = w" "list_all is_ascii_digit (zero_padded w f)"
    "dec_value (zero_padded w f) = unat f"
proof -
  have w: "0 < w"
    using assms by (cases w) simp_all
  have z: "is_ascii_digit (CHR ''0'')"
    by (simp add: is_ascii_digit_def byte_of_def)
  show "length (zero_padded w f) = w" 
    using nat_to_string_length [OF assms(1) w] by (simp add: zero_padded_def Let_def)
  show "list_all is_ascii_digit (zero_padded w f)"
    using nat_to_string_digits [of "unat f"] z by (auto simp: zero_padded_def Let_def list_all_iff)
  show "dec_value (zero_padded w f) = unat f"
    unfolding zero_padded_def Let_def dec_value_zeros by (rule nat_to_string_value)
qed

section \<open>Parsers\<close>

lemma not_starts_with:
  "list_all is_ascii_digit s \<Longrightarrow> \<not> starts_with (CHR ''-'') s \<and> \<not> starts_with (CHR ''+'') s"
  by (cases s) (auto simp: starts_with_def is_ascii_digit_def byte_of_def)

lemma split_on_Cons: "\<exists>w ws. split_on sep s = w # ws"
  by (induction s) (auto split: list.splits)

lemma split_on_digits:
  "list_all is_ascii_digit s \<Longrightarrow> split_on (CHR ''.'') s = [s]"
  "list_all is_ascii_digit s \<Longrightarrow> split_on (CHR ''.'') (s @ CHR ''.'' # t) = s # split_on (CHR ''.'') t"
  by (induction s) (auto simp: is_ascii_digit_def byte_of_def)

lemma split_on_join: "split_on sep s = w # ws \<Longrightarrow> s = w @ concat (map ((#) sep) ws)"
proof (induction s arbitrary: w ws)
  case (Cons c cs)
  obtain v vs where v: "split_on sep cs = v # vs"
    using split_on_Cons by blast
  note j = Cons.IH [OF v]
  show ?case
  proof (cases "c = sep")
    case True
    then have "w = []" "ws = v # vs"
      using Cons.prems by (simp_all add: v)
    then show ?thesis
      using True j by simp
  next
    case False
    then have "w = c # v" "ws = vs"
      using Cons.prems by (simp_all add: v)
    then show ?thesis
      using j by simp
  qed
qed simp

lemma first_six_digits_eq: "first_six_digits f = take 6 f @ replicate (6 - length f) (CHR ''0'')"
  by (rule nth_equalityI) (auto simp: first_six_digits_def nth_append)

lemma first_six_digits_digits: "list_all is_ascii_digit f \<Longrightarrow> list_all is_ascii_digit (first_six_digits f)"
  by (auto simp: first_six_digits_eq list_all_iff is_ascii_digit_def byte_of_def dest: in_set_takeD)

lemma dec_value_eq_0: "list_all is_ascii_digit s \<Longrightarrow> dec_value s = 0 \<longleftrightarrow> \<not> list_ex (\<lambda>d. d \<noteq> CHR ''0'') s"
proof (induction s)
  case (Cons c cs)
  have "byte_of c - 48 = 0 \<longleftrightarrow> c = CHR ''0''"
    using Cons.prems of_char_eq_iff [where 'a = nat, of c "CHR ''0''"]
    by (auto simp: is_ascii_digit_def byte_of_def)
  then show ?case
    using Cons by (auto simp: dec_from_split [of "byte_of c - 48"])
qed simp

lemma scaled_exact_iff:
  assumes "list_all is_ascii_digit f"
  shows "v * 10 ^ length f = 10 ^ 6 * dec_from m f \<longleftrightarrow>
    \<not> list_ex (\<lambda>d. d \<noteq> CHR ''0'') (drop 6 f) \<and> v = dec_from m (first_six_digits f)"
proof (cases "length f \<le> 6")
  case True
  then obtain k where k: "6 = length f + k"
    using le_Suc_ex by blast
  have "v * 10 ^ length f = 10 ^ 6 * dec_from m f \<longleftrightarrow> v = 10 ^ k * dec_from m f"
    unfolding k power_add by (simp add: mult.commute)
  moreover have "6 - length f = k"
    using k by simp
  ultimately show ?thesis
    using True by (simp add: first_six_digits_eq dec_from_zeros mult.commute)
next
  case False
  then obtain k where k: "length f = 6 + k"
    using le_Suc_ex nat_le_linear by blast
  define r n where "r = dec_value (drop 6 f)" and "n = dec_from m (take 6 f)"
  have r: "r < 10 ^ k" "r = 0 \<longleftrightarrow> \<not> list_ex (\<lambda>d. d \<noteq> CHR ''0'') (drop 6 f)"
    using assms dec_value_bound [of "drop 6 f"] dec_value_eq_0 [of "drop 6 f"] k
    by (auto simp: r_def list_all_iff dest: in_set_dropD)
  have "dec_from m f = dec_from n (drop 6 f)"
    unfolding n_def using dec_from_simps(3) [of m "take 6 f" "drop 6 f"] by simp
  then have f: "dec_from m f = n * 10 ^ k + r"
    using dec_from_split [of n "drop 6 f"] k by (simp add: r_def)
  have "v * 10 ^ length f = 10 ^ 6 * dec_from m f \<longleftrightarrow> v * 10 ^ k = n * 10 ^ k + r"
    unfolding f k power_add mult.left_commute [of v] by (simp only: mult_cancel1) simp
  also have "\<dots> \<longleftrightarrow> r = 0 \<and> v = n"
  proof
    assume e: "v * 10 ^ k = n * 10 ^ k + r"
    have "r = (n * 10 ^ k + r) mod 10 ^ k"
      using r(1) by simp
    also have "\<dots> = 0"
      unfolding e [symmetric] by simp
    finally show "r = 0 \<and> v = n"
      using e by simp
  qed simp
  finally show ?thesis
    using False r(2) by (simp add: first_six_digits_eq n_def)
qed

lemma parse_scaled_components_eq:
  assumes "list_all is_ascii_digit i" "list_all is_ascii_digit f"
  shows "parse_scaled_components i (if f = [] then None else Some f) =
    (let n = dec_from (dec_value i) (first_six_digits f) in
     if n < 2 ^ 256 then
       if list_ex (\<lambda>d. d \<noteq> CHR ''0'') (drop 6 f) then Err (if n = 0 then Underflow else NonRepresentable)
       else Ok (u256_of_nat n)
     else Err Overflow)"
proof -
  define n where "n = dec_from (dec_value i) (first_six_digits f)"
  have o: "(case (if f = [] then None else Some f) of None \<Rightarrow> [] | Some digits \<Rightarrow> digits) = f"
    by simp
  have le: "dec_value i \<le> n"
    unfolding n_def by (rule dec_from_le)
  show ?thesis
    using first_six_digits_digits [OF assms(2)] assms(1) le
    by (auto simp: parse_scaled_components_def o push_digits_eq u256_nat_of_nat Let_def n_def [symmetric])
qed

lemma parse_scaled_decimal_text:
  assumes "i \<noteq> []" "list_all is_ascii_digit i" "list_all is_ascii_digit f"
    "length (scaled_text i f) \<le> 256"
  shows "parse_scaled_decimal (scaled_text i f) =
    parse_scaled_components i (if f = [] then None else Some f)"
proof -
  obtain c cs where i: "i = c # cs"
    using assms(1) by (cases i) auto
  have "\<not> starts_with (CHR ''-'') (scaled_text i f)" "\<not> starts_with (CHR ''+'') (scaled_text i f)"
    using not_starts_with [OF assms(2)] by (simp_all add: i scaled_text_def starts_with_def)
  moreover have "split_on (CHR ''.'') (scaled_text i f) = (if f = [] then [i] else [i, f])"
    using assms(2,3) by (simp add: scaled_text_def split_on_digits)
  moreover have "scaled_text i f \<noteq> []"
    using assms(1) by (simp add: scaled_text_def)
  ultimately show ?thesis
    using assms by (simp add: parse_scaled_decimal_def MAX_DECIMAL_INPUT_BYTES_def Let_def)
qed

lemma parse_scaled_decimal_Ok_text:
  assumes "parse_scaled_decimal s = Ok v"
  obtains i f where "s = scaled_text i f" "i \<noteq> []" "list_all is_ascii_digit i"
    "list_all is_ascii_digit f" "length s \<le> 256"
proof -
  obtain i ws where w: "split_on (CHR ''.'') s = i # ws"
    using split_on_Cons by blast
  have c: "length ws \<le> 1" "i \<noteq> []" "list_all is_ascii_digit i" "length s \<le> 256"
    "ws \<noteq> [] \<longrightarrow> ws ! 0 \<noteq> [] \<and> list_all is_ascii_digit (ws ! 0)"
    using assms w
    by (auto simp: parse_scaled_decimal_def MAX_DECIMAL_INPUT_BYTES_def Let_def split: if_splits)
  show thesis
  proof (cases ws)
    case Nil
    then show ?thesis
      using that [of i "[]"] split_on_join [OF w] c by (simp add: scaled_text_def)
  next
    case (Cons f us)
    then show ?thesis
      using that [of i f] split_on_join [OF w] c by (simp add: scaled_text_def)
  qed
qed

lemma format_scaled_units_text:
  obtains i f where "format_scaled_units x = Ok (scaled_text i f)" "i \<noteq> []" "list_all is_ascii_digit i"
    "list_all is_ascii_digit f" "length (scaled_text i f) \<le> 85"
    "u256_nat x * 10 ^ length f = 10 ^ 6 * dec_value (i @ f)"
proof -
  let ?n = "u256_nat x"
  define i where "i = nat_to_string (?n div 10 ^ 6)"
  have "?n div 10 ^ 6 < 10 ^ 78"
    using u256_nat_bound [of x] by (simp add: less_mult_imp_div_less)
  then have i: "i \<noteq> []" "list_all is_ascii_digit i" "dec_value i = ?n div 10 ^ 6" "length i \<le> 78"
    unfolding i_def by (simp_all add: nat_to_string_facts nat_to_string_length)
  have u: "unat (word_of_nat (?n mod 10 ^ 6) :: u32) = ?n mod 10 ^ 6"
    unfolding unat_of_nat by (rule mod_less) (simp add: less_trans [OF mod_less_divisor])
  have fmt: "format_scaled_units x =
      (if ?n mod 10 ^ 6 = 0 then Ok i
       else bind_result (trim_zeros (word_of_nat (?n mod 10 ^ 6)) 6) (\<lambda>(g, w). Ok (i @ CHR ''.'' # zero_padded w g)))"
    using u by (auto simp: format_scaled_units_def PM_PROTOCOL_SCALE_def U256_checked_div_rem_u32_eq
        U256_fmt_eq i_def word_unat_eq_iff)
  show thesis
  proof (cases "?n mod 10 ^ 6 = 0")
    case True
    then have "?n = 10 ^ 6 * dec_value i"
      by (auto simp: i(3))
    then show ?thesis
      using that [of i "[]"] True i by (simp add: fmt scaled_text_def)
  next
    case False
    obtain g w where g: "trim_zeros (word_of_nat (?n mod 10 ^ 6)) 6 = Ok (g, w)" "w \<le> 6"
      "?n mod 10 ^ 6 = unat g * 10 ^ (6 - w)" "unat g \<noteq> 0" "unat g < 10 ^ w"
      using trim_zeros_Ok [of "word_of_nat (?n mod 10 ^ 6)" 6] False u by auto
    note z = zero_padded_facts [OF g(5,4)]
    have w: "w \<noteq> 0"
      using g(4,5) by (cases w) auto
    have six: "(10::nat) ^ (6 - w) * 10 ^ w = 10 ^ 6"
      using g(2) by (simp flip: power_add)
    have "?n * 10 ^ w = (10 ^ 6 * (?n div 10 ^ 6) + unat g * 10 ^ (6 - w)) * 10 ^ w"
      by (simp flip: g(3))
    also have "\<dots> = 10 ^ 6 * ((?n div 10 ^ 6) * 10 ^ w + unat g)"
      using six by (simp add: algebra_simps)
    finally have "?n * 10 ^ length (zero_padded w g) = 10 ^ 6 * dec_value (i @ zero_padded w g)"
      using dec_from_split [of "?n div 10 ^ 6" "zero_padded w g"] by (simp add: z i(3))
    moreover have "zero_padded w g \<noteq> []"
      using z(1) w by auto
    ultimately show ?thesis
      using that [of i "zero_padded w g"] False i z g(1,2) by (simp add: fmt scaled_text_def)
  qed
qed

lemma parse_scaled_text_iff:
  assumes "i \<noteq> []" "list_all is_ascii_digit i" "list_all is_ascii_digit f" "length (scaled_text i f) \<le> 256"
  shows "parse_scaled_decimal (scaled_text i f) = Ok v \<longleftrightarrow>
    u256_nat v * 10 ^ length f = 10 ^ 6 * dec_value (i @ f)"
  unfolding dec_from_simps(3) scaled_exact_iff [OF assms(3)] parse_scaled_decimal_text [OF assms]
    parse_scaled_components_eq [OF assms(2,3)] Let_def
  using u256_nat_bound [of v] u256_of_nat_nat [of v] by (auto simp: u256_nat_of_nat)

section \<open>Properties\<close>

text \<open>
  C28: printing a 256-bit integer never runs past its 78-byte buffer and never fails, and
  parsing the printed decimal gives the integer back.
\<close>

theorem U256_display_parse_roundtrip:
  "\<exists>text. U256_fmt x = Ok text \<and> length text \<le> 78 \<and> parse_integral_u256 text = Ok x"
proof (intro exI conjI)
  let ?s = "nat_to_string (u256_nat x)"
  show "U256_fmt x = Ok ?s"
    by (rule U256_fmt_eq)
  show l: "length ?s \<le> 78"
    using u256_nat_bound [of x] by (intro nat_to_string_length) simp_all
  show "parse_integral_u256 ?s = Ok x"
    using l not_starts_with [OF nat_to_string_digits] u256_nat_bound [of x]
    by (simp add: parse_integral_u256_def MAX_DECIMAL_INPUT_BYTES_def nat_to_string_facts
        push_digits_eq u256_of_nat_nat)
qed

text \<open>
  C26: a fixed-point parse succeeds exactly on texts of at most 256 bytes made of integer digits
  and an optional point with fractional digits, whose value times one million is an integer
  below \<open>2 ^ 256\<close>; the parsed units are that integer.  Nothing is rounded or truncated.
\<close>

theorem parse_scaled_decimal_exact:
  "parse_scaled_decimal input = Ok units \<longleftrightarrow>
     (\<exists>i f. input = scaled_text i f \<and> i \<noteq> [] \<and> list_all is_ascii_digit i \<and> list_all is_ascii_digit f
        \<and> length input \<le> 256 \<and> u256_nat units * 10 ^ length f = 10 ^ 6 * dec_value (i @ f))"
  using parse_scaled_decimal_Ok_text [of input units] parse_scaled_text_iff by metis

text \<open>
  C27: printing scaled units always succeeds, and parsing the printed text gives exactly the
  same units back.
\<close>

theorem format_scaled_units_roundtrip:
  "\<exists>text. format_scaled_units units = Ok text \<and> parse_scaled_decimal text = Ok units"
proof -
  obtain i f where t: "format_scaled_units units = Ok (scaled_text i f)" "i \<noteq> []"
    "list_all is_ascii_digit i" "list_all is_ascii_digit f" "length (scaled_text i f) \<le> 85"
    "u256_nat units * 10 ^ length f = 10 ^ 6 * dec_value (i @ f)"
    by (rule format_scaled_units_text)
  have "parse_scaled_decimal (scaled_text i f) = Ok units"
    using t parse_scaled_text_iff by simp
  then show ?thesis
    using t(1) by blast
qed

end
