(* ===== verification/Pm_Identity.thy ===== *)
theory Pm_Identity
  imports Pm_Decimal "HOL-Library.List_Lexorder" "HOL-Library.Product_Lexorder" "HOL-Library.Option_ord"
begin

text \<open>
  The identities of \<open>crates/reap-pm-core/src/identity.rs\<close>: bounded ASCII text, hexadecimal
  byte strings, token and chain identities, account-scoped keys, spender requirements and
  product sources.

  The const generic \<open>N\<close> of \<open>BoundedAscii\<close> and \<open>HexBytes\<close> is an argument of the
  constructors.  Newtypes that only rename a number (handles, revisions, epochs) are type
  synonyms; the types the reducers keep in order are datatypes with the derived
  lexicographic order of the source as their \<open>linorder\<close>.
\<close>

section \<open>Text identities\<close>

definition OPAQUE_ID_CAPACITY :: nat where
  "OPAQUE_ID_CAPACITY = 96"

definition CONFIG_ID_CAPACITY :: nat where
  "CONFIG_ID_CAPACITY = 32"

datatype PmIdentityError =
    Empty
  | TooLong
  | NonAscii
  | WhitespaceOrControl
  | InvalidHex
  | NonCanonical
  | Zero
  | InvalidChain
  | InvalidOkxInstrument

definition is_ascii :: "char \<Rightarrow> bool" where
  "is_ascii c \<longleftrightarrow> byte_of c < 128"

definition is_ascii_whitespace :: "char \<Rightarrow> bool" where
  "is_ascii_whitespace c \<longleftrightarrow> byte_of c \<in> {9, 10, 12, 13, 32}"

definition is_ascii_control :: "char \<Rightarrow> bool" where
  "is_ascii_control c \<longleftrightarrow> byte_of c < 32 \<or> byte_of c = 127"

definition is_ascii_uppercase :: "char \<Rightarrow> bool" where
  "is_ascii_uppercase c \<longleftrightarrow> 65 \<le> byte_of c \<and> byte_of c \<le> 90"

definition is_ascii_lowercase :: "char \<Rightarrow> bool" where
  "is_ascii_lowercase c \<longleftrightarrow> 97 \<le> byte_of c \<and> byte_of c \<le> 122"

definition is_ascii_alphanumeric :: "char \<Rightarrow> bool" where
  "is_ascii_alphanumeric c \<longleftrightarrow> is_ascii_digit c \<or> is_ascii_uppercase c \<or> is_ascii_lowercase c"

definition is_ascii_hexdigit :: "char \<Rightarrow> bool" where
  "is_ascii_hexdigit c \<longleftrightarrow>
     is_ascii_digit c \<or> (65 \<le> byte_of c \<and> byte_of c \<le> 70) \<or> (97 \<le> byte_of c \<and> byte_of c \<le> 102)"

datatype BoundedAscii = BoundedAscii (ascii_length: u8) (ascii_bytes: "u8 list")

definition byte_u8 :: "char \<Rightarrow> u8" where
  "byte_u8 c = word_of_nat (byte_of c)"

definition BoundedAscii_new :: "nat \<Rightarrow> string \<Rightarrow> (BoundedAscii, PmIdentityError) result" where
  "BoundedAscii_new n value =
     (if value = [] then Err PmIdentityError.Empty
      else if n < length value \<or> 255 < length value then Err TooLong
      else if \<not> list_all is_ascii value then Err NonAscii
      else if list_ex (\<lambda>byte. is_ascii_whitespace byte \<or> is_ascii_control byte) value
        then Err WhitespaceOrControl
      else Ok (BoundedAscii (word_of_nat (length value))
                 (map byte_u8 value @ replicate (n - length value) 0)))"

definition BoundedAscii_as_str :: "BoundedAscii \<Rightarrow> string" where
  "BoundedAscii_as_str a = map (\<lambda>b. char_of (unat b)) (take (unat (ascii_length a)) (ascii_bytes a))"

text \<open>\<open>bytes.windows(2).any(pair == b"--")\<close>\<close>

definition has_double_dash :: "string \<Rightarrow> bool" where
  "has_double_dash value \<longleftrightarrow> adjacent_any (\<lambda>a b. a = CHR ''-'' \<and> b = CHR ''-'') value"

definition OkxInstrumentId_new :: "string \<Rightarrow> (BoundedAscii, PmIdentityError) result" where
  "OkxInstrumentId_new value =
     bind_result (BoundedAscii_new CONFIG_ID_CAPACITY value) (\<lambda>inner.
       if value \<noteq> [] \<and> is_ascii_alphanumeric (hd value) \<and> is_ascii_alphanumeric (last value)
          \<and> CHR ''-'' \<in> set value \<and> \<not> has_double_dash value
          \<and> list_all (\<lambda>byte. is_ascii_uppercase byte \<or> is_ascii_digit byte \<or> byte = CHR ''-'') value
       then Ok inner else Err InvalidOkxInstrument)"

section \<open>Hexadecimal identities\<close>

type_synonym HexBytes = "u8 list"
type_synonym EvmAddress = HexBytes
type_synonym PmConditionId = HexBytes
type_synonym PmMarketId = HexBytes
type_synonym PmClientOrderId = HexBytes

definition hex_value :: "char \<Rightarrow> (u8, PmIdentityError) result" where
  "hex_value byte =
     (if 48 \<le> byte_of byte \<and> byte_of byte \<le> 57 then Ok (byte_u8 byte - 48)
      else if 97 \<le> byte_of byte \<and> byte_of byte \<le> 102 then Ok (byte_u8 byte - 97 + 10)
      else if 65 \<le> byte_of byte \<and> byte_of byte \<le> 70 then Ok (byte_u8 byte - 65 + 10)
      else Err InvalidHex)"

definition HexBytes_from_bytes :: "u8 list \<Rightarrow> (HexBytes, PmIdentityError) result" where
  "HexBytes_from_bytes bytes =
     (if list_all (\<lambda>byte. byte = 0) bytes then Err PmIdentityError.Zero else Ok bytes)"

text \<open>
  The digit loop: byte \<open>index\<close> is read from digits \<open>2 * index\<close> and \<open>2 * index + 1\<close>.  The
  callers have checked that there are exactly two digits per byte.
\<close>

fun hex_pairs :: "string \<Rightarrow> (u8 list, PmIdentityError) result" where
  "hex_pairs (h # l # rest) =
     bind_result (hex_value h) (\<lambda>high.
     bind_result (hex_value l) (\<lambda>low.
     bind_result (hex_pairs rest) (\<lambda>bytes.
       Ok (((push_bit 4 high) OR low) # bytes))))"
| "hex_pairs _ = Ok []"

definition HexBytes_parse_prefixed :: "nat \<Rightarrow> string \<Rightarrow> (HexBytes, PmIdentityError) result" where
  "HexBytes_parse_prefixed n input =
     (if take 2 input \<noteq> ''0x'' then Err InvalidHex
      else let digits = drop 2 input
           in if length digits \<noteq> n * 2 then Err InvalidHex
              else bind_result (hex_pairs digits) HexBytes_from_bytes)"

definition HexBytes_parse_unprefixed_lower :: "nat \<Rightarrow> string \<Rightarrow> (HexBytes, PmIdentityError) result" where
  "HexBytes_parse_unprefixed_lower n input =
     (if length input \<noteq> n * 2 then Err InvalidHex
      else if list_ex (\<lambda>byte. is_ascii_uppercase byte \<or> \<not> is_ascii_hexdigit byte) input then Err NonCanonical
      else bind_result (hex_pairs input) HexBytes_from_bytes)"

text \<open>\<open>{byte:02x}\<close>\<close>

definition hex_digit :: "nat \<Rightarrow> char" where
  "hex_digit d = char_of (if d < 10 then 48 + d else 87 + d)"

definition hex_byte :: "u8 \<Rightarrow> string" where
  "hex_byte b = [hex_digit (unat b div 16), hex_digit (unat b mod 16)]"

definition HexBytes_write_hex :: "HexBytes \<Rightarrow> bool \<Rightarrow> string" where
  "HexBytes_write_hex bytes prefixed = (if prefixed then ''0x'' else []) @ concat (map hex_byte bytes)"

definition EvmAddress_parse :: "string \<Rightarrow> (EvmAddress, PmIdentityError) result" where
  "EvmAddress_parse input = HexBytes_parse_prefixed 20 input"

definition PmMarketId_parse :: "string \<Rightarrow> (PmMarketId, PmIdentityError) result" where
  "PmMarketId_parse input = HexBytes_parse_prefixed 32 input"

definition PmClientOrderId_parse :: "string \<Rightarrow> (PmClientOrderId, PmIdentityError) result" where
  "PmClientOrderId_parse input = HexBytes_parse_unprefixed_lower 16 input"

section \<open>Numbers, handles and keys\<close>

datatype PmTokenId = PmTokenId (token_units: U256)

definition PmTokenId_new :: "U256 \<Rightarrow> (PmTokenId, PmIdentityError) result" where
  "PmTokenId_new units = (if U256_is_zero units then Err PmIdentityError.Zero else Ok (PmTokenId units))"

record PmInstrumentId =
  instrument_market :: PmMarketId
  instrument_token :: PmTokenId

datatype PmChainId = PmChainId (chain_value: u64)

definition PmChainId_new :: "u64 \<Rightarrow> (PmChainId, PmIdentityError) result" where
  "PmChainId_new value = (if value = 0 then Err InvalidChain else Ok (PmChainId value))"

type_synonym PmVenueOrderId = BoundedAscii
type_synonym PmFillId = BoundedAscii
type_synonym PmConnectionId = BoundedAscii
type_synonym PmEnvironmentId = BoundedAscii

type_synonym OkxReferenceHandle = u16
type_synonym PmMarketHandle = u16
type_synonym PmTokenHandle = u16
type_synonym PmAccountHandle = u16
type_synonym PmSourceHandle = u16

type_synonym ConnectionEpoch = u64
type_synonym SnapshotRevision = u64
type_synonym IngressSequence = u64

datatype PmClientOrderKey = PmClientOrderKey (client_account: PmAccountHandle) (client_id: PmClientOrderId)

datatype PmVenueOrderKey = PmVenueOrderKey (venue_account: PmAccountHandle) (venue_id: PmVenueOrderId)

record PmFillKey =
  fill_venue_order :: PmVenueOrderKey
  fill_id :: PmFillId

datatype PmInstrumentHandle = PmInstrumentHandle (handle_market: PmMarketHandle) (handle_token: PmTokenHandle)

section \<open>Spenders and sources\<close>

datatype PmSpenderDomain = Standard | NegativeRisk

datatype PmAssetId = Collateral EvmAddress | Outcome EvmAddress PmTokenId

datatype PmSpenderRequirement =
  PmSpenderRequirement (req_chain: PmChainId) (req_spender: EvmAddress)
    (req_domain: PmSpenderDomain) (req_asset: PmAssetId)

datatype Venue = Okx | Polymarket

datatype PmProductSource =
    OkxReference PmSourceHandle OkxReferenceHandle
  | PolymarketMarket PmSourceHandle PmTokenHandle
  | PolymarketAccount PmSourceHandle PmAccountHandle

primrec PmProductSource_venue :: "PmProductSource \<Rightarrow> Venue" where
  "PmProductSource_venue (OkxReference source reference) = Okx"
| "PmProductSource_venue (PolymarketMarket source token) = Polymarket"
| "PmProductSource_venue (PolymarketAccount source account) = Polymarket"

primrec PmProductSource_source :: "PmProductSource \<Rightarrow> PmSourceHandle" where
  "PmProductSource_source (OkxReference source reference) = source"
| "PmProductSource_source (PolymarketMarket source token) = source"
| "PmProductSource_source (PolymarketAccount source account) = source"

section \<open>The derived orders\<close>

instantiation BoundedAscii :: linorder
begin

definition less_eq_BoundedAscii :: "BoundedAscii \<Rightarrow> BoundedAscii \<Rightarrow> bool" where
  "less_eq_BoundedAscii a b \<longleftrightarrow> (ascii_length a, ascii_bytes a) \<le> (ascii_length b, ascii_bytes b)"

definition less_BoundedAscii :: "BoundedAscii \<Rightarrow> BoundedAscii \<Rightarrow> bool" where
  "less_BoundedAscii a b \<longleftrightarrow> (ascii_length a, ascii_bytes a) < (ascii_length b, ascii_bytes b)"

instance
  by standard (auto simp: less_eq_BoundedAscii_def less_BoundedAscii_def intro: BoundedAscii.expand)

end

instantiation PmClientOrderKey :: linorder
begin

definition less_eq_PmClientOrderKey :: "PmClientOrderKey \<Rightarrow> PmClientOrderKey \<Rightarrow> bool" where
  "less_eq_PmClientOrderKey a b \<longleftrightarrow> (client_account a, client_id a) \<le> (client_account b, client_id b)"

definition less_PmClientOrderKey :: "PmClientOrderKey \<Rightarrow> PmClientOrderKey \<Rightarrow> bool" where
  "less_PmClientOrderKey a b \<longleftrightarrow> (client_account a, client_id a) < (client_account b, client_id b)"

instance
  by standard
    (auto simp: less_eq_PmClientOrderKey_def less_PmClientOrderKey_def intro: PmClientOrderKey.expand)

end

instantiation PmVenueOrderKey :: linorder
begin

definition less_eq_PmVenueOrderKey :: "PmVenueOrderKey \<Rightarrow> PmVenueOrderKey \<Rightarrow> bool" where
  "less_eq_PmVenueOrderKey a b \<longleftrightarrow> (venue_account a, venue_id a) \<le> (venue_account b, venue_id b)"

definition less_PmVenueOrderKey :: "PmVenueOrderKey \<Rightarrow> PmVenueOrderKey \<Rightarrow> bool" where
  "less_PmVenueOrderKey a b \<longleftrightarrow> (venue_account a, venue_id a) < (venue_account b, venue_id b)"

instance
  by standard
    (auto simp: less_eq_PmVenueOrderKey_def less_PmVenueOrderKey_def intro: PmVenueOrderKey.expand)

end

primrec domain_rank :: "PmSpenderDomain \<Rightarrow> nat" where
  "domain_rank Standard = 0"
| "domain_rank NegativeRisk = 1"

primrec asset_rank :: "PmAssetId \<Rightarrow> nat \<times> EvmAddress \<times> U256" where
  "asset_rank (Collateral contract) = (0, contract, U256_ZERO)"
| "asset_rank (Outcome contract token) = (1, contract, token_units token)"

definition requirement_rank :: "PmSpenderRequirement \<Rightarrow> u64 \<times> EvmAddress \<times> nat \<times> nat \<times> EvmAddress \<times> U256" where
  "requirement_rank r =
     (chain_value (req_chain r), req_spender r, domain_rank (req_domain r), asset_rank (req_asset r))"

lemma asset_rank_inject: "asset_rank a = asset_rank b \<Longrightarrow> a = b"
  by (cases a; cases b) (auto intro: PmTokenId.expand)

lemma requirement_rank_inject: "requirement_rank a = requirement_rank b \<Longrightarrow> a = b"
proof (cases a; cases b)
  fix c s d x c' s' d' x'
  assume "requirement_rank a = requirement_rank b" "a = PmSpenderRequirement c s d x"
    "b = PmSpenderRequirement c' s' d' x'"
  then show "a = b"
    using asset_rank_inject [of x x']
    by (cases d; cases d') (auto simp: requirement_rank_def intro: PmChainId.expand)
qed

instantiation PmSpenderRequirement :: linorder
begin

definition less_eq_PmSpenderRequirement :: "PmSpenderRequirement \<Rightarrow> PmSpenderRequirement \<Rightarrow> bool" where
  "less_eq_PmSpenderRequirement a b \<longleftrightarrow> requirement_rank a \<le> requirement_rank b"

definition less_PmSpenderRequirement :: "PmSpenderRequirement \<Rightarrow> PmSpenderRequirement \<Rightarrow> bool" where
  "less_PmSpenderRequirement a b \<longleftrightarrow> requirement_rank a < requirement_rank b"

instance
proof
  fix x y z :: PmSpenderRequirement
  show "x < y \<longleftrightarrow> x \<le> y \<and> \<not> y \<le> x" "x \<le> x" "x \<le> y \<or> y \<le> x"
    unfolding less_eq_PmSpenderRequirement_def less_PmSpenderRequirement_def by (auto intro: less_le_not_le)
  show "x \<le> y \<Longrightarrow> y \<le> z \<Longrightarrow> x \<le> z"
    unfolding less_eq_PmSpenderRequirement_def by (rule order_trans)
  show "x \<le> y \<Longrightarrow> y \<le> x \<Longrightarrow> x = y"
    unfolding less_eq_PmSpenderRequirement_def by (rule requirement_rank_inject) (rule order_antisym)
qed

end

section \<open>Round trips\<close>

lemma byte_of_bound: "byte_of c < 256"
  by (simp add: byte_of_def)

lemma unat_byte_u8 [simp]: "unat (byte_u8 c) = byte_of c"
  unfolding byte_u8_def unat_of_nat using byte_of_bound [of c] by simp

lemma char_of_byte_of [simp]: "char_of (byte_of c) = c"
  by (simp add: byte_of_def)

lemma BoundedAscii_as_str_new:
  assumes "BoundedAscii_new n value = Ok a"
  shows "BoundedAscii_as_str a = value"
proof -
  have a: "length value \<le> 255"
    "a = BoundedAscii (word_of_nat (length value)) (map byte_u8 value @ replicate (n - length value) 0)"
    using assms by (auto simp: BoundedAscii_new_def split: if_splits)
  have "unat (word_of_nat (length value) :: u8) = length value"
    unfolding unat_of_nat using a(1) by simp
  then show ?thesis
    by (simp add: BoundedAscii_as_str_def a(2) comp_def)
qed

lemma hex_digit_value:
  "d < 16 \<Longrightarrow> hex_value (hex_digit d) = Ok (word_of_nat d)"
  "d < 16 \<Longrightarrow> is_ascii_hexdigit (hex_digit d) \<and> \<not> is_ascii_uppercase (hex_digit d)"
proof -
  assume "d < 16"
  then have b: "byte_of (hex_digit d) = (if d < 10 then 48 + d else 87 + d)"
    by (simp add: hex_digit_def byte_of_def)
  show "hex_value (hex_digit d) = Ok (word_of_nat d)"
    using \<open>d < 16\<close> by (auto simp: hex_value_def byte_u8_def b)
  show "is_ascii_hexdigit (hex_digit d) \<and> \<not> is_ascii_uppercase (hex_digit d)"
    using \<open>d < 16\<close> by (auto simp: is_ascii_hexdigit_def is_ascii_digit_def is_ascii_uppercase_def b)
qed

lemma unat_nibbles:
  assumes "unat h < 16" "unat l < 16"
  shows "unat (push_bit 4 h OR l :: u8) = 16 * unat h + unat l"
proof -
  have l: "take_bit 4 l = l"
    using assms(2) by (simp add: word_unat_eq_iff unsigned_take_bit_eq take_bit_nat_eq_self)
  have "push_bit 4 h AND take_bit 4 l = 0"
    by (rule bit_word_eqI) (auto simp: bit_simps)
  then have "push_bit 4 h AND l = 0"
    unfolding l .
  then have "push_bit 4 h OR l = push_bit 4 h + l"
    by (rule disjunctive_add_eq_or [symmetric])
  then show ?thesis
    using assms by (simp add: push_bit_eq_mult unat_word_ariths)
qed

lemma hex_byte_value: "push_bit 4 (word_of_nat (unat b div 16)) OR word_of_nat (unat b mod 16) = (b :: u8)"
proof -
  have "unat (word_of_nat (unat b div 16) :: u8) = unat b div 16" "unat (word_of_nat (unat b mod 16) :: u8) = unat b mod 16"
    unfolding unat_of_nat using unat_u8_bound [of b] by simp_all
  then show ?thesis
    using unat_u8_bound [of b] unat_nibbles [of "word_of_nat (unat b div 16)" "word_of_nat (unat b mod 16)"]
    by (simp add: word_unat_eq_iff less_mult_imp_div_less)
qed

lemma hex_pairs_write: "hex_pairs (concat (map hex_byte bs)) = Ok bs"
proof (induction bs)
  case (Cons b bs)
  then show ?case
    using unat_u8_bound [of b]
    by (simp add: hex_byte_def hex_digit_value less_mult_imp_div_less hex_byte_value)
qed simp

lemma write_hex_facts:
  "length (concat (map hex_byte bs)) = length bs * 2"
  "list_all (\<lambda>c. is_ascii_hexdigit c \<and> \<not> is_ascii_uppercase c) (concat (map hex_byte bs))"
proof -
  show "length (concat (map hex_byte bs)) = length bs * 2"
    by (induction bs) (simp_all add: hex_byte_def)
  show "list_all (\<lambda>c. is_ascii_hexdigit c \<and> \<not> is_ascii_uppercase c) (concat (map hex_byte bs))"
  proof (induction bs)
    case (Cons b bs)
    then show ?case
      using unat_u8_bound [of b] by (simp add: hex_byte_def hex_digit_value less_mult_imp_div_less)
  qed simp
qed

lemma lower_hex_value:
  assumes "is_ascii_hexdigit c" "\<not> is_ascii_uppercase c"
  obtains v where "hex_value c = Ok v" "unat v < 16" "hex_digit (unat v) = c"
proof (cases "byte_of c \<le> 57")
  case True
  then have c: "48 \<le> byte_of c" "byte_of c - 48 < 10"
    using assms by (auto simp: is_ascii_hexdigit_def is_ascii_digit_def is_ascii_uppercase_def)
  have "unat (byte_u8 c - 48) = byte_of c - 48"
    using c(1) by (subst unat_sub) (simp_all add: word_le_nat_alt)
  then show thesis
    using c True by (intro that [of "byte_u8 c - 48"]) (simp_all add: hex_value_def hex_digit_def)
next
  case False
  then have c: "97 \<le> byte_of c" "byte_of c \<le> 102"
    using assms by (auto simp: is_ascii_hexdigit_def is_ascii_digit_def is_ascii_uppercase_def)
  have "unat (byte_u8 c - 87) = byte_of c - 87"
    using c(1) by (subst unat_sub) (simp_all add: word_le_nat_alt)
  moreover have "\<not> byte_of c - 87 < 10" "byte_of c - 87 < 16"
    using c by linarith+
  ultimately show thesis
    using c by (intro that [of "byte_u8 c - 87"]) (simp_all add: hex_value_def hex_digit_def)
qed

lemma hex_pairs_lower:
  "list_all (\<lambda>c. is_ascii_hexdigit c \<and> \<not> is_ascii_uppercase c) s \<Longrightarrow> even (length s) \<Longrightarrow>
   \<exists>bs. hex_pairs s = Ok bs \<and> concat (map hex_byte bs) = s"
proof (induction s rule: hex_pairs.induct)
  case (1 h l rest)
  obtain a where a: "hex_value h = Ok a" "unat a < 16" "hex_digit (unat a) = h"
    using 1(2) lower_hex_value [of h] by auto
  obtain b where b: "hex_value l = Ok b" "unat b < 16" "hex_digit (unat b) = l"
    using 1(2) lower_hex_value [of l] by auto
  obtain bs where bs: "hex_pairs rest = Ok bs" "concat (map hex_byte bs) = rest"
    using 1 by auto
  have "hex_byte (push_bit 4 a OR b) = [h, l]"
    using unat_nibbles [OF a(2) b(2)] a b by (simp add: hex_byte_def)
  then show ?case
    using a b bs by simp
qed simp_all

section \<open>Properties\<close>

text \<open>
  C37: a nonzero byte string of the right size prints and parses back to itself in both
  hexadecimal forms, and the unprefixed form is canonical: a client order id that parses was
  written exactly as printing would write it.
\<close>

theorem hex_identity_roundtrip:
  assumes "length bytes = n" "\<exists>byte \<in> set bytes. byte \<noteq> 0"
  shows "HexBytes_parse_prefixed n (HexBytes_write_hex bytes True) = Ok bytes
    \<and> HexBytes_parse_unprefixed_lower n (HexBytes_write_hex bytes False) = Ok bytes
    \<and> (HexBytes_parse_unprefixed_lower n input = Ok parsed \<longrightarrow> HexBytes_write_hex parsed False = input)"
proof (intro conjI impI)
  have z: "HexBytes_from_bytes bytes = Ok bytes"
    using assms(2) by (auto simp: HexBytes_from_bytes_def list_all_iff)
  show "HexBytes_parse_prefixed n (HexBytes_write_hex bytes True) = Ok bytes"
    using assms(1) z by (simp add: HexBytes_parse_prefixed_def HexBytes_write_hex_def write_hex_facts(1) hex_pairs_write)
  show "HexBytes_parse_unprefixed_lower n (HexBytes_write_hex bytes False) = Ok bytes"
    using assms(1) z write_hex_facts [of bytes]
    by (auto simp: HexBytes_parse_unprefixed_lower_def HexBytes_write_hex_def hex_pairs_write list_all_iff list_ex_iff)
  assume p: "HexBytes_parse_unprefixed_lower n input = Ok parsed"
  then have "list_all (\<lambda>c. is_ascii_hexdigit c \<and> \<not> is_ascii_uppercase c) input" "even (length input)"
    by (auto simp: HexBytes_parse_unprefixed_lower_def list_all_iff list_ex_iff split: if_splits)
  from hex_pairs_lower [OF this] show "HexBytes_write_hex parsed False = input"
    using p by (auto simp: HexBytes_parse_unprefixed_lower_def HexBytes_from_bytes_def HexBytes_write_hex_def split: if_splits)
qed

theorem hex_identity_roundtrip_witness:
  "HexBytes_parse_prefixed 2 (HexBytes_write_hex [0, 171] True) = Ok [0, 171]
   \<and> HexBytes_parse_unprefixed_lower 2 (HexBytes_write_hex [0, 171] False) = Ok [0, 171]"
  using hex_identity_roundtrip [of "[0, 171]" 2] by simp

text \<open>
  A bounded ASCII identity keeps its text exactly.  Two texts give the same identity only
  when they are the same text, so the fixed-size zero-padded buffer introduces no collision.
\<close>

lemma BoundedAscii_faithful:
  assumes "BoundedAscii_new n value = Ok a" "BoundedAscii_new n other = Ok b"
  shows "BoundedAscii_as_str a = value \<and> length (ascii_bytes a) = n \<and> (a = b \<longleftrightarrow> value = other)"
proof -
  have "length (ascii_bytes a) = n"
    using assms(1) by (auto simp: BoundedAscii_new_def split: if_splits)
  moreover have "a = b \<longleftrightarrow> value = other"
    using assms BoundedAscii_as_str_new by (metis result.inject(1))
  ultimately show ?thesis
    using BoundedAscii_as_str_new [OF assms(1)] by simp
qed

end
