(* ===== verification/Pm_Numeric.thy ===== *)
theory Pm_Numeric
  imports Pm_Decimal
begin

text \<open>
  The typed quantities of \<open>crates/reap-pm-core/src/numeric.rs\<close>: prices and ticks in
  protocol millionths, share quantities, book quantities, order salts, signed units and
  the exact maker and taker amounts of a limit order.

  Fields are private in the source, so a value of one of these types has passed its
  constructor; \<open>price_ok\<close>, \<open>tick_ok\<close> and \<open>quantity_ok\<close> say what the constructors check.
\<close>

section \<open>Types and constructors\<close>

definition PM_ORDER_SALT_MAX :: u64 where
  "PM_ORDER_SALT_MAX = 9007199254740991"

datatype PmPrice = PmPrice (price_units: u32)

datatype PmTick = PmTick (tick_units: u32)

datatype PmQuantity = PmQuantity (protocol_units: U256)

datatype PmBookQuantity = Delete | Quantity PmQuantity

datatype PmOrderSide = Buy | Sell

datatype PmOrderSalt = PmOrderSalt (salt_value: u64)

datatype PmSign = Positive | Negative

record PmSignedUnits =
  sign :: PmSign
  magnitude :: U256

record PmOrderAmounts =
  maker :: U256
  taker :: U256

definition PmPrice_from_units :: "u32 \<Rightarrow> (PmPrice, PmNumericError) result" where
  "PmPrice_from_units units =
     (if units = 0 then Err PmNumericError.Zero
      else if PM_PROTOCOL_SCALE \<le> units then Err PriceAtOrAboveOne
      else Ok (PmPrice units))"

fun low_u32 :: "U256 \<Rightarrow> u32" where
  "low_u32 (U256 l0 l1 l2 l3) = ucast l0"

definition PmPrice_parse_decimal :: "string \<Rightarrow> (PmPrice, PmNumericError) result" where
  "PmPrice_parse_decimal input =
     bind_result (parse_scaled_decimal input) (\<lambda>units.
       if U256_is_zero units then Err PmNumericError.Zero
       else if U256_from_u64 (ucast PM_PROTOCOL_SCALE) \<le> units then Err PriceAtOrAboveOne
       else PmPrice_from_units (low_u32 units))"

definition PmPrice_validate_tick :: "PmPrice \<Rightarrow> PmTick \<Rightarrow> (PmPrice, PmNumericError) result" where
  "PmPrice_validate_tick price tick =
     (if price_units price mod tick_units tick \<noteq> 0 then Err PriceOffTick else Ok price)"

definition PmPrice_fmt :: "PmPrice \<Rightarrow> (string, fmt_fault) result" where
  "PmPrice_fmt price = format_scaled_units (U256_from_u64 (ucast (price_units price)))"

definition PmTick_from_units :: "u32 \<Rightarrow> (PmTick, PmNumericError) result" where
  "PmTick_from_units units =
     (if units \<in> {100000, 10000, 5000, 2500, 1000, 100} then Ok (PmTick units)
      else Err UnsupportedTick)"

definition PmTick_parse_decimal :: "string \<Rightarrow> (PmTick, PmNumericError) result" where
  "PmTick_parse_decimal input =
     bind_result (PmPrice_parse_decimal input) (\<lambda>price. PmTick_from_units (price_units price))"

definition PmTick_fmt :: "PmTick \<Rightarrow> (string, fmt_fault) result" where
  "PmTick_fmt tick = format_scaled_units (U256_from_u64 (ucast (tick_units tick)))"

definition PmQuantity_from_protocol_units :: "U256 \<Rightarrow> (PmQuantity, PmNumericError) result" where
  "PmQuantity_from_protocol_units units =
     (if U256_is_zero units then Err PmNumericError.Zero else Ok (PmQuantity units))"

definition PmQuantity_parse_decimal :: "string \<Rightarrow> (PmQuantity, PmNumericError) result" where
  "PmQuantity_parse_decimal input =
     bind_result (parse_scaled_decimal input) PmQuantity_from_protocol_units"

definition PmQuantity_validate_order ::
    "PmQuantity \<Rightarrow> PmQuantity \<Rightarrow> (PmQuantity, PmNumericError) result" where
  "PmQuantity_validate_order quantity minimum =
     bind_result (U256_checked_div_rem_u32 (protocol_units quantity) CLOB_V2_LOT_UNITS)
       (\<lambda>(whole_lots, lot_remainder).
         if lot_remainder \<noteq> 0 then Err QuantityOffLot
         else if protocol_units quantity < protocol_units minimum then Err QuantityBelowMinimum
         else Ok quantity)"

definition PmQuantity_fmt :: "PmQuantity \<Rightarrow> (string, fmt_fault) result" where
  "PmQuantity_fmt quantity = format_scaled_units (protocol_units quantity)"

definition PmBookQuantity_from_protocol_units :: "U256 \<Rightarrow> PmBookQuantity" where
  "PmBookQuantity_from_protocol_units units =
     (if U256_is_zero units then Delete else Quantity (PmQuantity units))"

definition PmBookQuantity_parse_decimal :: "string \<Rightarrow> (PmBookQuantity, PmNumericError) result" where
  "PmBookQuantity_parse_decimal input =
     bind_result (parse_scaled_decimal input) (\<lambda>units.
       if U256_is_zero units then Ok Delete else Ok (Quantity (PmQuantity units)))"

definition PmOrderSalt_from_u64 :: "u64 \<Rightarrow> (PmOrderSalt, PmNumericError) result" where
  "PmOrderSalt_from_u64 value =
     (if PM_ORDER_SALT_MAX < value then Err SaltOutsideJsonSafeInteger else Ok (PmOrderSalt value))"

definition PmSignedUnits_ZERO :: PmSignedUnits where
  "PmSignedUnits_ZERO = \<lparr>sign = Positive, magnitude = U256_ZERO\<rparr>"

definition PmSignedUnits_from_parts :: "PmSign \<Rightarrow> U256 \<Rightarrow> (PmSignedUnits, PmNumericError) result" where
  "PmSignedUnits_from_parts s m =
     (if U256_is_zero m then
        (if s = PmSign.Negative then Err NonCanonicalSignedZero else Ok PmSignedUnits_ZERO)
      else Ok \<lparr>sign = s, magnitude = m\<rparr>)"

section \<open>Order amounts\<close>

definition exact_order_amounts ::
    "PmOrderSide \<Rightarrow> PmPrice \<Rightarrow> PmQuantity \<Rightarrow> (PmOrderAmounts, PmNumericError) result" where
  "exact_order_amounts side price quantity =
     bind_result (U256_checked_div_rem_u32 (protocol_units quantity) PM_PROTOCOL_SCALE)
       (\<lambda>(whole_shares, remaining_share_units).
     bind_result (U256_checked_mul_u32 whole_shares (price_units price)) (\<lambda>whole_collateral.
       let fractional_product = (ucast remaining_share_units * ucast (price_units price) :: u64);
           fractional_collateral = fractional_product div ucast PM_PROTOCOL_SCALE;
           fractional_remainder = fractional_product mod ucast PM_PROTOCOL_SCALE
       in if fractional_remainder \<noteq> 0 then Err NonIntegralOrderAmount
          else bind_result (U256_checked_add whole_collateral (U256_from_u64 fractional_collateral))
            (\<lambda>collateral.
              if U256_is_zero collateral then Err NonIntegralOrderAmount
              else let shares = protocol_units quantity
                   in Ok (case side of
                        Buy \<Rightarrow> \<lparr>maker = collateral, taker = shares\<rparr>
                      | Sell \<Rightarrow> \<lparr>maker = shares, taker = collateral\<rparr>))))"

section \<open>Order on the newtypes\<close>

instantiation PmPrice :: linorder
begin

definition less_eq_PmPrice :: "PmPrice \<Rightarrow> PmPrice \<Rightarrow> bool" where
  "less_eq_PmPrice a b \<longleftrightarrow> price_units a \<le> price_units b"

definition less_PmPrice :: "PmPrice \<Rightarrow> PmPrice \<Rightarrow> bool" where
  "less_PmPrice a b \<longleftrightarrow> price_units a < price_units b"

instance
  by standard (auto simp: less_eq_PmPrice_def less_PmPrice_def intro: PmPrice.expand)

end

instantiation PmTick :: linorder
begin

definition less_eq_PmTick :: "PmTick \<Rightarrow> PmTick \<Rightarrow> bool" where
  "less_eq_PmTick a b \<longleftrightarrow> tick_units a \<le> tick_units b"

definition less_PmTick :: "PmTick \<Rightarrow> PmTick \<Rightarrow> bool" where
  "less_PmTick a b \<longleftrightarrow> tick_units a < tick_units b"

instance
  by standard (auto simp: less_eq_PmTick_def less_PmTick_def intro: PmTick.expand)

end

instantiation PmQuantity :: linorder
begin

definition less_eq_PmQuantity :: "PmQuantity \<Rightarrow> PmQuantity \<Rightarrow> bool" where
  "less_eq_PmQuantity a b \<longleftrightarrow> protocol_units a \<le> protocol_units b"

definition less_PmQuantity :: "PmQuantity \<Rightarrow> PmQuantity \<Rightarrow> bool" where
  "less_PmQuantity a b \<longleftrightarrow> protocol_units a < protocol_units b"

instance
  by standard (auto simp: less_eq_PmQuantity_def less_PmQuantity_def intro: PmQuantity.expand)

end

section \<open>What the constructors establish\<close>

definition price_ok :: "PmPrice \<Rightarrow> bool" where
  "price_ok price \<longleftrightarrow> 0 < unat (price_units price) \<and> unat (price_units price) < 1000000"

definition tick_ok :: "PmTick \<Rightarrow> bool" where
  "tick_ok tick \<longleftrightarrow> tick_units tick \<in> {100000, 10000, 5000, 2500, 1000, 100}"

definition quantity_ok :: "PmQuantity \<Rightarrow> bool" where
  "quantity_ok quantity \<longleftrightarrow> 0 < u256_nat (protocol_units quantity)"

primrec book_quantity_ok :: "PmBookQuantity \<Rightarrow> bool" where
  "book_quantity_ok Delete = True"
| "book_quantity_ok (Quantity quantity) = quantity_ok quantity"

lemma unat_ucast_u32_u64 [simp]: "unat (ucast (w :: u32) :: u64) = unat w"
  using unat_u32_bound [of w] by (simp add: unsigned_ucast_eq take_bit_nat_eq_self)

lemma PmPrice_from_units_Ok:
  "PmPrice_from_units u = Ok p \<longleftrightarrow> price_ok p \<and> p = PmPrice u"
  by (cases p)
    (auto simp: PmPrice_from_units_def price_ok_def PM_PROTOCOL_SCALE_def word_le_nat_alt unat_gt_0)

lemma low_u32_eq: "u256_nat x < 2 ^ 32 \<Longrightarrow> unat (low_u32 x) = u256_nat x"
  by (cases x) (simp add: unsigned_ucast_eq take_bit_nat_eq_self)

lemma PmPrice_parse_decimal_Ok:
  "PmPrice_parse_decimal s = Ok p \<longleftrightarrow>
     (\<exists>u. parse_scaled_decimal s = Ok u \<and> price_ok p \<and> u256_nat u = unat (price_units p))"
proof -
  have *: "(if U256_is_zero u then Err PmNumericError.Zero
        else if U256_from_u64 (ucast PM_PROTOCOL_SCALE) \<le> u then Err PriceAtOrAboveOne
        else PmPrice_from_units (low_u32 u)) = Ok p
      \<longleftrightarrow> price_ok p \<and> u256_nat u = unat (price_units p)" for u
    using low_u32_eq [of u]
    by (cases p) (auto simp: PmPrice_from_units_Ok price_ok_def u256_le_iff PM_PROTOCOL_SCALE_def word_unat_eq_iff)
  show ?thesis
    unfolding PmPrice_parse_decimal_def by (cases "parse_scaled_decimal s") (simp_all only: bind_result.simps *, auto)
qed

lemma PmTick_from_units_Ok: "PmTick_from_units u = Ok t \<longleftrightarrow> tick_ok t \<and> t = PmTick u"
  by (cases t) (auto simp: PmTick_from_units_def tick_ok_def)

lemma PmQuantity_from_protocol_units_Ok:
  "PmQuantity_from_protocol_units u = Ok q \<longleftrightarrow> quantity_ok q \<and> q = PmQuantity u"
  by (cases q) (auto simp: PmQuantity_from_protocol_units_def quantity_ok_def)

lemma book_quantity_from_units_ok: "book_quantity_ok (PmBookQuantity_from_protocol_units u)"
  by (simp add: PmBookQuantity_from_protocol_units_def quantity_ok_def)

lemma u32_of_mod_eq_0:
  assumes "0 < d" "d < 2 ^ 32"
  shows "(word_of_nat (n mod d) :: u32) = 0 \<longleftrightarrow> d dvd n"
proof -
  have "n mod d < 2 ^ 32"
    using assms by (meson less_trans mod_less_divisor)
  then show ?thesis
    by (simp add: word_unat_eq_iff unat_of_nat dvd_eq_mod_eq_0)
qed

lemma PmQuantity_validate_order_Ok:
  "PmQuantity_validate_order q minimum = Ok r \<longleftrightarrow>
     r = q \<and> minimum \<le> q \<and> 10000 dvd u256_nat (protocol_units q)"
  by (auto simp: PmQuantity_validate_order_def CLOB_V2_LOT_UNITS_def U256_checked_div_rem_u32_eq
      u32_of_mod_eq_0 less_eq_PmQuantity_def not_less)

lemma exact_order_amounts_eq:
  assumes "price_ok p"
  shows "exact_order_amounts side p q =
    (let product = unat (price_units p) * u256_nat (protocol_units q);
         collateral = u256_of_nat (product div 1000000)
     in if 1000000 dvd product \<and> product \<noteq> 0
        then Ok (case side of
            Buy \<Rightarrow> \<lparr>maker = collateral, taker = protocol_units q\<rparr>
          | Sell \<Rightarrow> \<lparr>maker = protocol_units q, taker = collateral\<rparr>)
        else Err NonIntegralOrderAmount)"
proof -
  define P Q where "P = unat (price_units p)" and "Q = u256_nat (protocol_units q)"
  have P: "0 < P" "P < 1000000"
    using assms by (simp_all add: price_ok_def P_def)
  define w r where "w = Q div 1000000" and "r = Q mod 1000000"
  have Q: "Q = 1000000 * w + r" and r: "r < 1000000"
    by (simp_all add: w_def r_def)
  have r32: "unat (word_of_nat r :: u32) = r"
    unfolding unat_of_nat using r by simp
  have rP: "r * P < 1000000 * 1000000"
    using r P by (intro mult_strict_mono) simp_all
  then have fp: "unat (ucast (word_of_nat r :: u32) * ucast (price_units p) :: u64) = r * P"
    by (simp add: unat_word_ariths r32 P_def)
  have wP: "w * P \<le> Q"
    using P Q by (metis less_imp_le_nat mult.commute mult_le_mono2 trans_le_add1)
  have e: "P * Q = r * P + 1000000 * (w * P)"
    unfolding Q by (simp add: algebra_simps)
  have pq: "P * Q div 1000000 = w * P + r * P div 1000000" "P * Q mod 1000000 = r * P mod 1000000"
    unfolding e by simp_all
  have Qb: "Q < 2 ^ 256"
    unfolding Q_def by (rule u256_nat_bound)
  have "P * Q div 1000000 \<le> Q"
    using div_le_mono [of "P * Q" "1000000 * Q" 1000000] P by simp
  then have fits: "w * P < 2 ^ 256" "w * P + r * P div 1000000 < 2 ^ 256"
    using Qb wP by (simp_all only: pq(1) [symmetric] le_less_trans)
  let ?f = "ucast (word_of_nat r :: u32) * ucast (price_units p) :: u64"
  have f: "?f mod 1000000 = 0 \<longleftrightarrow> 1000000 dvd P * Q" "unat (?f div 1000000) = r * P div 1000000"
    by (simp_all add: word_unat_eq_iff unat_mod_distrib unat_div_distrib fp pq(2) dvd_eq_mod_eq_0)
  have z: "P * Q div 1000000 = 0 \<longleftrightarrow> P * Q = 0" if "1000000 dvd P * Q"
    using that by auto
  have "U256_checked_div_rem_u32 (protocol_units q) PM_PROTOCOL_SCALE = Ok (u256_of_nat w, word_of_nat r)"
    by (simp add: U256_checked_div_rem_u32_eq PM_PROTOCOL_SCALE_def w_def r_def Q_def)
  moreover have "U256_checked_mul_u32 (u256_of_nat w) (price_units p) = Ok (u256_of_nat (w * P))"
    using fits(1) by (simp add: U256_checked_mul_u32_eq w_def Q_def P_def)
  moreover have "U256_checked_add (u256_of_nat (w * P)) (U256_from_u64 (?f div 1000000))
      = Ok (u256_of_nat (P * Q div 1000000))"
    using fits by (simp add: U256_checked_add_eq u256_nat_of_nat f pq)
  moreover have "u256_nat (u256_of_nat (P * Q div 1000000)) = P * Q div 1000000"
    using fits(2) by (simp add: pq u256_nat_of_nat)
  ultimately show ?thesis
    using z by (simp add: exact_order_amounts_def PM_PROTOCOL_SCALE_def f(1) Let_def
        P_def [symmetric] Q_def [symmetric])
qed

section \<open>Properties\<close>

text \<open>
  C30: every price in range prints, and the printed decimal parses back to the same price;
  a price that parses is always strictly between zero and one.
\<close>

theorem PmPrice_text_roundtrip:
  assumes "price_ok price"
  shows "(\<exists>printed. PmPrice_fmt price = Ok printed \<and> PmPrice_parse_decimal printed = Ok price)
    \<and> (PmPrice_parse_decimal input = Ok parsed \<longrightarrow> price_ok parsed)"
proof -
  let ?u = "U256_from_u64 (ucast (price_units price))"
  obtain i f where t: "format_scaled_units ?u = Ok (scaled_text i f)" "i \<noteq> []"
    "list_all is_ascii_digit i" "list_all is_ascii_digit f" "length (scaled_text i f) \<le> 85"
    "u256_nat ?u * 10 ^ length f = 10 ^ 6 * dec_value (i @ f)"
    by (rule format_scaled_units_text)
  then have "parse_scaled_decimal (scaled_text i f) = Ok ?u"
    using parse_scaled_text_iff by simp
  then show ?thesis
    using t(1) assms by (auto simp: PmPrice_fmt_def PmPrice_parse_decimal_Ok)
qed

theorem PmPrice_text_roundtrip_witness:
  "price_ok (PmPrice 530000)
   \<and> (\<exists>printed. PmPrice_fmt (PmPrice 530000) = Ok printed \<and> PmPrice_parse_decimal printed = Ok (PmPrice 530000))"
  using PmPrice_text_roundtrip [of "PmPrice 530000"] by (simp add: price_ok_def)

text \<open>
  C25: the amounts of an order are exact.  They exist precisely when price times quantity is a
  whole number of collateral units, no intermediate step overflows, and then the collateral
  times one million is price times quantity, on the maker side for a buy and on the taker side
  for a sell; the other side is the share quantity.  The only error is a non-integral amount.
\<close>

theorem exact_order_amounts_exact:
  assumes "price_ok price" "quantity_ok quantity"
  shows "(exact_order_amounts side price quantity = Ok amounts \<longleftrightarrow>
      (let collateral = (case side of Buy \<Rightarrow> maker amounts | Sell \<Rightarrow> taker amounts);
           shares = (case side of Buy \<Rightarrow> taker amounts | Sell \<Rightarrow> maker amounts)
       in shares = protocol_units quantity
          \<and> u256_nat collateral * 1000000 = unat (price_units price) * u256_nat (protocol_units quantity)))
    \<and> (exact_order_amounts side price quantity = Err error \<longrightarrow> error = NonIntegralOrderAmount)"
proof -
  define N where "N = unat (price_units price) * u256_nat (protocol_units quantity)"
  have N: "N \<noteq> 0"
    using assms by (simp add: N_def price_ok_def quantity_ok_def)
  have "N div 1000000 \<le> u256_nat (protocol_units quantity)"
    using assms(1) div_le_mono [of N "1000000 * u256_nat (protocol_units quantity)" 1000000]
    by (simp add: N_def price_ok_def)
  then have "N div 1000000 < 2 ^ 256"
    using u256_nat_bound le_less_trans by blast
  then have c: "u256_of_nat (N div 1000000) = c \<longleftrightarrow> u256_nat c * 1000000 = N" if "1000000 dvd N" for c
    using that u256_of_nat_nat [of c] by (auto simp: u256_nat_of_nat)
  have no: "u256_nat c * 1000000 \<noteq> N" if "\<not> 1000000 dvd N" for c
    using that by (metis dvd_triv_right)
  have "exact_order_amounts side price quantity =
      (if 1000000 dvd N
       then Ok (case side of
           Buy \<Rightarrow> \<lparr>maker = u256_of_nat (N div 1000000), taker = protocol_units quantity\<rparr>
         | Sell \<Rightarrow> \<lparr>maker = protocol_units quantity, taker = u256_of_nat (N div 1000000)\<rparr>)
       else Err NonIntegralOrderAmount)"
    using N unfolding N_def exact_order_amounts_eq [OF assms(1)] Let_def by simp
  then show ?thesis
    unfolding N_def [symmetric]
    by (cases "1000000 dvd N"; cases side; cases amounts) (auto simp: c no Let_def)
qed

theorem exact_order_amounts_exact_witness:
  "exact_order_amounts Buy (PmPrice 530000) (PmQuantity (U256 100000000 0 0 0))
     = Ok \<lparr>maker = U256 53000000 0 0 0, taker = U256 100000000 0 0 0\<rparr>"
  using exact_order_amounts_exact [of "PmPrice 530000" "PmQuantity (U256 100000000 0 0 0)" Buy
      "\<lparr>maker = U256 53000000 0 0 0, taker = U256 100000000 0 0 0\<rparr>"]
  by (simp add: price_ok_def quantity_ok_def)

end
