(* ===== verification/Pm_Metadata.thy ===== *)
theory Pm_Metadata
  imports Pm_Identity Pm_Numeric
begin

text \<open>
  Market metadata of \<open>crates/reap-pm-core/src/metadata.rs\<close>: outcome labels, the lifecycle
  flags, the validated market row with its sorted spender requirements, and the exact
  CLOB V2 trading domain derived from it.
\<close>

section \<open>Definitions\<close>

definition MAX_REQUIRED_SPENDERS :: nat where
  "MAX_REQUIRED_SPENDERS = 8"

definition OUTCOME_LABEL_CAPACITY :: nat where
  "OUTCOME_LABEL_CAPACITY = 96"

definition GOAL_F_POLYGON_CHAIN_ID :: u64 where
  "GOAL_F_POLYGON_CHAIN_ID = 137"

definition GOAL_F_PUSD :: string where
  "GOAL_F_PUSD = ''0xC011a7E12a19f7B1f670d46F03B03f3342E82DFB''"

definition GOAL_F_CONDITIONAL_TOKENS :: string where
  "GOAL_F_CONDITIONAL_TOKENS = ''0x4D97DCd97eC945f40cF65F87097ACe5EA0476045''"

definition GOAL_F_STANDARD_EXCHANGE :: string where
  "GOAL_F_STANDARD_EXCHANGE = ''0xE111180000d2663C0091e4f400237545B87B996B''"

definition GOAL_F_NEGATIVE_RISK_EXCHANGE :: string where
  "GOAL_F_NEGATIVE_RISK_EXCHANGE = ''0xe2222d279d744050d28e00520010520000310F59''"

datatype PmMetadataError =
    EmptyOutcomeLabel
  | OutcomeLabelTooLong
  | InvalidOutcomeLabel
  | MinimumOffLot
  | InvalidSpenderCount
  | NonCanonicalSpenderArray
  | DuplicateSpender
  | SpenderDomainMismatch
  | SpenderChainMismatch
  | SpenderAddressMismatch
  | SpenderOutcomeTokenMismatch
  | UnsupportedGoalFChain
  | UnsupportedGoalFExchange
  | UnsupportedGoalFSpenderSet

record PmOutcomeLabel =
  label_length :: u8
  label_bytes :: "u8 list"

text \<open>\<open>str::trim_ascii\<close>\<close>

definition trim_ascii :: "string \<Rightarrow> string" where
  "trim_ascii value =
     rev (dropWhile is_ascii_whitespace (rev (dropWhile is_ascii_whitespace value)))"

definition PmOutcomeLabel_new :: "string \<Rightarrow> (PmOutcomeLabel, PmMetadataError) result" where
  "PmOutcomeLabel_new value =
     (if value = [] then Err EmptyOutcomeLabel
      else if OUTCOME_LABEL_CAPACITY < length value then Err OutcomeLabelTooLong
      else if \<not> list_all is_ascii value
           \<or> list_ex (\<lambda>byte. is_ascii_control byte \<or> byte_of byte = 127) value
           \<or> trim_ascii value \<noteq> value
        then Err InvalidOutcomeLabel
      else Ok \<lparr>label_length = word_of_nat (length value),
               label_bytes = map byte_u8 value @ replicate (OUTCOME_LABEL_CAPACITY - length value) 0\<rparr>)"

definition PmOutcomeLabel_as_str :: "PmOutcomeLabel \<Rightarrow> string" where
  "PmOutcomeLabel_as_str label =
     map (\<lambda>b. char_of (unat b)) (take (unat (label_length label)) (label_bytes label))"

record PmOutcomeMetadata =
  outcome_token :: PmTokenId
  outcome_label :: PmOutcomeLabel

record PmMarketLifecycle =
  active :: bool
  closed :: bool
  archived :: bool
  accepting_orders :: bool
  order_book_enabled :: bool

record PmMarketMetadata =
  md_condition :: PmConditionId
  md_market :: PmMarketId
  md_outcome :: PmOutcomeMetadata
  md_lifecycle :: PmMarketLifecycle
  md_tick :: PmTick
  md_minimum_order_size :: PmQuantity
  md_negative_risk :: bool
  md_chain :: PmChainId
  md_exchange :: EvmAddress
  md_required_spenders :: "PmSpenderRequirement option list"
  md_required_spender_count :: u8

definition spender_domain_of :: "bool \<Rightarrow> PmSpenderDomain" where
  "spender_domain_of negative_risk = (if negative_risk then NegativeRisk else Standard)"

text \<open>The checks of the loop over the spender prefix, for one requirement.\<close>

definition check_requirement ::
    "PmSpenderDomain \<Rightarrow> PmChainId \<Rightarrow> EvmAddress \<Rightarrow> PmTokenId \<Rightarrow> PmSpenderRequirement
      \<Rightarrow> PmMetadataError option" where
  "check_requirement expected_domain chain exchange token requirement =
     (if req_domain requirement \<noteq> expected_domain then Some SpenderDomainMismatch
      else if req_chain requirement \<noteq> chain then Some SpenderChainMismatch
      else if req_spender requirement \<noteq> exchange then Some SpenderAddressMismatch
      else case req_asset requirement of
             Outcome contract t \<Rightarrow> if t \<noteq> token then Some SpenderOutcomeTokenMismatch else None
           | Collateral contract \<Rightarrow> None)"

primrec check_requirements ::
    "PmSpenderDomain \<Rightarrow> PmChainId \<Rightarrow> EvmAddress \<Rightarrow> PmTokenId \<Rightarrow> PmSpenderRequirement option list
      \<Rightarrow> PmMetadataError option" where
  "check_requirements expected_domain chain exchange token [] = None"
| "check_requirements expected_domain chain exchange token (r # rs) =
     (case check_requirement expected_domain chain exchange token (the r) of
        Some error \<Rightarrow> Some error
      | None \<Rightarrow> check_requirements expected_domain chain exchange token rs)"

text \<open>
  \<open>PmMarketMetadata::new\<close>; the argument carries the fields as received, with the spender
  array still unsorted.
\<close>

definition PmMarketMetadata_new :: "PmMarketMetadata \<Rightarrow> (PmMarketMetadata, PmMetadataError) result" where
  "PmMarketMetadata_new raw =
     (case U256_checked_div_rem_u32 (protocol_units (md_minimum_order_size raw)) CLOB_V2_LOT_UNITS of
        Err _ \<Rightarrow> Err MinimumOffLot
      | Ok (lots, remainder) \<Rightarrow>
          if remainder \<noteq> 0 then Err MinimumOffLot
          else let count = unat (md_required_spender_count raw);
                   spenders = md_required_spenders raw
               in if count = 0 \<or> MAX_REQUIRED_SPENDERS < count then Err InvalidSpenderCount
                  else if list_ex (\<lambda>r. r = None) (take count spenders)
                       \<or> list_ex (\<lambda>r. r \<noteq> None) (drop count spenders)
                    then Err NonCanonicalSpenderArray
                  else let prefix = sort_unstable_by compare_of (take count spenders)
                       in if adjacent_any (=) prefix then Err DuplicateSpender
                          else case check_requirements (spender_domain_of (md_negative_risk raw))
                                      (md_chain raw) (md_exchange raw) (outcome_token (md_outcome raw)) prefix of
                                 Some error \<Rightarrow> Err error
                               | None \<Rightarrow> Ok (raw\<lparr>md_required_spenders := prefix @ drop count spenders\<rparr>))"

definition required_spenders :: "PmMarketMetadata \<Rightarrow> PmSpenderRequirement list" where
  "required_spenders metadata =
     List.map_filter id (take (unat (md_required_spender_count metadata)) (md_required_spenders metadata))"

record PmGoalFTradingDomain =
  gf_instrument :: PmInstrumentId
  gf_chain :: PmChainId
  gf_collateral :: PmAssetId
  gf_outcome :: PmAssetId
  gf_exchange :: EvmAddress
  gf_spender_domain :: PmSpenderDomain
  gf_required_spenders :: "PmSpenderRequirement list"

text \<open>\<open>goal_f_address\<close> panics on a malformed literal; \<open>None\<close> is that panic.\<close>

definition goal_f_address :: "string \<Rightarrow> EvmAddress option" where
  "goal_f_address input =
     (case EvmAddress_parse input of Ok address \<Rightarrow> Some address | Err _ \<Rightarrow> None)"

definition PmGoalFTradingDomain_from_metadata ::
    "PmMarketMetadata \<Rightarrow> (PmGoalFTradingDomain, PmMetadataError) result option" where
  "PmGoalFTradingDomain_from_metadata metadata =
     (if chain_value (md_chain metadata) \<noteq> GOAL_F_POLYGON_CHAIN_ID then Some (Err UnsupportedGoalFChain)
      else case goal_f_address (if md_negative_risk metadata then GOAL_F_NEGATIVE_RISK_EXCHANGE
                                else GOAL_F_STANDARD_EXCHANGE) of
        None \<Rightarrow> None
      | Some exchange \<Rightarrow>
          if md_exchange metadata \<noteq> exchange then Some (Err UnsupportedGoalFExchange)
          else (case (goal_f_address GOAL_F_PUSD, goal_f_address GOAL_F_CONDITIONAL_TOKENS) of
            (Some pusd, Some tokens) \<Rightarrow>
              (let domain = spender_domain_of (md_negative_risk metadata);
                   token = outcome_token (md_outcome metadata);
                   collateral = Collateral pusd;
                   outcome = Outcome tokens token;
                   required = [PmSpenderRequirement (md_chain metadata) exchange domain collateral,
                               PmSpenderRequirement (md_chain metadata) exchange domain outcome]
               in if unat (md_required_spender_count metadata) \<noteq> length required
                     \<or> list_ex (\<lambda>r. r \<notin> set (required_spenders metadata)) required
                  then Some (Err UnsupportedGoalFSpenderSet)
                  else Some (Ok \<lparr>gf_instrument = \<lparr>instrument_market = md_market metadata, instrument_token = token\<rparr>,
                       gf_chain = md_chain metadata, gf_collateral = collateral, gf_outcome = outcome,
                       gf_exchange = exchange, gf_spender_domain = domain, gf_required_spenders = required\<rparr>))
          | _ \<Rightarrow> None))"

section \<open>What construction establishes\<close>

definition requirement_ok :: "PmMarketMetadata \<Rightarrow> PmSpenderRequirement \<Rightarrow> bool" where
  "requirement_ok md r \<longleftrightarrow>
     req_domain r = spender_domain_of (md_negative_risk md) \<and> req_chain r = md_chain md
     \<and> req_spender r = md_exchange md
     \<and> (\<forall>contract token. req_asset r = Outcome contract token \<longrightarrow> token = outcome_token (md_outcome md))"

definition metadata_ok :: "PmMarketMetadata \<Rightarrow> bool" where
  "metadata_ok md \<longleftrightarrow>
     10000 dvd u256_nat (protocol_units (md_minimum_order_size md))
     \<and> length (required_spenders md) = unat (md_required_spender_count md)
     \<and> 0 < length (required_spenders md) \<and> length (required_spenders md) \<le> 8
     \<and> sorted_wrt (<) (required_spenders md)
     \<and> list_all (requirement_ok md) (required_spenders md)
     \<and> md_required_spenders md = map Some (required_spenders md) @ replicate (8 - length (required_spenders md)) None"

interpretation spender_order: keyed_order "compare_of :: PmSpenderRequirement option \<Rightarrow> _ \<Rightarrow> _" "\<lambda>r. r"
  by unfold_locales

lemma check_requirement_None:
  "check_requirement (spender_domain_of (md_negative_risk md)) (md_chain md) (md_exchange md)
     (outcome_token (md_outcome md)) r = None \<longleftrightarrow> requirement_ok md r"
  by (auto simp: check_requirement_def requirement_ok_def split: PmAssetId.splits)

lemma check_requirements_None:
  "check_requirements d c e t rs = None \<longleftrightarrow> (\<forall>r \<in> set rs. check_requirement d c e t (the r) = None)"
  by (induction rs) (auto split: option.splits)

lemma map_filter_Some: "List.map_filter id (map Some xs) = xs"
  by (simp add: map_filter_def comp_def)

lemma map_Some_the: "None \<notin> set xs \<Longrightarrow> map Some (map the xs) = xs"
  by (induction xs) auto

lemma strictly_sorted_spenders:
  assumes "\<not> adjacent_any (=) (sort_unstable_by compare_of (map Some xs))"
  obtains ys where "sort_unstable_by compare_of (map Some xs) = map Some ys"
    "sorted_wrt (<) (ys :: PmSpenderRequirement list)" "set ys = set xs" "length ys = length xs"
proof -
  let ?p = "sort_unstable_by compare_of (map Some xs)"
  have p: "?p = map Some (map the ?p)"
    by (rule map_Some_the [symmetric]) auto
  have "sorted_by_key compare_of (\<lambda>r. r) ?p"
    using spender_order.sort_no_duplicate_sorted [of "map Some xs"] assms by simp
  then have "sorted_wrt (\<lambda>a b. compare_of a b = Less) (map Some (map the ?p))"
    using p by (simp add: sorted_by_key_def)
  then have "sorted_wrt (<) (map the ?p)"
    by (simp add: sorted_wrt_map)
  moreover have "set (map the ?p) = set xs" "length (map the ?p) = length xs"
    by (auto simp: image_image)
  ultimately show thesis
    using that p by blast
qed

lemma PmMarketMetadata_new_Ok:
  assumes "PmMarketMetadata_new raw = Ok md" "length (md_required_spenders raw) = 8"
  shows "metadata_ok md" "set (required_spenders md) = set (required_spenders raw)"
    "md = raw\<lparr>md_required_spenders := md_required_spenders md\<rparr>"
proof -
  let ?n = "unat (md_required_spender_count raw)" and ?sp = "md_required_spenders raw"
  define p where "p = sort_unstable_by compare_of (take ?n ?sp)"
  have c: "10000 dvd u256_nat (protocol_units (md_minimum_order_size raw))" "?n \<noteq> 0" "?n \<le> 8"
    "None \<notin> set (take ?n ?sp)" "\<forall>r \<in> set (drop ?n ?sp). r = None" "\<not> adjacent_any (=) p"
    "check_requirements (spender_domain_of (md_negative_risk raw)) (md_chain raw) (md_exchange raw)
       (outcome_token (md_outcome raw)) p = None"
    and md: "md = raw\<lparr>md_required_spenders := p @ drop ?n ?sp\<rparr>"
    using assms(1)
    by (auto simp: PmMarketMetadata_new_def U256_checked_div_rem_u32_eq CLOB_V2_LOT_UNITS_def u32_of_mod_eq_0
        MAX_REQUIRED_SPENDERS_def Let_def p_def [symmetric] list_ex_iff split: if_splits option.splits)
  have take: "take ?n ?sp = map Some (map the (take ?n ?sp))"
    by (rule map_Some_the [OF c(4), symmetric])
  obtain ys where ys: "p = map Some ys" "sorted_wrt (<) ys" "set ys = set (map the (take ?n ?sp))"
    "length ys = length (map the (take ?n ?sp))"
    using strictly_sorted_spenders [of "map the (take ?n ?sp)"] c(6) unfolding p_def take [symmetric] by metis
  have len: "length ys = ?n"
    using ys(4) c(3) assms(2) by simp
  have rs: "required_spenders md = ys"
    using len by (simp add: required_spenders_def md ys(1) map_filter_Some)
  have raw: "required_spenders raw = map the (take ?n ?sp)"
    unfolding required_spenders_def by (subst take) (rule map_filter_Some)
  show "set (required_spenders md) = set (required_spenders raw)"
    by (simp add: rs raw ys(3))
  show "md = raw\<lparr>md_required_spenders := md_required_spenders md\<rparr>"
    by (simp add: md)
  have "drop ?n ?sp = replicate (8 - ?n) None"
    using c(5) assms(2) by (metis length_drop replicate_length_same)
  moreover have "list_all (requirement_ok md) ys"
    using c(7) check_requirement_None [of md] by (simp add: check_requirements_None ys(1) list_all_iff md)
  ultimately show "metadata_ok md"
    using c(1-3) ys(1,2) len by (simp add: metadata_ok_def rs) (simp add: md)
qed

lemma goal_f_addresses:
  "goal_f_address GOAL_F_PUSD = Some [192, 17, 167, 225, 42, 25, 247, 177, 246, 112, 212, 111, 3, 176, 63, 51, 66, 232, 45, 251]"
  "goal_f_address GOAL_F_CONDITIONAL_TOKENS = Some [77, 151, 220, 217, 126, 201, 69, 244, 12, 246, 95, 135, 9, 122, 206, 94, 160, 71, 96, 69]"
  "goal_f_address GOAL_F_STANDARD_EXCHANGE = Some [225, 17, 24, 0, 0, 210, 102, 60, 0, 145, 228, 244, 0, 35, 117, 69, 184, 123, 153, 107]"
  "goal_f_address GOAL_F_NEGATIVE_RISK_EXCHANGE = Some [226, 34, 45, 39, 157, 116, 64, 80, 210, 142, 0, 82, 0, 16, 82, 0, 0, 49, 15, 89]"
  by (simp_all add: goal_f_address_def GOAL_F_PUSD_def GOAL_F_CONDITIONAL_TOKENS_def GOAL_F_STANDARD_EXCHANGE_def
      GOAL_F_NEGATIVE_RISK_EXCHANGE_def EvmAddress_parse_def HexBytes_parse_prefixed_def hex_value_def byte_of_def
      byte_u8_def HexBytes_from_bytes_def)

lemma from_metadata_total: "\<exists>r. PmGoalFTradingDomain_from_metadata md = Some r"
  by (simp add: PmGoalFTradingDomain_from_metadata_def goal_f_addresses Let_def)

lemma from_metadata_Ok:
  assumes "PmGoalFTradingDomain_from_metadata md = Some (Ok d)"
  shows "unat (md_required_spender_count md) = 2" "gf_exchange d = md_exchange md"
    "chain_value (md_chain md) = 137" "gf_chain d = md_chain md"
    "set (gf_required_spenders d) \<subseteq> set (required_spenders md)"
    "gf_required_spenders d =
       [PmSpenderRequirement (gf_chain d) (gf_exchange d) (gf_spender_domain d) (gf_collateral d),
        PmSpenderRequirement (gf_chain d) (gf_exchange d) (gf_spender_domain d) (gf_outcome d)]"
    "gf_collateral d \<noteq> gf_outcome d"
    "gf_instrument d = \<lparr>instrument_market = md_market md, instrument_token = outcome_token (md_outcome md)\<rparr>"
  using assms
  by (auto simp: PmGoalFTradingDomain_from_metadata_def goal_f_addresses Let_def GOAL_F_POLYGON_CHAIN_ID_def
      split: if_splits)

section \<open>Properties\<close>

definition sample_metadata :: PmMarketMetadata where
  "sample_metadata =
     (let exchange = [225, 17, 24, 0, 0, 210, 102, 60, 0, 145, 228, 244, 0, 35, 117, 69, 184, 123, 153, 107];
          token = PmTokenId (U256 7 0 0 0);
          pusd = [192, 17, 167, 225, 42, 25, 247, 177, 246, 112, 212, 111, 3, 176, 63, 51, 66, 232, 45, 251];
          tokens = [77, 151, 220, 217, 126, 201, 69, 244, 12, 246, 95, 135, 9, 122, 206, 94, 160, 71, 96, 69]
      in \<lparr>md_condition = 1 # replicate 31 0, md_market = 2 # replicate 31 0,
          md_outcome = \<lparr>outcome_token = token, outcome_label = \<lparr>label_length = 1, label_bytes = 89 # replicate 95 0\<rparr>\<rparr>,
          md_lifecycle = \<lparr>active = True, closed = False, archived = False, accepting_orders = True, order_book_enabled = True\<rparr>,
          md_tick = PmTick 10000, md_minimum_order_size = PmQuantity (U256 5000000 0 0 0),
          md_negative_risk = False, md_chain = PmChainId 137, md_exchange = exchange,
          md_required_spenders =
            [Some (PmSpenderRequirement (PmChainId 137) exchange Standard (Collateral pusd)),
             Some (PmSpenderRequirement (PmChainId 137) exchange Standard (Outcome tokens token)),
             None, None, None, None, None, None],
          md_required_spender_count = 2\<rparr>)"

text \<open>The same row with its requirements in the other order: construction sorts them.\<close>

definition sample_market_row :: PmMarketMetadata where
  "sample_market_row = sample_metadata\<lparr>md_required_spenders :=
     (let s = md_required_spenders sample_metadata in s ! 1 # s ! 0 # drop 2 s)\<rparr>"

lemma sample_metadata_new: "PmMarketMetadata_new sample_market_row = Ok sample_metadata"
  by (simp add: PmMarketMetadata_new_def sample_market_row_def sample_metadata_def U256_checked_div_rem_u32_eq CLOB_V2_LOT_UNITS_def
      MAX_REQUIRED_SPENDERS_def Let_def sort_unstable_by_def compare_of_def less_PmSpenderRequirement_def
      requirement_rank_def check_requirement_def spender_domain_of_def numeral_2_eq_2 [symmetric])

text \<open>
  C32: a market row that construction accepts is well formed.  Its minimum size is a whole number
  of lots; it has between one and eight spender requirements, strictly sorted and therefore
  distinct, packed at the front of the array; each names the market's own chain, exchange,
  domain and outcome token.  Sorting is the only change: the requirements are the ones given
  and every other field is kept.
\<close>

theorem PmMarketMetadata_new_sound:
  assumes "length (md_required_spenders raw) = 8" "PmMarketMetadata_new raw = Ok md"
  shows "metadata_ok md \<and> set (required_spenders md) = set (required_spenders raw)
    \<and> md = raw\<lparr>md_required_spenders := md_required_spenders md\<rparr>"
  using PmMarketMetadata_new_Ok [OF assms(2,1)] by blast

theorem PmMarketMetadata_new_sound_witness:
  "\<exists>md. PmMarketMetadata_new sample_market_row = Ok md \<and> metadata_ok md
     \<and> set (required_spenders md) = set (required_spenders sample_market_row)"
  using PmMarketMetadata_new_sound [OF _ sample_metadata_new] sample_metadata_new
  by (simp add: sample_market_row_def sample_metadata_def Let_def)

text \<open>
  C33: deriving the trading domain from a constructed market row never panics on its frozen
  addresses, and a domain that is derived has Polygon's chain, the market's exchange, and
  exactly the collateral and outcome requirements: the row's requirements are those two and
  no others.
\<close>

theorem PmGoalFTradingDomain_exact:
  assumes "metadata_ok md"
  shows "(\<exists>r. PmGoalFTradingDomain_from_metadata md = Some r)
    \<and> (PmGoalFTradingDomain_from_metadata md = Some (Ok d) \<longrightarrow>
        chain_value (gf_chain d) = 137 \<and> gf_exchange d = md_exchange md
        \<and> set (required_spenders md) = set (gf_required_spenders d)
        \<and> gf_required_spenders d =
            [PmSpenderRequirement (gf_chain d) (gf_exchange d) (gf_spender_domain d) (gf_collateral d),
             PmSpenderRequirement (gf_chain d) (gf_exchange d) (gf_spender_domain d) (gf_outcome d)])"
proof (intro conjI impI from_metadata_total)
  assume "PmGoalFTradingDomain_from_metadata md = Some (Ok d)"
  note d = from_metadata_Ok [OF this]
  show "chain_value (gf_chain d) = 137" "gf_exchange d = md_exchange md"
    by (simp_all add: d)
  show "gf_required_spenders d =
      [PmSpenderRequirement (gf_chain d) (gf_exchange d) (gf_spender_domain d) (gf_collateral d),
       PmSpenderRequirement (gf_chain d) (gf_exchange d) (gf_spender_domain d) (gf_outcome d)]"
    by (rule d(6))
  have "card (set (gf_required_spenders d)) = 2"
    using d(7) by (subst d(6)) simp
  moreover have "card (set (required_spenders md)) \<le> 2"
    using card_length [of "required_spenders md"] assms d(1) by (simp add: metadata_ok_def)
  ultimately show "set (required_spenders md) = set (gf_required_spenders d)"
    using d(5) card_seteq [of "set (required_spenders md)" "set (gf_required_spenders d)"] by simp
qed

theorem PmGoalFTradingDomain_exact_witness:
  "\<exists>md. PmMarketMetadata_new sample_market_row = Ok md
     \<and> (\<exists>d. PmGoalFTradingDomain_from_metadata md = Some (Ok d) \<and> chain_value (gf_chain d) = 137
          \<and> set (required_spenders md) = set (gf_required_spenders d))"
proof -
  note md = sample_metadata_new
  have ok: "metadata_ok sample_metadata"
    by (rule PmMarketMetadata_new_Ok(1) [OF md]) (simp add: sample_market_row_def sample_metadata_def Let_def)
  obtain d where "PmGoalFTradingDomain_from_metadata sample_metadata = Some (Ok d)"
    by (simp add: sample_metadata_def PmGoalFTradingDomain_from_metadata_def goal_f_addresses Let_def
        GOAL_F_POLYGON_CHAIN_ID_def required_spenders_def spender_domain_of_def map_filter_def)
  then show ?thesis
    using PmGoalFTradingDomain_exact [OF ok, of d] md by blast
qed

end
