(* ===== verification/Okx_Reference_Price.thy ===== *)
theory Okx_Reference_Price
  imports Pm_Decimal
begin

text \<open>
  The positive exact decimal reference price of \<open>crates/reap-pm-core/src/numeric.rs\<close>:
  \<open>coefficient * 10 ^ - decimal_scale\<close> with the trailing zeroes of the coefficient removed.
  The loops that read or write the eighteen-byte fraction buffer return \<open>None\<close> where the
  source would panic; the properties show they never do on a constructed price.
\<close>

section \<open>Definitions\<close>

definition MAX_OKX_REFERENCE_DECIMAL_SCALE :: u8 where
  "MAX_OKX_REFERENCE_DECIMAL_SCALE = 18"

definition MAX_OKX_REFERENCE_INPUT_BYTES :: nat where
  "MAX_OKX_REFERENCE_INPUT_BYTES = 128"

datatype OkxReferencePriceError =
    Empty
  | InputTooLong
  | InvalidFormat
  | ScaleTooLarge
  | Zero
  | Overflow

fun OkxReferencePriceError_from_numeric :: "PmNumericError \<Rightarrow> OkxReferencePriceError" where
  "OkxReferencePriceError_from_numeric PmNumericError.Overflow = OkxReferencePriceError.Overflow"
| "OkxReferencePriceError_from_numeric _ = OkxReferencePriceError.InvalidFormat"

record OkxReferencePrice =
  coefficient :: U256
  decimal_scale :: u8

text \<open>The canonicalising loop; the first argument is the scale still to be reduced.\<close>

primrec canonical_loop :: "nat \<Rightarrow> U256 \<Rightarrow> (U256 \<times> nat, OkxReferencePriceError) result" where
  "canonical_loop 0 c = Ok (c, 0)"
| "canonical_loop (Suc scale) c =
     (case U256_checked_div_rem_u32 c 10 of
        Err _ \<Rightarrow> Err OkxReferencePriceError.Overflow
      | Ok (quot, remainder) \<Rightarrow>
          if remainder \<noteq> 0 then Ok (c, Suc scale) else canonical_loop scale quot)"

definition OkxReferencePrice_new ::
    "U256 \<Rightarrow> u8 \<Rightarrow> (OkxReferencePrice, OkxReferencePriceError) result" where
  "OkxReferencePrice_new c scale =
     (if U256_is_zero c then Err OkxReferencePriceError.Zero
      else bind_result (canonical_loop (unat scale) c) (\<lambda>(c', scale').
        if unat MAX_OKX_REFERENCE_DECIMAL_SCALE < scale' then Err ScaleTooLarge
        else Ok \<lparr>coefficient = c', decimal_scale = word_of_nat scale'\<rparr>))"

text \<open>The scan for the decimal point, from byte \<open>index\<close> on.\<close>

fun find_dot :: "nat \<Rightarrow> nat option \<Rightarrow> string \<Rightarrow> (nat option, OkxReferencePriceError) result" where
  "find_dot index dot_index [] = Ok dot_index"
| "find_dot index dot_index (c # cs) =
     (if c = CHR ''.'' then
        (if dot_index \<noteq> None then Err OkxReferencePriceError.InvalidFormat
         else find_dot (Suc index) (Some index) cs)
      else if \<not> is_ascii_digit c then Err OkxReferencePriceError.InvalidFormat
      else find_dot (Suc index) dot_index cs)"

fun significant_end_loop :: "string \<Rightarrow> nat \<Rightarrow> nat \<Rightarrow> nat" where
  "significant_end_loop bytes fractional_start 0 = 0"
| "significant_end_loop bytes fractional_start (Suc e) =
     (if fractional_start < Suc e \<and> bytes ! e = CHR ''0''
      then significant_end_loop bytes fractional_start e else Suc e)"

fun read_coefficient ::
    "nat \<Rightarrow> nat option \<Rightarrow> U256 \<Rightarrow> string \<Rightarrow> (U256, OkxReferencePriceError) result" where
  "read_coefficient index dot_index c [] = Ok c"
| "read_coefficient index dot_index c (b # bs) =
     (if Some index = dot_index then read_coefficient (Suc index) dot_index c bs
      else bind_result
        (map_err OkxReferencePriceError_from_numeric
          (bind_result (U256_checked_mul_u32 c 10) (\<lambda>scaled.
             U256_checked_add scaled (U256_from_u64 (ucast (digit_value b))))))
        (\<lambda>next. read_coefficient (Suc index) dot_index next bs))"

definition OkxReferencePrice_parse_decimal ::
    "string \<Rightarrow> (OkxReferencePrice, OkxReferencePriceError) result" where
  "OkxReferencePrice_parse_decimal input =
     (if input = [] then Err OkxReferencePriceError.Empty
      else if MAX_OKX_REFERENCE_INPUT_BYTES < length input then Err OkxReferencePriceError.InputTooLong
      else bind_result (find_dot 0 None input) (\<lambda>dot_index.
        if is_some_and (\<lambda>index. index = 0 \<or> index + 1 = length input) dot_index
        then Err OkxReferencePriceError.InvalidFormat
        else let fractional_start = (case dot_index of None \<Rightarrow> length input | Some index \<Rightarrow> index + 1);
                 significant_end = significant_end_loop input fractional_start (length input);
                 scale = significant_end - fractional_start
             in if unat MAX_OKX_REFERENCE_DECIMAL_SCALE < scale then Err ScaleTooLarge
                else bind_result (read_coefficient 0 dot_index U256_ZERO (take significant_end input))
                  (\<lambda>c. OkxReferencePrice_new c (word_of_nat scale))))"

primrec split_loop :: "nat \<Rightarrow> U256 \<Rightarrow> string \<Rightarrow> (U256 \<times> string) option" where
  "split_loop 0 whole fractional = Some (whole, fractional)"
| "split_loop (Suc index) whole fractional =
     (case U256_checked_div_rem_u32 whole 10 of
        Err _ \<Rightarrow> None
      | Ok (quot, remainder) \<Rightarrow>
          if index < length fractional \<and> unat remainder < 256
          then split_loop index quot (fractional[index := digit_char (unat remainder)])
          else None)"

definition split_decimal :: "OkxReferencePrice \<Rightarrow> (U256 \<times> string) option" where
  "split_decimal price =
     split_loop (unat (decimal_scale price)) (coefficient price)
       (replicate (unat MAX_OKX_REFERENCE_DECIMAL_SCALE) (CHR ''0''))"

definition OkxReferencePrice_fmt :: "OkxReferencePrice \<Rightarrow> string option" where
  "OkxReferencePrice_fmt price =
     (case split_decimal price of
        None \<Rightarrow> None
      | Some (whole, fractional) \<Rightarrow>
          (case U256_fmt whole of
             Err _ \<Rightarrow> None
           | Ok printed \<Rightarrow>
               Some (if 0 < decimal_scale price
                 then printed @ CHR ''.'' # take (unat (decimal_scale price)) fractional
                 else printed)))"

text \<open>Lexicographic comparison of byte arrays.\<close>

fun bytes_cmp :: "string \<Rightarrow> string \<Rightarrow> ordering" where
  "bytes_cmp [] [] = Equal"
| "bytes_cmp [] (b # bs) = Less"
| "bytes_cmp (a # as) [] = Greater"
| "bytes_cmp (a # as) (b # bs) =
     (if compare_of (byte_of a) (byte_of b) \<noteq> Equal then compare_of (byte_of a) (byte_of b)
      else bytes_cmp as bs)"

definition OkxReferencePrice_cmp :: "OkxReferencePrice \<Rightarrow> OkxReferencePrice \<Rightarrow> ordering option" where
  "OkxReferencePrice_cmp a b =
     (case (split_decimal a, split_decimal b) of
        (Some (a_whole, a_fractional), Some (b_whole, b_fractional)) \<Rightarrow>
          Some (if U256_cmp a_whole b_whole \<noteq> Equal then U256_cmp a_whole b_whole
                else bytes_cmp a_fractional b_fractional)
      | _ \<Rightarrow> None)"

text \<open>What construction establishes.\<close>

definition reference_price_ok :: "OkxReferencePrice \<Rightarrow> bool" where
  "reference_price_ok price \<longleftrightarrow>
     u256_nat (coefficient price) \<noteq> 0 \<and> unat (decimal_scale price) \<le> 18
     \<and> (decimal_scale price = 0 \<or> u256_nat (coefficient price) mod 10 \<noteq> 0)"

section \<open>Canonical form\<close>

lemma unat_max_scale [simp]: "unat MAX_OKX_REFERENCE_DECIMAL_SCALE = 18"
  by (simp add: MAX_OKX_REFERENCE_DECIMAL_SCALE_def)

lemma u32_of_mod_10 [simp]: "unat (word_of_nat (n mod 10) :: u32) = n mod 10"
  by (simp add: unat_of_nat)

lemma u32_of_mod_10_eq_0 [simp]: "(word_of_nat (n mod 10) :: u32) = 0 \<longleftrightarrow> n mod 10 = 0"
  by (simp add: word_unat_eq_iff)

lemma canonical_loop_Ok:
  "\<exists>c' s'. canonical_loop s c = Ok (c', s') \<and> s' \<le> s \<and> u256_nat c = u256_nat c' * 10 ^ (s - s')
     \<and> (s' = 0 \<or> u256_nat c' mod 10 \<noteq> 0)"
proof (induction s arbitrary: c)
  case (Suc s)
  show ?case
  proof (cases "u256_nat c mod 10 = 0")
    case True
    obtain c' s' where c: "canonical_loop s (u256_of_nat (u256_nat c div 10)) = Ok (c', s')" "s' \<le> s"
      "u256_nat c div 10 = u256_nat c' * 10 ^ (s - s')" "s' = 0 \<or> u256_nat c' mod 10 \<noteq> 0"
      using Suc [of "u256_of_nat (u256_nat c div 10)"] unfolding u256_nat_of_div by blast
    have "u256_nat c = u256_nat c' * 10 ^ (Suc s - s')"
      using c(2,3) True by (auto simp: Suc_diff_le)
    then show ?thesis
      using c True by (auto simp: U256_checked_div_rem_u32_eq)
  next
    case False
    then show ?thesis
      by (auto simp: U256_checked_div_rem_u32_eq)
  qed
qed simp

lemma OkxReferencePrice_new_Ok:
  assumes "OkxReferencePrice_new c s = Ok p"
  shows "reference_price_ok p" "unat (decimal_scale p) \<le> unat s"
    "u256_nat c = u256_nat (coefficient p) * 10 ^ (unat s - unat (decimal_scale p))"
proof -
  obtain c' s' where l: "canonical_loop (unat s) c = Ok (c', s')" "s' \<le> unat s"
    "u256_nat c = u256_nat c' * 10 ^ (unat s - s')" "s' = 0 \<or> u256_nat c' mod 10 \<noteq> 0"
    using canonical_loop_Ok by blast
  have p: "u256_nat c \<noteq> 0" "s' \<le> 18" "p = \<lparr>coefficient = c', decimal_scale = word_of_nat s'\<rparr>"
    using assms by (auto simp: OkxReferencePrice_new_def l(1) split: if_splits)
  have s: "unat (word_of_nat s' :: u8) = s'"
    unfolding unat_of_nat using p(2) by simp
  show "reference_price_ok p" "unat (decimal_scale p) \<le> unat s"
    "u256_nat c = u256_nat (coefficient p) * 10 ^ (unat s - unat (decimal_scale p))"
    using l(2-4) p(1,2) s by (auto simp: p(3) reference_price_ok_def word_unat_eq_iff)
qed

section \<open>Splitting and comparing\<close>

lemma split_loop_Some:
  "s \<le> length fr \<Longrightarrow>
   \<exists>ds. split_loop s w fr = Some (u256_of_nat (u256_nat w div 10 ^ s), ds @ drop s fr)
     \<and> length ds = s \<and> list_all is_ascii_digit ds \<and> dec_value ds = u256_nat w mod 10 ^ s"
proof (induction s arbitrary: w fr)
  case 0
  then show ?case
    by (simp add: u256_of_nat_nat)
next
  case (Suc s)
  let ?n = "u256_nat w" and ?fr = "fr[s := digit_char (u256_nat w mod 10)]"
  obtain ds where d: "split_loop s (u256_of_nat (?n div 10)) ?fr
      = Some (u256_of_nat (?n div 10 div 10 ^ s), ds @ drop s ?fr)"
    "length ds = s" "list_all is_ascii_digit ds" "dec_value ds = ?n div 10 mod 10 ^ s"
    using Suc.IH [of ?fr "u256_of_nat (?n div 10)"] Suc.prems unfolding u256_nat_of_div by auto
  have "drop s ?fr = digit_char (?n mod 10) # drop (Suc s) fr"
    using Cons_nth_drop_Suc [of s ?fr, symmetric] Suc.prems by simp
  moreover have "unat (word_of_nat (?n mod 10) :: u32) < 256"
    by (simp add: less_trans [OF mod_less_divisor])
  ultimately have "split_loop (Suc s) w fr
      = Some (u256_of_nat (?n div 10 ^ Suc s), (ds @ [digit_char (?n mod 10)]) @ drop (Suc s) fr)"
    using d(1) Suc.prems by (simp add: U256_checked_div_rem_u32_eq div_mult2_eq)
  moreover have "dec_value (ds @ [digit_char (?n mod 10)]) = ?n mod 10 ^ Suc s"
    using d(4) mod_mult2_eq [of ?n 10 "10 ^ s"] by simp
  ultimately show ?case
    using d(2,3) by fastforce
qed

lemma split_decimal_Some:
  assumes "reference_price_ok p"
  obtains ds where "split_decimal p =
      Some (u256_of_nat (u256_nat (coefficient p) div 10 ^ unat (decimal_scale p)),
        ds @ replicate (18 - unat (decimal_scale p)) (CHR ''0''))"
    "length ds = unat (decimal_scale p)" "list_all is_ascii_digit ds"
    "dec_value ds = u256_nat (coefficient p) mod 10 ^ unat (decimal_scale p)"
  using split_loop_Some [of "unat (decimal_scale p)" "replicate 18 (CHR ''0'')" "coefficient p"] assms
  by (auto simp: split_decimal_def reference_price_ok_def)

lemma bytes_cmp_digits:
  "length xs = length ys \<Longrightarrow> list_all is_ascii_digit xs \<Longrightarrow> list_all is_ascii_digit ys \<Longrightarrow>
   bytes_cmp xs ys = compare_of (dec_value xs) (dec_value ys)"
proof (induction xs ys rule: list_induct2')
  case (4 x xs y ys)
  have v: "dec_value (c # cs) = dec_value cs + 10 ^ length cs * (byte_of c - 48)" for c cs
    using dec_from_split [of "byte_of c - 48" cs] by simp
  have d: "compare_of (byte_of x) (byte_of y) = compare_of (byte_of x - 48) (byte_of y - 48)"
    using 4 by (auto simp: is_ascii_digit_def compare_of_def)
  show ?case
    using 4 compare_of_limbs [of "dec_value xs" "10 ^ length xs" "dec_value ys" "byte_of x - 48" "byte_of y - 48"]
      dec_value_bound [of xs] dec_value_bound [of ys]
    unfolding v by (simp add: d)
qed (simp_all add: compare_of_def)

lemma compare_of_scale: "0 < (k :: nat) \<Longrightarrow> compare_of (k * x) (k * y) = compare_of x y"
  by (simp add: compare_of_def)

lemma pad_scale: "s \<le> 18 \<Longrightarrow> (10::nat) ^ s * 10 ^ (18 - s) = 10 ^ 18"
  by (simp flip: power_add)

lemma scaled_split:
  fixes c s :: nat
  assumes "s \<le> 18"
  shows "(c mod 10 ^ s) * 10 ^ (18 - s) + 10 ^ 18 * (c div 10 ^ s) = c * 10 ^ (18 - s)"
    and "(c mod 10 ^ s) * 10 ^ (18 - s) < 10 ^ 18"
proof -
  have "(c mod 10 ^ s) * 10 ^ (18 - s) + 10 ^ 18 * (c div 10 ^ s)
      = 10 ^ (18 - s) * (c mod 10 ^ s + 10 ^ s * (c div 10 ^ s))"
    unfolding pad_scale [OF assms, symmetric] by (simp only: distrib_left ac_simps)
  then show "(c mod 10 ^ s) * 10 ^ (18 - s) + 10 ^ 18 * (c div 10 ^ s) = c * 10 ^ (18 - s)"
    by simp
  show "(c mod 10 ^ s) * 10 ^ (18 - s) < 10 ^ 18"
    unfolding pad_scale [OF assms, symmetric] by simp
qed

lemma compare_of_cross:
  assumes "sa \<le> 18" "sb \<le> 18"
  shows "compare_of (ca * 10 ^ (18 - sa)) (cb * 10 ^ (18 - sb)) = compare_of (ca * 10 ^ sb) (cb * 10 ^ sa :: nat)"
proof -
  let ?k = "10 ^ sa * 10 ^ sb :: nat"
  have "compare_of (ca * 10 ^ (18 - sa)) (cb * 10 ^ (18 - sb))
      = compare_of (?k * (ca * 10 ^ (18 - sa))) (?k * (cb * 10 ^ (18 - sb)))"
    by (rule compare_of_scale [symmetric]) simp
  also have "?k * (ca * 10 ^ (18 - sa)) = (10 ^ sa * 10 ^ (18 - sa)) * (ca * 10 ^ sb)"
    by (simp only: ac_simps)
  also have "?k * (cb * 10 ^ (18 - sb)) = (10 ^ sb * 10 ^ (18 - sb)) * (cb * 10 ^ sa)"
    by (simp only: ac_simps)
  also note pad_scale [OF assms(1)]
  also note pad_scale [OF assms(2)]
  also have "compare_of (10 ^ 18 * (ca * 10 ^ sb)) (10 ^ 18 * (cb * 10 ^ sa)) = compare_of (ca * 10 ^ sb) (cb * 10 ^ sa)"
    by (rule compare_of_scale) simp
  finally show ?thesis .
qed

lemma OkxReferencePrice_cmp_eq:
  assumes a: "reference_price_ok a" and b: "reference_price_ok b"
  shows "OkxReferencePrice_cmp a b = Some (compare_of
    (u256_nat (coefficient a) * 10 ^ unat (decimal_scale b))
    (u256_nat (coefficient b) * 10 ^ unat (decimal_scale a)))"
proof -
  define ca cb sa sb where "ca = u256_nat (coefficient a)" "cb = u256_nat (coefficient b)"
    "sa = unat (decimal_scale a)" "sb = unat (decimal_scale b)"
  note defs = this
  have s: "sa \<le> 18" "sb \<le> 18"
    using a b by (simp_all add: reference_price_ok_def defs)
  obtain da where A: "split_decimal a = Some (u256_of_nat (ca div 10 ^ sa), da @ replicate (18 - sa) (CHR ''0''))"
    "length da = sa" "list_all is_ascii_digit da" "dec_value da = ca mod 10 ^ sa"
    using split_decimal_Some [OF a] unfolding defs by metis
  obtain db where B: "split_decimal b = Some (u256_of_nat (cb div 10 ^ sb), db @ replicate (18 - sb) (CHR ''0''))"
    "length db = sb" "list_all is_ascii_digit db" "dec_value db = cb mod 10 ^ sb"
    using split_decimal_Some [OF b] unfolding defs by metis
  have z: "list_all is_ascii_digit (replicate k (CHR ''0''))" for k
    by (simp add: list_all_iff is_ascii_digit_def byte_of_def)
  have bc: "bytes_cmp (da @ replicate (18 - sa) (CHR ''0'')) (db @ replicate (18 - sb) (CHR ''0''))
      = compare_of ((ca mod 10 ^ sa) * 10 ^ (18 - sa)) ((cb mod 10 ^ sb) * 10 ^ (18 - sb))"
    using A B s z by (subst bytes_cmp_digits) (simp_all add: dec_from_zeros)
  have "OkxReferencePrice_cmp a b = Some (compare_of (ca * 10 ^ (18 - sa)) (cb * 10 ^ (18 - sb)))"
    using compare_of_limbs [OF scaled_split(2) [OF s(1), of ca] scaled_split(2) [OF s(2), of cb],
        of "ca div 10 ^ sa" "cb div 10 ^ sb"]
    unfolding scaled_split(1) [OF s(1)] scaled_split(1) [OF s(2)] OkxReferencePrice_cmp_def A(1) B(1)
    by (simp add: U256_cmp_eq bc) (simp add: defs)
  then show ?thesis
    unfolding compare_of_cross [OF s] by (simp add: defs)
qed

text \<open>A decimal number has one canonical coefficient and scale.\<close>

lemma canonical_scale_le:
  fixes c d :: nat
  assumes "t = 0 \<or> d mod 10 \<noteq> 0" "c * 10 ^ t = d * 10 ^ s"
  shows "t \<le> s"
proof (rule ccontr)
  assume "\<not> t \<le> s"
  then obtain k where k: "t = s + Suc k"
    using less_imp_Suc_add by (metis add_Suc_right not_le)
  then have "d = c * 10 ^ Suc k"
    using assms(2) by (simp add: power_add)
  then show False
    using assms(1) k by auto
qed

lemma canonical_unique:
  fixes c d :: nat
  assumes "s = 0 \<or> c mod 10 \<noteq> 0" "t = 0 \<or> d mod 10 \<noteq> 0" "c * 10 ^ t = d * 10 ^ s"
  shows "s = t \<and> c = d"
proof -
  have "s = t"
    using canonical_scale_le [OF assms(2,3)] canonical_scale_le [OF assms(1) assms(3) [symmetric]] by simp
  then show ?thesis
    using assms(3) by simp
qed

lemma reference_price_unique:
  assumes "reference_price_ok a" "reference_price_ok b"
    and "u256_nat (coefficient a) * 10 ^ unat (decimal_scale b) = u256_nat (coefficient b) * 10 ^ unat (decimal_scale a)"
  shows "a = b"
proof -
  have "unat (decimal_scale a) = unat (decimal_scale b) \<and> u256_nat (coefficient a) = u256_nat (coefficient b)"
    using assms by (intro canonical_unique) (auto simp: reference_price_ok_def word_unat_eq_iff)
  then show ?thesis
    by (cases a; cases b) (simp add: word_unat_eq_iff u256_nat_eq_iff)
qed

section \<open>Parsing\<close>

lemma digit_not_dot: "is_ascii_digit c \<Longrightarrow> c \<noteq> CHR ''.''"
  by (auto simp: is_ascii_digit_def byte_of_def)

lemma find_dot_seen: "find_dot k (Some d) s = Ok x \<longleftrightarrow> list_all is_ascii_digit s \<and> x = Some d"
  by (induction s arbitrary: k) (auto dest: digit_not_dot)

lemma find_dot_text:
  "list_all is_ascii_digit s \<Longrightarrow> find_dot k None s = Ok None"
  "list_all is_ascii_digit s \<Longrightarrow> list_all is_ascii_digit f \<Longrightarrow>
     find_dot k None (s @ CHR ''.'' # f) = Ok (Some (k + length s))"
  by (induction s arbitrary: k) (auto dest: digit_not_dot simp: find_dot_seen)

lemma find_dot_Ok:
  assumes "find_dot k None s = Ok x"
  obtains (none) "x = None" "list_all is_ascii_digit s"
  | (some) i f where "x = Some (k + length i)" "s = i @ CHR ''.'' # f" "list_all is_ascii_digit i"
      "list_all is_ascii_digit f"
  using assms
proof (induction s arbitrary: k thesis)
  case (Cons c cs)
  show ?case
  proof (cases "c = CHR ''.''")
    case True
    then show ?thesis
      using Cons.prems(3) Cons.prems(2) [of "[]" cs] by (simp add: find_dot_seen)
  next
    case False
    then have c: "is_ascii_digit c" "find_dot (Suc k) None cs = Ok x"
      using Cons.prems(3) by (auto split: if_splits)
    show ?thesis
    proof (rule Cons.IH [OF _ _ c(2)])
      fix i f
      assume "x = Some (Suc k + length i)" "cs = i @ CHR ''.'' # f" "list_all is_ascii_digit i"
        "list_all is_ascii_digit f"
      then show ?thesis
        using c(1) by (intro Cons.prems(2) [of "c # i" f]) simp_all
    qed (use c(1) Cons.prems(1) in simp)
  qed
qed simp

lemma significant_end_loop_facts:
  assumes "fs \<le> n" "n \<le> length bytes"
  shows "fs \<le> significant_end_loop bytes fs n \<and> significant_end_loop bytes fs n \<le> n
    \<and> (\<forall>j<n. significant_end_loop bytes fs n \<le> j \<longrightarrow> bytes ! j = CHR ''0'')"
  using assms
proof (induction n)
  case (Suc n)
  then show ?case
    by (cases "fs = Suc n") (auto simp: less_Suc_eq)
qed simp

lemma significant_end_loop_last:
  assumes "fs \<le> n"
  shows "significant_end_loop bytes fs n = fs \<or> bytes ! (significant_end_loop bytes fs n - 1) \<noteq> CHR ''0''"
  using assms by (induction n) (auto simp: le_Suc_eq)

lemma read_coefficient_append:
  "read_coefficient k d c (xs @ ys) =
     bind_result (read_coefficient k d c xs) (\<lambda>c'. read_coefficient (k + length xs) d c' ys)"
proof (induction xs arbitrary: k c)
  case (Cons x xs)
  then show ?case
    by (simp add: bind_result_assoc)
qed simp

lemma read_coefficient_digits:
  "(\<And>j. j < length s \<Longrightarrow> d \<noteq> Some (k + j)) \<Longrightarrow> list_all is_ascii_digit s \<Longrightarrow>
   read_coefficient k d c s = map_err OkxReferencePriceError_from_numeric (push_digits c s)"
proof (induction s arbitrary: k c)
  case (Cons x xs)
  have "d \<noteq> Some k"
    using Cons.prems(1) [of 0] by simp
  moreover have "read_coefficient (Suc k) d c' xs = map_err OkxReferencePriceError_from_numeric (push_digits c' xs)" for c'
    using Cons.prems Cons.prems(1) [of "Suc _"] by (intro Cons.IH) simp_all
  ultimately show ?case
    by (auto simp: U256_checked_add_u32_def [symmetric] bind_map_err bind_result_assoc)
qed simp

lemma read_coefficient_text:
  assumes "list_all is_ascii_digit i" "list_all is_ascii_digit f"
  shows "read_coefficient 0 (Some (length i)) U256_ZERO (i @ CHR ''.'' # f) =
    map_err OkxReferencePriceError_from_numeric (push_digits U256_ZERO (i @ f))"
proof -
  have "read_coefficient (Suc (length i)) (Some (length i)) c f
      = map_err OkxReferencePriceError_from_numeric (push_digits c f)" for c
    using assms(2) by (intro read_coefficient_digits) simp_all
  moreover have "read_coefficient 0 (Some (length i)) U256_ZERO i
      = map_err OkxReferencePriceError_from_numeric (push_digits U256_ZERO i)"
    using assms(1) by (intro read_coefficient_digits) simp_all
  moreover have "push_digits c (xs @ ys) = bind_result (push_digits c xs) (\<lambda>c'. push_digits c' ys)" for c xs ys
    by (induction xs arbitrary: c) (simp_all add: bind_result_assoc)
  ultimately show ?thesis
    by (simp add: read_coefficient_append bind_map_err)
qed

lemma push_digits_zero:
  "list_all is_ascii_digit s \<Longrightarrow> push_digits U256_ZERO s = Ok c \<longleftrightarrow> u256_nat c = dec_value s"
  using u256_nat_bound [of c] u256_of_nat_nat [of c] by (auto simp: push_digits_eq u256_nat_of_nat)

lemma significant_prefix:
  fixes i f :: string
  assumes "i \<noteq> []"
  defines "bytes \<equiv> i @ CHR ''.'' # f" and "fs \<equiv> length i + 1"
  defines "e \<equiv> significant_end_loop bytes fs (length bytes)"
  obtains g k where "e = fs + length g" "take e bytes = i @ CHR ''.'' # g" "f = g @ replicate k (CHR ''0'')"
    "g = [] \<or> last g \<noteq> CHR ''0''"
proof
  have e: "fs \<le> e" "e \<le> length bytes" "\<forall>j<length bytes. e \<le> j \<longrightarrow> bytes ! j = CHR ''0''"
    using significant_end_loop_facts [of fs "length bytes" bytes]
    by (simp_all add: e_def fs_def bytes_def)
  let ?g = "take (e - fs) f" and ?k = "length f - (e - fs)"
  have le: "e - fs \<le> length f"
    using e by (simp add: fs_def bytes_def)
  then show "e = fs + length ?g"
    using e(1) by simp
  then show "take e bytes = i @ CHR ''.'' # ?g"
    using e(1) le by (simp add: bytes_def fs_def take_Cons')
  have "drop (e - fs) f = replicate ?k (CHR ''0'')"
  proof (rule nth_equalityI)
    fix j assume "j < length (drop (e - fs) f)"
    then show "drop (e - fs) f ! j = replicate ?k (CHR ''0'') ! j"
      using e(3) [rule_format, of "e + j"] e(1) by (simp add: bytes_def fs_def nth_append nth_Cons')
  qed simp
  then show "f = ?g @ replicate ?k (CHR ''0'')"
    using append_take_drop_id [of "e - fs" f] by simp
  show "?g = [] \<or> last ?g \<noteq> CHR ''0''"
  proof (cases "e = fs")
    case False
    then have "bytes ! (e - 1) \<noteq> CHR ''0''"
      using significant_end_loop_last [of fs "length bytes" bytes] by (simp add: e_def fs_def bytes_def)
    moreover have "last ?g = f ! (e - fs - 1)"
      using False e(1) le by (subst last_conv_nth) (auto simp: fs_def min_def)
    moreover have "bytes ! (e - 1) = f ! (e - fs - 1)"
      using False e(1) by (auto simp: bytes_def fs_def nth_append nth_Cons')
    ultimately show ?thesis
      by simp
  qed simp
qed

lemma OkxReferencePrice_parse_text:
  assumes "i \<noteq> []" "list_all is_ascii_digit i" "list_all is_ascii_digit f" "length (scaled_text i f) \<le> 128"
  obtains g k where "f = g @ replicate k (CHR ''0'')"
    "OkxReferencePrice_parse_decimal (scaled_text i f) =
       (if 18 < length g then Err ScaleTooLarge
        else bind_result (map_err OkxReferencePriceError_from_numeric (push_digits U256_ZERO (i @ g)))
          (\<lambda>c. OkxReferencePrice_new c (word_of_nat (length g))))"
    "g = [] \<or> last g \<noteq> CHR ''0''"
proof (cases "f = []")
  case True
  have "significant_end_loop i (length i) (length i) = length i"
    by (cases "length i") simp_all
  then show ?thesis
    using assms True read_coefficient_digits [of i None 0 U256_ZERO]
    by (intro that [of "[]" 0])
      (simp_all add: scaled_text_def OkxReferencePrice_parse_decimal_def MAX_OKX_REFERENCE_INPUT_BYTES_def
        find_dot_text Let_def)
next
  case False
  obtain g k where g: "significant_end_loop (i @ CHR ''.'' # f) (length i + 1) (length (i @ CHR ''.'' # f)) = length i + 1 + length g"
    "take (length i + 1 + length g) (i @ CHR ''.'' # f) = i @ CHR ''.'' # g"
    "f = g @ replicate k (CHR ''0'')" "g = [] \<or> last g \<noteq> CHR ''0''"
    using significant_prefix [OF assms(1), of f] by metis
  have "list_all is_ascii_digit g"
    using assms(3) g(3) by simp
  then have "read_coefficient 0 (Some (length i)) U256_ZERO (i @ CHR ''.'' # g)
      = map_err OkxReferencePriceError_from_numeric (push_digits U256_ZERO (i @ g))"
    by (rule read_coefficient_text [OF assms(2)])
  then show ?thesis
    using assms False g(1,2)
    by (intro that [OF g(3) _ g(4)])
      (simp_all add: scaled_text_def OkxReferencePrice_parse_decimal_def MAX_OKX_REFERENCE_INPUT_BYTES_def
        find_dot_text Let_def)
qed

lemma OkxReferencePrice_parse_shape:
  assumes "OkxReferencePrice_parse_decimal s = Ok p"
  obtains i f where "s = scaled_text i f" "i \<noteq> []" "list_all is_ascii_digit i" "list_all is_ascii_digit f"
    "length s \<le> 128"
proof -
  obtain x where s: "s \<noteq> []" "length s \<le> 128" "find_dot 0 None s = Ok x"
    and x: "\<not> is_some_and (\<lambda>index. index = 0 \<or> index + 1 = length s) x"
    using assms
    by (auto simp: OkxReferencePrice_parse_decimal_def MAX_OKX_REFERENCE_INPUT_BYTES_def Let_def split: if_splits)
  from s(3) show thesis
  proof (cases rule: find_dot_Ok)
    case none
    then show ?thesis
      using s that [of s "[]"] by (simp add: scaled_text_def)
  next
    case (some i f)
    then show ?thesis
      using s x that [of i f] by (auto simp: scaled_text_def)
  qed
qed

lemma OkxReferencePrice_parse_value:
  assumes "OkxReferencePrice_parse_decimal s = Ok p"
  obtains i f where "s = scaled_text i f" "i \<noteq> []" "list_all is_ascii_digit i" "list_all is_ascii_digit f"
    "length s \<le> 128" "reference_price_ok p"
    "u256_nat (coefficient p) * 10 ^ length f = dec_value (i @ f) * 10 ^ unat (decimal_scale p)"
proof -
  obtain i f where s: "s = scaled_text i f" "i \<noteq> []" "list_all is_ascii_digit i" "list_all is_ascii_digit f"
    "length s \<le> 128"
    using OkxReferencePrice_parse_shape [OF assms] .
  obtain g k where g: "f = g @ replicate k (CHR ''0'')"
    "OkxReferencePrice_parse_decimal (scaled_text i f) =
       (if 18 < length g then Err ScaleTooLarge
        else bind_result (map_err OkxReferencePriceError_from_numeric (push_digits U256_ZERO (i @ g)))
          (\<lambda>c. OkxReferencePrice_new c (word_of_nat (length g))))"
    using OkxReferencePrice_parse_text [OF s(2-4)] s(1,5) by metis
  from g(2) obtain c where c: "length g \<le> 18" "push_digits U256_ZERO (i @ g) = Ok c"
    "OkxReferencePrice_new c (word_of_nat (length g)) = Ok p"
    using assms s(1) by (auto simp: not_less split: if_splits)
  have u: "unat (word_of_nat (length g) :: u8) = length g"
    unfolding unat_of_nat using c(1) by simp
  have ig: "list_all is_ascii_digit (i @ g)"
    using s(3,4) g(1) by simp
  note p = OkxReferencePrice_new_Ok [OF c(3), unfolded u]
  have "u256_nat c = dec_value (i @ g)"
    using c(2) push_digits_zero [OF ig] by simp
  then have v: "dec_value (i @ f) = u256_nat c * 10 ^ k"
    by (simp add: g(1) dec_from_zeros)
  obtain d where d: "length g = unat (decimal_scale p) + d"
    using p(2) le_Suc_ex by blast
  have "u256_nat (coefficient p) * 10 ^ length f = dec_value (i @ f) * 10 ^ unat (decimal_scale p)"
    unfolding v p(3) by (simp add: g(1) d power_add)
  then show thesis
    using that s p(1) by blast
qed

lemma OkxReferencePrice_new_canonical:
  assumes "reference_price_ok p"
  shows "OkxReferencePrice_new (coefficient p) (decimal_scale p) = Ok p"
proof -
  have "canonical_loop (unat (decimal_scale p)) (coefficient p) = Ok (coefficient p, unat (decimal_scale p))"
    using assms by (cases "unat (decimal_scale p)")
      (auto simp: reference_price_ok_def U256_checked_div_rem_u32_eq word_unat_eq_iff)
  then show ?thesis
    using assms by (simp add: OkxReferencePrice_new_def reference_price_ok_def)
qed

lemma dec_value_last_digit:
  assumes "g \<noteq> []" "last g \<noteq> CHR ''0''" "list_all is_ascii_digit g"
  shows "dec_value (i @ g) mod 10 \<noteq> 0"
proof -
  have g: "g = butlast g @ [last g]"
    using assms(1) by simp
  have "is_ascii_digit (last g)"
    using assms(1,3) by (simp add: list_all_iff)
  moreover have "byte_of (last g) \<noteq> byte_of (CHR ''0'')"
    using assms(2) by (simp only: byte_of_def of_char_eq_iff not_False_eq_True)
  ultimately have d: "byte_of (last g) - 48 < 10" "byte_of (last g) - 48 \<noteq> 0"
    by (auto simp: is_ascii_digit_def byte_of_def)
  have "dec_value (i @ g) = dec_value (i @ butlast g) * 10 + (byte_of (last g) - 48)"
    using dec_from_simps(3) [of 0 "i @ butlast g" "[last g]"] g by simp
  then have "dec_value (i @ g) mod 10 = (byte_of (last g) - 48) mod 10"
    by (simp only: mod_mult_self3)
  with d show ?thesis
    by simp
qed

lemma OkxReferencePrice_parse_complete:
  assumes shape: "i \<noteq> []" "list_all is_ascii_digit i" "list_all is_ascii_digit f" "length (scaled_text i f) \<le> 128"
    and p: "reference_price_ok p"
    and value_eq: "u256_nat (coefficient p) * 10 ^ length f = dec_value (i @ f) * 10 ^ unat (decimal_scale p)"
  shows "OkxReferencePrice_parse_decimal (scaled_text i f) = Ok p"
proof -
  let ?c = "u256_nat (coefficient p)" and ?s = "unat (decimal_scale p)"
  obtain g k where g: "f = g @ replicate k (CHR ''0'')"
    "OkxReferencePrice_parse_decimal (scaled_text i f) =
       (if 18 < length g then Err ScaleTooLarge
        else bind_result (map_err OkxReferencePriceError_from_numeric (push_digits U256_ZERO (i @ g)))
          (\<lambda>c. OkxReferencePrice_new c (word_of_nat (length g))))"
    "g = [] \<or> last g \<noteq> CHR ''0''"
    by (rule OkxReferencePrice_parse_text [OF shape])
  have digits: "list_all is_ascii_digit g" "list_all is_ascii_digit (i @ g)"
    using shape(2,3) g(1) by simp_all
  have "dec_value (i @ f) = dec_value (i @ g) * 10 ^ k"
    by (simp add: g(1) dec_from_zeros)
  then have "?c * 10 ^ length g = dec_value (i @ g) * 10 ^ ?s"
    using value_eq by (simp add: g(1) power_add)
  moreover have "length g = 0 \<or> dec_value (i @ g) mod 10 \<noteq> 0"
    using dec_value_last_digit [OF _ _ digits(1), of i] g(3) by (cases "g = []") blast+
  moreover have "?s = 0 \<or> ?c mod 10 \<noteq> 0"
    using p by (auto simp: reference_price_ok_def)
  ultimately have same: "?s = length g" "?c = dec_value (i @ g)"
    using canonical_unique [of ?s ?c "length g" "dec_value (i @ g)"] by auto
  have "word_of_nat (length g) = decimal_scale p"
    by (simp flip: same(1))
  moreover have "push_digits U256_ZERO (i @ g) = Ok (coefficient p)"
    using push_digits_zero [OF digits(2)] same(2) by simp
  moreover have "length g \<le> 18"
    using p by (simp add: reference_price_ok_def flip: same(1))
  ultimately show ?thesis
    using g(2) OkxReferencePrice_new_canonical [OF p] by simp
qed

lemma OkxReferencePrice_fmt_text:
  assumes "reference_price_ok p"
  obtains i f where "OkxReferencePrice_fmt p = Some (scaled_text i f)" "i \<noteq> []" "list_all is_ascii_digit i"
    "list_all is_ascii_digit f" "length (scaled_text i f) \<le> 97" "length f = unat (decimal_scale p)"
    "dec_value (i @ f) = u256_nat (coefficient p)" "f = [] \<or> last f \<noteq> CHR ''0''"
proof -
  let ?c = "u256_nat (coefficient p)" and ?s = "unat (decimal_scale p)"
  obtain f where f: "split_decimal p = Some (u256_of_nat (?c div 10 ^ ?s), f @ replicate (18 - ?s) (CHR ''0''))"
    "length f = ?s" "list_all is_ascii_digit f" "dec_value f = ?c mod 10 ^ ?s"
    by (rule split_decimal_Some [OF assms])
  define i where "i = nat_to_string (?c div 10 ^ ?s)"
  have "?c div 10 ^ ?s < 10 ^ 78"
    using u256_nat_bound [of "coefficient p"] by (simp add: le_less_trans [OF div_le_dividend])
  then have i: "i \<noteq> []" "list_all is_ascii_digit i" "dec_value i = ?c div 10 ^ ?s" "length i \<le> 78"
    unfolding i_def by (simp_all add: nat_to_string_facts nat_to_string_length)
  have v: "dec_value (i @ f) = ?c"
    using dec_from_split [of "?c div 10 ^ ?s" f] div_mult_mod_eq [of ?c "10 ^ ?s"]
    by (simp only: dec_from_simps(3) i(3) f(2,4))
  have "OkxReferencePrice_fmt p = Some (scaled_text i f)"
    using f(1,2) by (auto simp: OkxReferencePrice_fmt_def U256_fmt_eq i_def scaled_text_def word_less_nat_alt u256_of_nat_nat)
  moreover have "length (scaled_text i f) \<le> 97"
    using i(4) f(2) assms by (simp add: scaled_text_def reference_price_ok_def)
  moreover have "f = [] \<or> last f \<noteq> CHR ''0''"
  proof (rule ccontr)
    assume "\<not> ?thesis"
    then have ne: "f \<noteq> []" "last f = CHR ''0''"
      by simp_all
    have "f = butlast f @ [CHR ''0'']"
      using append_butlast_last_id [OF ne(1)] ne(2) by simp
    then have "?c = 10 * dec_value (i @ butlast f)"
      using v dec_from_simps(3) [of 0 "i @ butlast f" "[CHR ''0'']"] by (simp add: byte_of_def)
    then show False
      using assms ne(1) f(2) by (auto simp: reference_price_ok_def)
  qed
  ultimately show thesis
    using that i(1,2) f(2,3) v by blast
qed

section \<open>Properties\<close>

text \<open>
  C38: the parser accepts exactly the texts of canonical reference prices and returns the price
  they denote.  A text is accepted with a given result if and only if it has at most 128 bytes,
  reads as a nonempty digit string with an optional nonempty fraction, and the result is the
  canonical price of that decimal value (cross-multiplied: coefficient times ten to the number
  of fractional digits is the digit string times ten to the scale), which is positive, has at
  most eighteen decimals and a 256-bit coefficient.
\<close>

theorem OkxReferencePrice_parse_exact:
  "OkxReferencePrice_parse_decimal input = Ok price \<longleftrightarrow>
     reference_price_ok price \<and> length input \<le> 128
     \<and> (\<exists>i f. input = scaled_text i f \<and> i \<noteq> [] \<and> list_all is_ascii_digit i \<and> list_all is_ascii_digit f
          \<and> u256_nat (coefficient price) * 10 ^ length f = dec_value (i @ f) * 10 ^ unat (decimal_scale price))"
  (is "?parses \<longleftrightarrow> ?denotes")
proof
  assume ?parses
  then show ?denotes
    by (rule OkxReferencePrice_parse_value) blast
next
  assume ?denotes
  then show ?parses
    using OkxReferencePrice_parse_complete by blast
qed

theorem OkxReferencePrice_parse_exact_witness:
  "OkxReferencePrice_parse_decimal ''2.50'' = Ok \<lparr>coefficient = U256 25 0 0 0, decimal_scale = 1\<rparr>"
  by (rule OkxReferencePrice_parse_exact [THEN iffD2], intro conjI, simp add: reference_price_ok_def,
      simp, rule exI [of _ "''2''"], rule exI [of _ "''50''"])
    (simp add: scaled_text_def is_ascii_digit_def byte_of_def)

text \<open>
  C39: every constructed reference price prints, without running past its eighteen-digit
  buffer, and the printed text parses back to the same price.
\<close>

theorem OkxReferencePrice_text_roundtrip:
  assumes "reference_price_ok price"
  shows "\<exists>printed. OkxReferencePrice_fmt price = Some printed
    \<and> OkxReferencePrice_parse_decimal printed = Ok price"
proof -
  obtain i f where t: "OkxReferencePrice_fmt price = Some (scaled_text i f)" "i \<noteq> []"
    "list_all is_ascii_digit i" "list_all is_ascii_digit f" "length (scaled_text i f) \<le> 97"
    "length f = unat (decimal_scale price)" "dec_value (i @ f) = u256_nat (coefficient price)"
    "f = [] \<or> last f \<noteq> CHR ''0''"
    by (rule OkxReferencePrice_fmt_text [OF assms])
  have len: "length (scaled_text i f) \<le> 128"
    using t(5) by simp
  obtain g k where g: "f = g @ replicate k (CHR ''0'')"
    "OkxReferencePrice_parse_decimal (scaled_text i f) =
       (if 18 < length g then Err ScaleTooLarge
        else bind_result (map_err OkxReferencePriceError_from_numeric (push_digits U256_ZERO (i @ g)))
          (\<lambda>c. OkxReferencePrice_new c (word_of_nat (length g))))"
    "g = [] \<or> last g \<noteq> CHR ''0''"
    by (rule OkxReferencePrice_parse_text [OF t(2-4) len])
  have gf: "g = f"
    using g(1) t(8) by (cases k) (auto simp flip: replicate_append_same)
  have "list_all is_ascii_digit (i @ f)"
    using t(3,4) by simp
  then have "push_digits U256_ZERO (i @ f) = Ok (coefficient price)"
    using push_digits_zero t(7) by simp
  then show ?thesis
    using t(1,6) g(2) gf OkxReferencePrice_new_canonical [OF assms] assms
    by (simp add: reference_price_ok_def)
qed

theorem OkxReferencePrice_text_roundtrip_witness:
  "let price = \<lparr>coefficient = U256 125 0 0 0, decimal_scale = 1\<rparr>
   in reference_price_ok price
      \<and> (\<exists>printed. OkxReferencePrice_fmt price = Some printed \<and> OkxReferencePrice_parse_decimal printed = Ok price)"
  using OkxReferencePrice_text_roundtrip [of "\<lparr>coefficient = U256 125 0 0 0, decimal_scale = 1\<rparr>"]
  by (simp add: reference_price_ok_def)

text \<open>
  C40: comparing two constructed reference prices is comparing their exact decimal values,
  and they compare equal only when they are the same value: canonicalisation gives each
  decimal number one representation.
\<close>

theorem OkxReferencePrice_order_exact:
  assumes "reference_price_ok a" "reference_price_ok b"
  shows "OkxReferencePrice_cmp a b = Some (compare_of
      (u256_nat (coefficient a) * 10 ^ unat (decimal_scale b))
      (u256_nat (coefficient b) * 10 ^ unat (decimal_scale a)))
    \<and> (OkxReferencePrice_cmp a b = Some Equal \<longleftrightarrow> a = b)"
  using OkxReferencePrice_cmp_eq [OF assms] reference_price_unique [OF assms] by (auto simp: compare_of_def)

theorem OkxReferencePrice_order_exact_witness:
  "let a = \<lparr>coefficient = U256 125 0 0 0, decimal_scale = 1\<rparr>;
       b = \<lparr>coefficient = U256 9 0 0 0, decimal_scale = 0\<rparr>
   in reference_price_ok a \<and> reference_price_ok b \<and> OkxReferencePrice_cmp a b = Some Greater"
  using OkxReferencePrice_order_exact [of "\<lparr>coefficient = U256 125 0 0 0, decimal_scale = 1\<rparr>"
      "\<lparr>coefficient = U256 9 0 0 0, decimal_scale = 0\<rparr>"]
  by (simp add: reference_price_ok_def compare_of_def)

end
