(* ===== verification/Pm_Event.thy ===== *)
theory Pm_Event
  imports Pm_Metadata Okx_Reference_Price
begin

text \<open>
  The normalized events of \<open>crates/reap-pm-core/src/event.rs\<close>: market metadata, book
  snapshots, delta batches and top checks, order and fill observations, balances,
  allowances, positions and reference prices.  Each constructor checks that the event's
  product source is the configured source of its market token or account.

  Getters of the source are the selectors of the records.  \<open>PmOrderIdentity_account\<close> is
  unspecified on an identity with neither identifier, the \<open>unreachable!\<close> arm of the source;
  no constructor returns such an identity.
\<close>

section \<open>Errors and source checks\<close>

definition MAX_PM_BOOK_LEVELS :: nat where
  "MAX_PM_BOOK_LEVELS = 2048"

definition MAX_PM_VENUE_CHANGE_HASH_BYTES :: nat where
  "MAX_PM_VENUE_CHANGE_HASH_BYTES = 96"

datatype PmEventError =
    WrongMarketSource
  | MarketSourceTokenMismatch
  | WrongAccountSource
  | AccountSourceMismatch
  | ZeroRevision
  | SnapshotLevelIsDelete
  | TooManyBookLevels
  | EmptyVenueChangeHash
  | VenueChangeHashTooLong
  | NonAsciiVenueChangeHash
  | ChangeHashCountMismatch
  | CrossedBookTop
  | MissingOrderIdentity
  | OrderIdentityAccountMismatch
  | MissingFillVenueOrderIdentity
  | FillVenueOrderMismatch
  | CumulativeFillExceedsOriginal
  | OrderStatusFillMismatch
  | AllowanceAssetKindMismatch

primrec validate_market_source :: "PmProductSource \<Rightarrow> PmInstrumentHandle \<Rightarrow> (unit, PmEventError) result" where
  "validate_market_source (PolymarketMarket source token) instrument =
     (if token = handle_token instrument then Ok () else Err MarketSourceTokenMismatch)"
| "validate_market_source (OkxReference source reference) instrument = Err WrongMarketSource"
| "validate_market_source (PolymarketAccount source account) instrument = Err WrongMarketSource"

primrec validate_account_source :: "PmProductSource \<Rightarrow> PmAccountHandle \<Rightarrow> (unit, PmEventError) result" where
  "validate_account_source (PolymarketAccount source source_account) account =
     (if source_account = account then Ok () else Err AccountSourceMismatch)"
| "validate_account_source (OkxReference source reference) account = Err WrongAccountSource"
| "validate_account_source (PolymarketMarket source token) account = Err WrongAccountSource"

definition validate_revision :: "SnapshotRevision \<Rightarrow> (unit, PmEventError) result" where
  "validate_revision revision = (if revision = 0 then Err ZeroRevision else Ok ())"

section \<open>Market and book events\<close>

record PmMarketEvent =
  market_source :: PmProductSource
  market_instrument :: PmInstrumentHandle
  market_metadata_revision :: SnapshotRevision
  market_metadata :: PmMarketMetadata

definition PmMarketEvent_new ::
    "PmProductSource \<Rightarrow> PmInstrumentHandle \<Rightarrow> SnapshotRevision \<Rightarrow> PmMarketMetadata
      \<Rightarrow> (PmMarketEvent, PmEventError) result" where
  "PmMarketEvent_new source instrument revision metadata =
     bind_result (validate_market_source source instrument) (\<lambda>_.
     bind_result (validate_revision revision) (\<lambda>_.
       Ok \<lparr>market_source = source, market_instrument = instrument,
           market_metadata_revision = revision, market_metadata = metadata\<rparr>))"

datatype PmBookSide = Bid | Ask

record PmBookLevel =
  level_side :: PmBookSide
  level_price :: PmPrice
  level_quantity :: PmBookQuantity

record PmVenueChangeHash =
  change_hash_length :: u8
  change_hash_bytes :: "u8 list"

definition PmVenueChangeHash_new :: "string \<Rightarrow> (PmVenueChangeHash, PmEventError) result" where
  "PmVenueChangeHash_new value =
     (if value = [] then Err EmptyVenueChangeHash
      else if MAX_PM_VENUE_CHANGE_HASH_BYTES < length value then Err VenueChangeHashTooLong
      else if \<not> list_all is_ascii value then Err NonAsciiVenueChangeHash
      else Ok \<lparr>change_hash_length = word_of_nat (length value),
               change_hash_bytes = map byte_u8 value
                 @ replicate (MAX_PM_VENUE_CHANGE_HASH_BYTES - length value) 0\<rparr>)"

definition PmVenueChangeHash_as_str :: "PmVenueChangeHash \<Rightarrow> string" where
  "PmVenueChangeHash_as_str h =
     map (\<lambda>b. char_of (unat b)) (take (unat (change_hash_length h)) (change_hash_bytes h))"

record PmBookPoint =
  point_price :: PmPrice
  point_quantity :: PmQuantity

record PmBookTop =
  top_bid :: "PmBookPoint option"
  top_ask :: "PmBookPoint option"

definition PmBookTop_new ::
    "PmBookPoint option \<Rightarrow> PmBookPoint option \<Rightarrow> (PmBookTop, PmEventError) result" where
  "PmBookTop_new bid ask =
     (case (bid, ask) of
        (Some b, Some a) \<Rightarrow>
          if point_price a \<le> point_price b then Err CrossedBookTop
          else Ok \<lparr>top_bid = bid, top_ask = ask\<rparr>
      | _ \<Rightarrow> Ok \<lparr>top_bid = bid, top_ask = ask\<rparr>)"

record PmBookSnapshot =
  snapshot_levels :: "PmBookLevel list"

definition PmBookSnapshot_new :: "PmBookLevel list \<Rightarrow> (PmBookSnapshot, PmEventError) result" where
  "PmBookSnapshot_new levels =
     (if MAX_PM_BOOK_LEVELS < length levels then Err TooManyBookLevels
      else if list_ex (\<lambda>level. level_quantity level = Delete) levels then Err SnapshotLevelIsDelete
      else Ok \<lparr>snapshot_levels = levels\<rparr>)"

record PmBookTopCheck =
  check_bid :: "PmPrice option"
  check_ask :: "PmPrice option"

record PmBookDeltaBatch =
  batch_changes :: "PmBookLevel list"
  batch_venue_change_hashes :: "PmVenueChangeHash option list"
  batch_expected_top :: PmBookTopCheck

definition PmBookDeltaBatch_new_with_venue_hashes ::
    "PmBookLevel list \<Rightarrow> PmVenueChangeHash option list \<Rightarrow> PmBookTopCheck
      \<Rightarrow> (PmBookDeltaBatch, PmEventError) result" where
  "PmBookDeltaBatch_new_with_venue_hashes changes hashes expected_top =
     (if MAX_PM_BOOK_LEVELS < length changes then Err TooManyBookLevels
      else if length changes \<noteq> length hashes then Err ChangeHashCountMismatch
      else Ok \<lparr>batch_changes = changes, batch_venue_change_hashes = hashes,
               batch_expected_top = expected_top\<rparr>)"

definition PmBookDeltaBatch_new ::
    "PmBookLevel list \<Rightarrow> PmBookTopCheck \<Rightarrow> (PmBookDeltaBatch, PmEventError) result" where
  "PmBookDeltaBatch_new changes expected_top =
     PmBookDeltaBatch_new_with_venue_hashes changes (replicate (length changes) None) expected_top"

datatype PmBookUpdate =
    Snapshot PmBookSnapshot
  | DeltaBatch PmBookDeltaBatch
  | TopCheck PmBookTopCheck
  | TickSizeChanged PmTick PmTick

record PmBookEvent =
  book_source :: PmProductSource
  book_instrument :: PmInstrumentHandle
  book_metadata_revision :: SnapshotRevision
  book_update :: PmBookUpdate

definition PmBookEvent_new ::
    "PmProductSource \<Rightarrow> PmInstrumentHandle \<Rightarrow> SnapshotRevision \<Rightarrow> PmBookUpdate
      \<Rightarrow> (PmBookEvent, PmEventError) result" where
  "PmBookEvent_new source instrument revision update =
     bind_result (validate_market_source source instrument) (\<lambda>_.
     bind_result (validate_revision revision) (\<lambda>_.
       Ok \<lparr>book_source = source, book_instrument = instrument,
           book_metadata_revision = revision, book_update = update\<rparr>))"

section \<open>Order and fill events\<close>

record PmOrderIdentity =
  client_order_key :: "PmClientOrderKey option"
  venue_order_key :: "PmVenueOrderKey option"

definition PmOrderIdentity_new ::
    "PmClientOrderKey option \<Rightarrow> PmVenueOrderKey option \<Rightarrow> (PmOrderIdentity, PmEventError) result" where
  "PmOrderIdentity_new client venue =
     (if client = None \<and> venue = None then Err MissingOrderIdentity
      else if (case (client, venue) of
                 (Some c, Some v) \<Rightarrow> client_account c \<noteq> venue_account v
               | _ \<Rightarrow> False)
        then Err OrderIdentityAccountMismatch
      else Ok \<lparr>client_order_key = client, venue_order_key = venue\<rparr>)"

definition PmOrderIdentity_account :: "PmOrderIdentity \<Rightarrow> PmAccountHandle" where
  "PmOrderIdentity_account order =
     (case client_order_key order of
        Some client \<Rightarrow> client_account client
      | None \<Rightarrow> venue_account (the (venue_order_key order)))"

datatype PmOrderStatus =
  Pending | Open | PartiallyFilled | Filled | Cancelled | Rejected | Expired

definition PmOrderStatus_is_terminal :: "PmOrderStatus \<Rightarrow> bool" where
  "PmOrderStatus_is_terminal status \<longleftrightarrow> status \<in> {Filled, Cancelled, Rejected, Expired}"

record PmOrderProgress =
  original_quantity :: PmQuantity
  cumulative_filled :: U256
  status :: PmOrderStatus

primrec status_matches :: "PmOrderStatus \<Rightarrow> U256 \<Rightarrow> U256 \<Rightarrow> bool" where
  "status_matches Pending filled original \<longleftrightarrow> U256_is_zero filled"
| "status_matches Open filled original \<longleftrightarrow> U256_is_zero filled"
| "status_matches PartiallyFilled filled original \<longleftrightarrow> \<not> U256_is_zero filled \<and> filled < original"
| "status_matches Filled filled original \<longleftrightarrow> filled = original"
| "status_matches Rejected filled original \<longleftrightarrow> U256_is_zero filled"
| "status_matches Cancelled filled original \<longleftrightarrow> True"
| "status_matches Expired filled original \<longleftrightarrow> True"

definition PmOrderProgress_new ::
    "PmQuantity \<Rightarrow> U256 \<Rightarrow> PmOrderStatus \<Rightarrow> (PmOrderProgress, PmEventError) result" where
  "PmOrderProgress_new original filled st =
     (let original_units = protocol_units original
      in if original_units < filled then Err CumulativeFillExceedsOriginal
         else if \<not> status_matches st filled original_units then Err OrderStatusFillMismatch
         else Ok \<lparr>original_quantity = original, cumulative_filled = filled, status = st\<rparr>)"

text \<open>\<open>None\<close> is the panic of the source's \<open>expect\<close>.\<close>

definition remaining_quantity_units :: "PmOrderProgress \<Rightarrow> U256 option" where
  "remaining_quantity_units progress =
     (case U256_checked_sub (protocol_units (original_quantity progress)) (cumulative_filled progress) of
        Ok units \<Rightarrow> Some units
      | Err _ \<Rightarrow> None)"

record PmOrderEvent =
  order_source :: PmProductSource
  order_instrument :: PmInstrumentHandle
  order_identity :: PmOrderIdentity
  order_side :: PmOrderSide
  order_price :: PmPrice
  order_progress :: PmOrderProgress

definition PmOrderEvent_new ::
    "PmProductSource \<Rightarrow> PmInstrumentHandle \<Rightarrow> PmOrderIdentity \<Rightarrow> PmOrderSide \<Rightarrow> PmPrice
      \<Rightarrow> PmOrderProgress \<Rightarrow> (PmOrderEvent, PmEventError) result" where
  "PmOrderEvent_new source instrument order side price progress =
     bind_result (validate_account_source source (PmOrderIdentity_account order)) (\<lambda>_.
       Ok \<lparr>order_source = source, order_instrument = instrument, order_identity = order,
           order_side = side, order_price = price, order_progress = progress\<rparr>)"

datatype PmFillRole = Maker | Taker

datatype PmFillSettlementStatus =
  Matched | Mined | Confirmed | Retrying | Failed | MatchedNotBroadcasted

datatype PmFillFee = Known PmAssetId PmSignedUnits | Unknown | Incomplete

record PmFillExecution =
  exec_side :: PmOrderSide
  exec_role :: PmFillRole
  exec_settlement :: PmFillSettlementStatus
  exec_price :: PmPrice
  exec_quantity :: PmQuantity
  exec_fee :: PmFillFee

record PmFillEvent =
  fill_source :: PmProductSource
  fill_instrument :: PmInstrumentHandle
  fill_key :: PmFillKey
  fill_order :: PmOrderIdentity
  fill_execution :: PmFillExecution

definition PmFillKey_account :: "PmFillKey \<Rightarrow> PmAccountHandle" where
  "PmFillKey_account key = venue_account (fill_venue_order key)"

definition PmFillEvent_new ::
    "PmProductSource \<Rightarrow> PmInstrumentHandle \<Rightarrow> PmFillKey \<Rightarrow> PmOrderIdentity \<Rightarrow> PmFillExecution
      \<Rightarrow> (PmFillEvent, PmEventError) result" where
  "PmFillEvent_new source instrument key order execution =
     (case venue_order_key order of
        None \<Rightarrow> Err MissingFillVenueOrderIdentity
      | Some order_venue \<Rightarrow>
          if fill_venue_order key \<noteq> order_venue then Err FillVenueOrderMismatch
          else bind_result (validate_account_source source (PmFillKey_account key)) (\<lambda>_.
            Ok \<lparr>fill_source = source, fill_instrument = instrument, fill_key = key,
                fill_order = order, fill_execution = execution\<rparr>))"

section \<open>Account and reference events\<close>

type_synonym PmSnapshotEvidence = SnapshotRevision

definition PmSnapshotEvidence_new :: "SnapshotRevision \<Rightarrow> (PmSnapshotEvidence, PmEventError) result" where
  "PmSnapshotEvidence_new revision = bind_result (validate_revision revision) (\<lambda>_. Ok revision)"

record PmBalanceEvent =
  balance_source :: PmProductSource
  balance_account :: PmAccountHandle
  balance_asset :: PmAssetId
  balance_units :: U256
  balance_snapshot :: PmSnapshotEvidence

definition PmBalanceEvent_new ::
    "PmProductSource \<Rightarrow> PmAccountHandle \<Rightarrow> PmAssetId \<Rightarrow> U256 \<Rightarrow> PmSnapshotEvidence
      \<Rightarrow> (PmBalanceEvent, PmEventError) result" where
  "PmBalanceEvent_new source account asset balance snapshot =
     bind_result (validate_account_source source account) (\<lambda>_.
       Ok \<lparr>balance_source = source, balance_account = account, balance_asset = asset,
           balance_units = balance, balance_snapshot = snapshot\<rparr>)"

datatype PmAllowanceValue = Erc20 U256 | Erc1155Operator bool

record PmSpenderId =
  spender_account :: PmAccountHandle
  spender_requirement :: PmSpenderRequirement

record PmAllowanceEvent =
  allowance_source :: PmProductSource
  allowance_spender :: PmSpenderId
  allowance_value :: PmAllowanceValue
  allowance_snapshot :: PmSnapshotEvidence

definition matching_kind :: "PmAssetId \<Rightarrow> PmAllowanceValue \<Rightarrow> bool" where
  "matching_kind asset value \<longleftrightarrow>
     (case (asset, value) of
        (Collateral contract, Erc20 units) \<Rightarrow> True
      | (Outcome contract token, Erc1155Operator approved) \<Rightarrow> True
      | _ \<Rightarrow> False)"

definition PmAllowanceEvent_new ::
    "PmProductSource \<Rightarrow> PmSpenderId \<Rightarrow> PmAllowanceValue \<Rightarrow> PmSnapshotEvidence
      \<Rightarrow> (PmAllowanceEvent, PmEventError) result" where
  "PmAllowanceEvent_new source spender value snapshot =
     bind_result (validate_account_source source (spender_account spender)) (\<lambda>_.
       if \<not> matching_kind (req_asset (spender_requirement spender)) value
       then Err AllowanceAssetKindMismatch
       else Ok \<lparr>allowance_source = source, allowance_spender = spender,
                allowance_value = value, allowance_snapshot = snapshot\<rparr>)"

datatype PmPositionAvailability = Tradable | ResolvedUnredeemed | Unavailable

record PmPositionEvent =
  position_source :: PmProductSource
  position_account :: PmAccountHandle
  position_instrument :: PmInstrumentHandle
  position_quantity :: U256
  position_availability :: PmPositionAvailability
  position_snapshot :: PmSnapshotEvidence

definition PmPositionEvent_new ::
    "PmProductSource \<Rightarrow> PmAccountHandle \<Rightarrow> PmInstrumentHandle \<Rightarrow> U256 \<Rightarrow> PmPositionAvailability
      \<Rightarrow> PmSnapshotEvidence \<Rightarrow> (PmPositionEvent, PmEventError) result" where
  "PmPositionEvent_new source account instrument quantity availability snapshot =
     bind_result (validate_account_source source account) (\<lambda>_.
       Ok \<lparr>position_source = source, position_account = account, position_instrument = instrument,
           position_quantity = quantity, position_availability = availability,
           position_snapshot = snapshot\<rparr>)"

record OkxReferenceEvent =
  reference_source :: PmProductSource
  reference_handle :: OkxReferenceHandle
  reference_price :: OkxReferencePrice

datatype OkxReferenceEventError = WrongSource | ReferenceHandleMismatch

definition OkxReferenceEvent_new ::
    "PmProductSource \<Rightarrow> OkxReferenceHandle \<Rightarrow> OkxReferencePrice
      \<Rightarrow> (OkxReferenceEvent, OkxReferenceEventError) result" where
  "OkxReferenceEvent_new source reference price =
     (case source of
        OkxReference handle source_reference \<Rightarrow>
          if source_reference = reference
          then Ok \<lparr>reference_source = source, reference_handle = reference, reference_price = price\<rparr>
          else Err ReferenceHandleMismatch
      | PolymarketMarket handle token \<Rightarrow> Err WrongSource
      | PolymarketAccount handle account \<Rightarrow> Err WrongSource)"

section \<open>What the constructors establish\<close>

lemma validate_market_source_Ok:
  "validate_market_source source instrument = Ok u \<longleftrightarrow>
     (\<exists>handle. source = PolymarketMarket handle (handle_token instrument))"
  by (cases source) auto

lemma validate_account_source_Ok:
  "validate_account_source source account = Ok u \<longleftrightarrow> (\<exists>handle. source = PolymarketAccount handle account)"
  by (cases source) auto

lemmas validate_source_Ok = validate_market_source_Ok validate_account_source_Ok

lemma OkxReferenceEvent_new_Ok:
  "OkxReferenceEvent_new source reference price = Ok e \<longleftrightarrow>
     (\<exists>handle. source = OkxReference handle reference)
     \<and> e = \<lparr>reference_source = source, reference_handle = reference, reference_price = price\<rparr>"
  by (cases source) (auto simp: OkxReferenceEvent_new_def)

lemma validate_revision_Ok [simp]: "validate_revision revision = Ok u \<longleftrightarrow> revision \<noteq> 0"
  by (simp add: validate_revision_def)

definition progress_ok :: "PmOrderProgress \<Rightarrow> bool" where
  "progress_ok p \<longleftrightarrow>
     cumulative_filled p \<le> protocol_units (original_quantity p)
     \<and> status_matches (status p) (cumulative_filled p) (protocol_units (original_quantity p))"

lemma PmOrderProgress_new_Ok:
  "PmOrderProgress_new q f s = Ok p \<longleftrightarrow>
     progress_ok p \<and> p = \<lparr>original_quantity = q, cumulative_filled = f, status = s\<rparr>"
  by (auto simp: PmOrderProgress_new_def progress_ok_def Let_def not_less)

lemma remaining_quantity_units_Some:
  assumes "progress_ok p"
  obtains r where "remaining_quantity_units p = Some r"
    "u256_nat r = u256_nat (protocol_units (original_quantity p)) - u256_nat (cumulative_filled p)"
proof -
  let ?o = "u256_nat (protocol_units (original_quantity p))" and ?f = "u256_nat (cumulative_filled p)"
  have "?o - ?f < 2 ^ 256"
    using u256_nat_bound [of "protocol_units (original_quantity p)"] by (rule le_less_trans [OF diff_le_self])
  then show thesis
    using assms that [of "u256_of_nat (?o - ?f)"]
    by (simp add: progress_ok_def remaining_quantity_units_def U256_checked_sub_eq u256_le_iff u256_nat_of_nat)
qed

section \<open>Properties\<close>

text \<open>
  C34: accepted order progress is consistent.  The remaining quantity exists (its subtraction
  never underflows), fills and remainder add up to the original quantity, and the status says
  where the order stands: nothing filled while pending, open or rejected, something but not
  everything when partially filled, everything when filled.
\<close>

theorem PmOrderProgress_consistent:
  assumes "PmOrderProgress_new original filled state = Ok progress"
  shows "\<exists>remaining. remaining_quantity_units progress = Some remaining
    \<and> u256_nat (cumulative_filled progress) + u256_nat remaining = u256_nat (protocol_units original)
    \<and> (status progress \<in> {Pending, Open, Rejected} \<longrightarrow> remaining = protocol_units original)
    \<and> (status progress = PartiallyFilled \<longrightarrow>
         0 < u256_nat (cumulative_filled progress) \<and> 0 < u256_nat remaining)
    \<and> (status progress = Filled \<longrightarrow> u256_nat remaining = 0)"
proof -
  have ok: "progress_ok progress" and p: "original_quantity progress = original"
    using assms by (auto simp: PmOrderProgress_new_Ok)
  obtain r where r: "remaining_quantity_units progress = Some r"
    "u256_nat r = u256_nat (protocol_units original) - u256_nat (cumulative_filled progress)"
    using remaining_quantity_units_Some [OF ok] unfolding p .
  have "u256_nat (cumulative_filled progress) \<le> u256_nat (protocol_units original)"
    and s: "status_matches (status progress) (cumulative_filled progress) (protocol_units original)"
    using ok by (simp_all add: progress_ok_def p u256_le_iff)
  then show ?thesis
    using r by (intro exI [of _ r] conjI) (auto simp: u256_less_iff simp flip: u256_nat_eq_iff)
qed

theorem PmOrderProgress_consistent_witness:
  "\<exists>progress remaining.
     PmOrderProgress_new (PmQuantity (U256 50 0 0 0)) (U256 20 0 0 0) PartiallyFilled = Ok progress
     \<and> remaining_quantity_units progress = Some remaining \<and> u256_nat remaining = 30"
proof -
  obtain p where p: "PmOrderProgress_new (PmQuantity (U256 50 0 0 0)) (U256 20 0 0 0) PartiallyFilled = Ok p"
    and f: "cumulative_filled p = U256 20 0 0 0"
    by (simp add: PmOrderProgress_new_def u256_less_iff)
  then show ?thesis
    using PmOrderProgress_consistent [OF p] by (auto simp: f)
qed

end
