(* ===== verification/Pm_Envelope.thy ===== *)
theory Pm_Envelope
  imports Pm_Event
begin

text \<open>
  Event envelopes of \<open>crates/reap-pm-core/src/envelope.rs\<close>: receive and service clocks,
  ordering evidence, venue hashes, and the scope check that ties the envelope's venue and
  source to its payload.

  The trait \<open>PmSourceBound\<close> is the locale \<open>source_bound\<close>: a payload type with its source
  and the venue its constructor guarantees.  Envelope lemmas are proved there once and the
  locale is interpreted for every event type.
\<close>

section \<open>Definitions\<close>

definition MAX_VENUE_EVENT_HASH_BYTES :: nat where
  "MAX_VENUE_EVENT_HASH_BYTES = 64"

datatype EnvelopeError =
    VenueSourceMismatch Venue Venue
  | PayloadSourceMismatch PmProductSource PmProductSource
  | ZeroVenueTimestamp
  | ZeroWallReceiveTimestamp
  | ZeroMonotonicReceiveTimestamp
  | ZeroMonotonicServiceTimestamp
  | ServiceBeforeReceive
  | ZeroConnectionEpoch
  | ZeroSnapshotRevision
  | ZeroVenueSequence
  | EmptyVenueHash
  | VenueHashTooLong
  | ZeroVenueHash
  | ZeroIngressSequence

datatype VenueEventHashAlgorithm = Sha1 | Sha256 | Opaque

record VenueEventHash =
  hash_algorithm :: VenueEventHashAlgorithm
  hash_length :: u8
  hash_bytes :: "u8 list"

definition VenueEventHash_from_slice ::
    "VenueEventHashAlgorithm \<Rightarrow> u8 list \<Rightarrow> (VenueEventHash, EnvelopeError) result" where
  "VenueEventHash_from_slice algorithm input =
     (if input = [] then Err EmptyVenueHash
      else if MAX_VENUE_EVENT_HASH_BYTES < length input then Err VenueHashTooLong
      else if list_all (\<lambda>byte. byte = 0) input then Err ZeroVenueHash
      else Ok \<lparr>hash_algorithm = algorithm, hash_length = word_of_nat (length input),
               hash_bytes = input @ replicate (MAX_VENUE_EVENT_HASH_BYTES - length input) 0\<rparr>)"

definition VenueEventHash_sha1 :: "u8 list \<Rightarrow> (VenueEventHash, EnvelopeError) result" where
  "VenueEventHash_sha1 bytes = VenueEventHash_from_slice Sha1 bytes"

definition VenueEventHash_sha256 :: "u8 list \<Rightarrow> (VenueEventHash, EnvelopeError) result" where
  "VenueEventHash_sha256 bytes = VenueEventHash_from_slice Sha256 bytes"

definition VenueEventHash_opaque :: "u8 list \<Rightarrow> (VenueEventHash, EnvelopeError) result" where
  "VenueEventHash_opaque bytes = VenueEventHash_from_slice Opaque bytes"

definition VenueEventHash_as_bytes :: "VenueEventHash \<Rightarrow> u8 list" where
  "VenueEventHash_as_bytes h = take (unat (hash_length h)) (hash_bytes h)"

record ReceivedEventClock =
  rc_venue_event_timestamp_ns :: "u64 option"
  rc_local_wall_receive_ns :: u64
  rc_monotonic_receive_ns :: u64

definition ReceivedEventClock_new ::
    "u64 option \<Rightarrow> u64 \<Rightarrow> u64 \<Rightarrow> (ReceivedEventClock, EnvelopeError) result" where
  "ReceivedEventClock_new venue wall receive =
     (if venue = Some 0 then Err ZeroVenueTimestamp
      else if wall = 0 then Err ZeroWallReceiveTimestamp
      else if receive = 0 then Err ZeroMonotonicReceiveTimestamp
      else Ok \<lparr>rc_venue_event_timestamp_ns = venue, rc_local_wall_receive_ns = wall,
               rc_monotonic_receive_ns = receive\<rparr>)"

record EventClock =
  venue_event_timestamp_ns :: "u64 option"
  local_wall_receive_ns :: u64
  monotonic_receive_ns :: u64
  monotonic_service_ns :: u64

definition ReceivedEventClock_service_at ::
    "ReceivedEventClock \<Rightarrow> u64 \<Rightarrow> (EventClock, EnvelopeError) result" where
  "ReceivedEventClock_service_at clock service =
     (if service = 0 then Err ZeroMonotonicServiceTimestamp
      else if service < rc_monotonic_receive_ns clock then Err ServiceBeforeReceive
      else Ok \<lparr>venue_event_timestamp_ns = rc_venue_event_timestamp_ns clock,
               local_wall_receive_ns = rc_local_wall_receive_ns clock,
               monotonic_receive_ns = rc_monotonic_receive_ns clock,
               monotonic_service_ns = service\<rparr>)"

definition EventClock_new ::
    "u64 option \<Rightarrow> u64 \<Rightarrow> u64 \<Rightarrow> u64 \<Rightarrow> (EventClock, EnvelopeError) result" where
  "EventClock_new venue wall receive service =
     bind_result (ReceivedEventClock_new venue wall receive) (\<lambda>clock.
       ReceivedEventClock_service_at clock service)"

definition queue_age_ns :: "EventClock \<Rightarrow> u64" where
  "queue_age_ns clock = monotonic_service_ns clock - monotonic_receive_ns clock"

record EventOrdering =
  connection_epoch :: ConnectionEpoch
  snapshot_revision :: "SnapshotRevision option"
  venue_sequence :: "u64 option"
  venue_hash :: "VenueEventHash option"
  local_ingress_sequence :: IngressSequence

definition EventOrdering_new ::
    "ConnectionEpoch \<Rightarrow> SnapshotRevision option \<Rightarrow> u64 option \<Rightarrow> VenueEventHash option
      \<Rightarrow> IngressSequence \<Rightarrow> (EventOrdering, EnvelopeError) result" where
  "EventOrdering_new epoch revision sequence hash ingress =
     (if epoch = 0 then Err ZeroConnectionEpoch
      else if is_some_and (\<lambda>r. r = 0) revision then Err ZeroSnapshotRevision
      else if sequence = Some 0 then Err ZeroVenueSequence
      else if ingress = 0 then Err ZeroIngressSequence
      else Ok \<lparr>connection_epoch = epoch, snapshot_revision = revision, venue_sequence = sequence,
               venue_hash = hash, local_ingress_sequence = ingress\<rparr>)"

record 'p ReceivedEventEnvelope =
  received_venue :: Venue
  received_source :: PmProductSource
  received_connection_id :: PmConnectionId
  received_clock :: ReceivedEventClock
  received_ordering :: EventOrdering
  received_payload :: 'p

record 'p EventEnvelope =
  env_venue :: Venue
  env_source :: PmProductSource
  env_connection_id :: PmConnectionId
  env_clock :: EventClock
  env_ordering :: EventOrdering
  env_payload :: 'p

definition validate_envelope_scope ::
    "Venue \<Rightarrow> PmProductSource \<Rightarrow> PmProductSource \<Rightarrow> (unit, EnvelopeError) result" where
  "validate_envelope_scope venue source payload_source =
     (let source_venue = PmProductSource_venue source
      in if venue \<noteq> source_venue then Err (VenueSourceMismatch venue source_venue)
         else if source \<noteq> payload_source then Err (PayloadSourceMismatch source payload_source)
         else Ok ())"

text \<open>The first argument of the two constructors is the payload's \<open>PmSourceBound::source\<close>.\<close>

definition ReceivedEventEnvelope_new ::
    "('p \<Rightarrow> PmProductSource) \<Rightarrow> Venue \<Rightarrow> PmProductSource \<Rightarrow> PmConnectionId \<Rightarrow> ReceivedEventClock
      \<Rightarrow> EventOrdering \<Rightarrow> 'p \<Rightarrow> ('p ReceivedEventEnvelope, EnvelopeError) result" where
  "ReceivedEventEnvelope_new payload_source venue source connection clock evidence payload =
     bind_result (validate_envelope_scope venue source (payload_source payload)) (\<lambda>_.
       Ok \<lparr>received_venue = venue, received_source = source, received_connection_id = connection,
           received_clock = clock, received_ordering = evidence, received_payload = payload\<rparr>)"

definition ReceivedEventEnvelope_service_at ::
    "'p ReceivedEventEnvelope \<Rightarrow> u64 \<Rightarrow> ('p EventEnvelope, EnvelopeError) result" where
  "ReceivedEventEnvelope_service_at envelope service =
     bind_result (ReceivedEventClock_service_at (received_clock envelope) service) (\<lambda>clock.
       Ok \<lparr>env_venue = received_venue envelope, env_source = received_source envelope,
           env_connection_id = received_connection_id envelope, env_clock = clock,
           env_ordering = received_ordering envelope, env_payload = received_payload envelope\<rparr>)"

definition EventEnvelope_new ::
    "('p \<Rightarrow> PmProductSource) \<Rightarrow> Venue \<Rightarrow> PmProductSource \<Rightarrow> PmConnectionId \<Rightarrow> EventClock
      \<Rightarrow> EventOrdering \<Rightarrow> 'p \<Rightarrow> ('p EventEnvelope, EnvelopeError) result" where
  "EventEnvelope_new payload_source venue source connection clock evidence payload =
     bind_result (validate_envelope_scope venue source (payload_source payload)) (\<lambda>_.
       Ok \<lparr>env_venue = venue, env_source = source, env_connection_id = connection,
           env_clock = clock, env_ordering = evidence, env_payload = payload\<rparr>)"

section \<open>Source-bound payloads\<close>

lemma validate_envelope_scope_Ok:
  "validate_envelope_scope venue source payload_source = Ok u \<longleftrightarrow>
     venue = PmProductSource_venue source \<and> source = payload_source"
  by (auto simp: validate_envelope_scope_def Let_def)

lemma ReceivedEventClock_new_Ok:
  "ReceivedEventClock_new venue wall receive = Ok c \<longleftrightarrow>
     venue \<noteq> Some 0 \<and> wall \<noteq> 0 \<and> receive \<noteq> 0
     \<and> c = \<lparr>rc_venue_event_timestamp_ns = venue, rc_local_wall_receive_ns = wall, rc_monotonic_receive_ns = receive\<rparr>"
  by (auto simp: ReceivedEventClock_new_def)

locale source_bound =
  fixes source_of :: "'p \<Rightarrow> PmProductSource"
    and constructed :: "'p \<Rightarrow> bool"
    and bound_venue :: Venue
  assumes constructed_venue: "constructed payload \<Longrightarrow> PmProductSource_venue (source_of payload) = bound_venue"
begin

lemma received_envelope_scope:
  assumes "constructed payload"
    and "ReceivedEventEnvelope_new source_of venue source connection clock evidence payload = Ok envelope"
  shows "received_venue envelope = bound_venue" "received_source envelope = source_of payload"
    "received_payload envelope = payload" "received_ordering envelope = evidence"
  using assms constructed_venue [OF assms(1)]
  by (auto simp: ReceivedEventEnvelope_new_def validate_envelope_scope_Ok)

lemma received_envelope_iff:
  assumes "constructed payload"
  shows "is_ok (ReceivedEventEnvelope_new source_of venue source connection clock evidence payload)
    \<longleftrightarrow> venue = bound_venue \<and> source = source_of payload"
  using constructed_venue [OF assms]
  by (auto simp: ReceivedEventEnvelope_new_def validate_envelope_scope_def Let_def)

end

interpretation market_bound: source_bound market_source
  "\<lambda>e. \<exists>s i r m. PmMarketEvent_new s i r m = Ok e" Polymarket
  by unfold_locales (auto simp: PmMarketEvent_new_def validate_source_Ok)

interpretation book_bound: source_bound book_source
  "\<lambda>e. \<exists>s i r u. PmBookEvent_new s i r u = Ok e" Polymarket
  by unfold_locales (auto simp: PmBookEvent_new_def validate_source_Ok)

interpretation order_bound: source_bound order_source
  "\<lambda>e. \<exists>s i n d p g. PmOrderEvent_new s i n d p g = Ok e" Polymarket
  by unfold_locales (auto simp: PmOrderEvent_new_def validate_source_Ok)

interpretation fill_bound: source_bound fill_source
  "\<lambda>e. \<exists>s i k n x. PmFillEvent_new s i k n x = Ok e" Polymarket
  by unfold_locales (auto simp: PmFillEvent_new_def validate_source_Ok split: option.splits if_splits)

interpretation balance_bound: source_bound balance_source
  "\<lambda>e. \<exists>s a x b r. PmBalanceEvent_new s a x b r = Ok e" Polymarket
  by unfold_locales (auto simp: PmBalanceEvent_new_def validate_source_Ok)

interpretation allowance_bound: source_bound allowance_source
  "\<lambda>e. \<exists>s p v r. PmAllowanceEvent_new s p v r = Ok e" Polymarket
  by unfold_locales (auto simp: PmAllowanceEvent_new_def validate_source_Ok split: if_splits)

interpretation position_bound: source_bound position_source
  "\<lambda>e. \<exists>s a i q v r. PmPositionEvent_new s a i q v r = Ok e" Polymarket
  by unfold_locales (auto simp: PmPositionEvent_new_def validate_source_Ok)

interpretation reference_bound: source_bound reference_source
  "\<lambda>e. \<exists>s h p. OkxReferenceEvent_new s h p = Ok e" Okx
  by unfold_locales (auto simp: OkxReferenceEvent_new_Ok)

section \<open>Properties\<close>

text \<open>
  C35: an envelope that is serviced measures its queue age without wrapping: the service time is
  not before the receive time and the age is their exact difference.  Servicing adds the service
  time and changes nothing else: the venue time, the wall and the monotonic receive time, the
  venue, the source, the connection, the ordering evidence and the payload are those received.
  Servicing succeeds exactly at the times at or after the receive time.
\<close>

theorem serviced_envelope_clock:
  assumes "ReceivedEventClock_new venue_time wall receive = Ok (received_clock received)"
  shows "(ReceivedEventEnvelope_service_at received service = Ok envelope \<longrightarrow>
      monotonic_receive_ns (env_clock envelope) \<le> monotonic_service_ns (env_clock envelope)
      \<and> unat (queue_age_ns (env_clock envelope)) = unat service - unat receive
      \<and> env_clock envelope = \<lparr>venue_event_timestamp_ns = venue_time, local_wall_receive_ns = wall,
          monotonic_receive_ns = receive, monotonic_service_ns = service\<rparr>
      \<and> env_venue envelope = received_venue received \<and> env_source envelope = received_source received
      \<and> env_connection_id envelope = received_connection_id received
      \<and> env_ordering envelope = received_ordering received \<and> env_payload envelope = received_payload received)
    \<and> (is_ok (ReceivedEventEnvelope_service_at received service) \<longleftrightarrow> receive \<le> service)"
proof -
  have c: "received_clock received = \<lparr>rc_venue_event_timestamp_ns = venue_time, rc_local_wall_receive_ns = wall,
      rc_monotonic_receive_ns = receive\<rparr>" "receive \<noteq> 0"
    using assms by (simp_all add: ReceivedEventClock_new_Ok)
  then have "receive \<le> service \<Longrightarrow> service \<noteq> 0"
    by (auto simp: word_le_nat_alt unat_eq_zero)
  then show ?thesis
    using c by (auto simp: ReceivedEventEnvelope_service_at_def ReceivedEventClock_service_at_def
        queue_age_ns_def unat_sub not_less split: if_splits)
qed

theorem serviced_envelope_clock_witness:
  "let received = \<lparr>received_venue = Polymarket, received_source = PolymarketMarket 1 2,
         received_connection_id = BoundedAscii 1 (99 # replicate 95 0),
         received_clock = \<lparr>rc_venue_event_timestamp_ns = Some 3, rc_local_wall_receive_ns = 5, rc_monotonic_receive_ns = 7\<rparr>,
         received_ordering = \<lparr>connection_epoch = 1, snapshot_revision = None, venue_sequence = None,
           venue_hash = None, local_ingress_sequence = 1\<rparr>, received_payload = ()\<rparr>
   in \<exists>envelope. ReceivedEventEnvelope_service_at received 9 = Ok envelope
      \<and> env_clock envelope = \<lparr>venue_event_timestamp_ns = Some 3, local_wall_receive_ns = 5,
          monotonic_receive_ns = 7, monotonic_service_ns = 9\<rparr>
      \<and> unat (queue_age_ns (env_clock envelope)) = 2
      \<and> env_connection_id envelope = BoundedAscii 1 (99 # replicate 95 0)"
proof -
  let ?received = "\<lparr>received_venue = Polymarket, received_source = PolymarketMarket 1 2,
      received_connection_id = BoundedAscii 1 (99 # replicate 95 0),
      received_clock = \<lparr>rc_venue_event_timestamp_ns = Some 3, rc_local_wall_receive_ns = 5, rc_monotonic_receive_ns = 7\<rparr>,
      received_ordering = \<lparr>connection_epoch = 1, snapshot_revision = None, venue_sequence = None,
        venue_hash = None, local_ingress_sequence = 1\<rparr>, received_payload = ()\<rparr>"
  have clock: "ReceivedEventClock_new (Some 3) 5 7 = Ok (received_clock ?received)"
    by (simp add: ReceivedEventClock_new_def)
  note serviced = serviced_envelope_clock [OF clock, of 9]
  have "is_ok (ReceivedEventEnvelope_service_at ?received 9)"
    using serviced [THEN conjunct2] by simp
  then obtain envelope where e: "ReceivedEventEnvelope_service_at ?received 9 = Ok envelope"
    by (cases "ReceivedEventEnvelope_service_at ?received 9") simp_all
  show ?thesis
    using serviced [THEN conjunct1, rule_format, OF e] e by (simp add: Let_def queue_age_ns_def)
qed

text \<open>
  C36: no payload can be enveloped under another source.  For a constructed book event the
  envelope constructor accepts exactly the Polymarket venue together with the event's own
  source; every other combination is an error, and the accepted envelope carries the event.
\<close>

theorem book_envelope_scope:
  assumes "PmBookEvent_new event_source instrument revision update = Ok event"
  shows "(is_ok (ReceivedEventEnvelope_new book_source venue source connection clock evidence event)
      \<longleftrightarrow> venue = Polymarket \<and> source = event_source)
    \<and> (ReceivedEventEnvelope_new book_source venue source connection clock evidence event = Ok envelope \<longrightarrow>
        received_payload envelope = event
        \<and> (\<exists>handle. received_source envelope = PolymarketMarket handle (handle_token instrument)))"
proof -
  have made: "\<exists>s i r u. PmBookEvent_new s i r u = Ok event"
    using assms by blast
  have s: "book_source event = event_source" "\<exists>handle. event_source = PolymarketMarket handle (handle_token instrument)"
    using assms by (auto simp: PmBookEvent_new_def validate_source_Ok)
  show ?thesis
    using book_bound.received_envelope_iff [OF made] book_bound.received_envelope_scope [OF made] s by metis
qed

theorem book_envelope_scope_witness:
  "\<forall>connection clock evidence. \<exists>event. PmBookEvent_new (PolymarketMarket 1 4) (PmInstrumentHandle 3 4) 1
       (TopCheck \<lparr>check_bid = None, check_ask = None\<rparr>) = Ok event
     \<and> is_ok (ReceivedEventEnvelope_new book_source Polymarket (PolymarketMarket 1 4) connection clock evidence event)
     \<and> \<not> is_ok (ReceivedEventEnvelope_new book_source Polymarket (PolymarketMarket 1 5) connection clock evidence event)"
proof -
  obtain event where e: "PmBookEvent_new (PolymarketMarket 1 4) (PmInstrumentHandle 3 4) 1
      (TopCheck \<lparr>check_bid = None, check_ask = None\<rparr>) = Ok event"
    by (simp add: PmBookEvent_new_def validate_revision_def)
  show ?thesis
    using e book_envelope_scope [OF e, THEN conjunct1] by (intro allI exI [of _ event]) auto
qed

end
