(* ===== verification/Pm_Readiness.thy ===== *)
theory Pm_Readiness
  imports Pm_Envelope
begin

text \<open>
  Public readiness of \<open>crates/reap-pm-state/src/readiness.rs\<close> (metadata fingerprints,
  contracts, observations, freshness limits, readiness reasons) and the contract checks of
  \<open>crates/reap-pm-state/src/book/metadata.rs\<close> that compare an observed market with the
  configured one.
\<close>

section \<open>Contracts and observations\<close>

type_synonym PmMetadataFingerprint = "u8 list"
type_synonym PmDomainFingerprint = "u8 list"

datatype PmMetadataContractError =
    ZeroMetadataFingerprint
  | ZeroDomainFingerprint
  | ZeroUnit
  | ZeroFreshnessLimit
  | ZeroMetadataRevision
  | ZeroObservationTime

definition PmMetadataFingerprint_new :: "u8 list \<Rightarrow> (PmMetadataFingerprint, PmMetadataContractError) result" where
  "PmMetadataFingerprint_new bytes =
     (if bytes = replicate 32 0 then Err ZeroMetadataFingerprint else Ok bytes)"

definition PmDomainFingerprint_new :: "u8 list \<Rightarrow> (PmDomainFingerprint, PmMetadataContractError) result" where
  "PmDomainFingerprint_new bytes =
     (if bytes = replicate 32 0 then Err ZeroDomainFingerprint else Ok bytes)"

datatype PmProtocolProfile = ClobV2 | Unsupported u16

record PmUnitContract =
  price_units_per_one :: u32
  quantity_units_per_one :: u32
  collateral_units_per_one :: u32
  lot_units :: u32

definition PmUnitContract_new ::
    "u32 \<Rightarrow> u32 \<Rightarrow> u32 \<Rightarrow> u32 \<Rightarrow> (PmUnitContract, PmMetadataContractError) result" where
  "PmUnitContract_new price quantity collateral lot =
     (if price = 0 \<or> quantity = 0 \<or> collateral = 0 \<or> lot = 0 then Err ZeroUnit
      else Ok \<lparr>price_units_per_one = price, quantity_units_per_one = quantity,
               collateral_units_per_one = collateral, lot_units = lot\<rparr>)"

definition PmUnitContract_goal_f_clob_v2 :: PmUnitContract where
  "PmUnitContract_goal_f_clob_v2 =
     \<lparr>price_units_per_one = PM_PROTOCOL_SCALE, quantity_units_per_one = PM_PROTOCOL_SCALE,
      collateral_units_per_one = PM_PROTOCOL_SCALE, lot_units = CLOB_V2_LOT_UNITS\<rparr>"

record PmMetadataContract =
  contract_market :: PmMarketMetadata
  contract_protocol :: PmProtocolProfile
  contract_units :: PmUnitContract
  contract_domain :: PmDomainFingerprint

definition PmMetadataContract_goal_f_clob_v2 ::
    "PmMarketMetadata \<Rightarrow> PmDomainFingerprint \<Rightarrow> PmMetadataContract" where
  "PmMetadataContract_goal_f_clob_v2 market domain =
     \<lparr>contract_market = market, contract_protocol = ClobV2,
      contract_units = PmUnitContract_goal_f_clob_v2, contract_domain = domain\<rparr>"

record PmMetadataObservation =
  obs_instrument :: PmInstrumentHandle
  obs_revision :: SnapshotRevision
  obs_fingerprint :: PmMetadataFingerprint
  obs_contract :: PmMetadataContract
  obs_monotonic_receive_ns :: u64

definition PmMetadataObservation_new ::
    "PmInstrumentHandle \<Rightarrow> SnapshotRevision \<Rightarrow> PmMetadataFingerprint \<Rightarrow> PmMetadataContract \<Rightarrow> u64
      \<Rightarrow> (PmMetadataObservation, PmMetadataContractError) result" where
  "PmMetadataObservation_new instrument revision fingerprint contract receive =
     (if revision = 0 then Err ZeroMetadataRevision
      else if receive = 0 then Err ZeroObservationTime
      else Ok \<lparr>obs_instrument = instrument, obs_revision = revision, obs_fingerprint = fingerprint,
               obs_contract = contract, obs_monotonic_receive_ns = receive\<rparr>)"

record PmBookFreshness =
  metadata_max_age_ns :: u64
  book_max_age_ns :: u64

definition PmBookFreshness_new :: "u64 \<Rightarrow> u64 \<Rightarrow> (PmBookFreshness, PmMetadataContractError) result" where
  "PmBookFreshness_new metadata book =
     (if metadata = 0 \<or> book = 0 then Err ZeroFreshnessLimit
      else Ok \<lparr>metadata_max_age_ns = metadata, book_max_age_ns = book\<rparr>)"

datatype PmMetadataDrift =
    Instrument
  | Identity
  | OutcomeLabel
  | Protocol
  | Units
  | Lot
  | Grid
  | Minimum
  | NegativeRisk
  | Domain
  | RequiredSpenders

datatype PmPublicReadinessReason =
    MetadataMissing
  | MetadataFingerprintMismatch
  | MetadataRevisionNotIncreasing
  | MetadataDrift PmMetadataDrift
  | MarketInactive
  | MarketClosed
  | MarketArchived
  | OrdersNotAccepted
  | OrderBookDisabled
  | ConnectionUnavailable
  | SnapshotMissing
  | ConnectionEpochInvalid
  | ConnectionEpochMismatch
  | MetadataRevisionMismatch
  | SnapshotRevisionMismatch
  | DuplicateIngress
  | ReorderedIngress
  | TooManyLevels
  | DeleteInSnapshot
  | DuplicateLevel
  | PriceOffTick
  | EmptyBook
  | CrossedBook
  | MissingDeleteLevel
  | BboMismatch
  | HashMismatch
  | Disconnected
  | HeartbeatTimeout
  | Gap
  | Overflow
  | PendingOverflow
  | PendingBookStale
  | InvalidTransition
  | MetadataStale
  | BookStale
  | ClockRegression

record PmBookReadiness =
  readiness_reason :: "PmPublicReadinessReason option"
  readiness_metadata_revision :: "SnapshotRevision option"
  readiness_snapshot_revision :: "SnapshotRevision option"

definition PmBookReadiness_unavailable ::
    "PmPublicReadinessReason \<Rightarrow> SnapshotRevision option \<Rightarrow> SnapshotRevision option \<Rightarrow> PmBookReadiness" where
  "PmBookReadiness_unavailable reason metadata snapshot =
     \<lparr>readiness_reason = Some reason, readiness_metadata_revision = metadata,
      readiness_snapshot_revision = snapshot\<rparr>"

definition PmBookReadiness_ready :: "SnapshotRevision \<Rightarrow> SnapshotRevision \<Rightarrow> PmBookReadiness" where
  "PmBookReadiness_ready metadata snapshot =
     \<lparr>readiness_reason = None, readiness_metadata_revision = Some metadata,
      readiness_snapshot_revision = Some snapshot\<rparr>"

definition PmBookReadiness_is_ready :: "PmBookReadiness \<Rightarrow> bool" where
  "PmBookReadiness_is_ready r \<longleftrightarrow> readiness_reason r = None"

section \<open>Contract checks\<close>

definition validate_lifecycle :: "PmMarketMetadata \<Rightarrow> (unit, PmPublicReadinessReason) result" where
  "validate_lifecycle metadata =
     (let lifecycle = md_lifecycle metadata
      in if \<not> active lifecycle then Err MarketInactive
         else if closed lifecycle then Err MarketClosed
         else if archived lifecycle then Err MarketArchived
         else if \<not> accepting_orders lifecycle then Err OrdersNotAccepted
         else if \<not> order_book_enabled lifecycle then Err OrderBookDisabled
         else Ok ())"

definition validate_expected_contract :: "PmMetadataContract \<Rightarrow> (unit, PmPublicReadinessReason) result" where
  "validate_expected_contract contract =
     (let expected_units = PmUnitContract_goal_f_clob_v2; units = contract_units contract
      in if contract_protocol contract \<noteq> ClobV2 then Err (MetadataDrift Protocol)
         else if lot_units units \<noteq> lot_units expected_units then Err (MetadataDrift Lot)
         else if price_units_per_one units \<noteq> PM_PROTOCOL_SCALE
              \<or> quantity_units_per_one units \<noteq> quantity_units_per_one expected_units
              \<or> collateral_units_per_one units \<noteq> collateral_units_per_one expected_units
           then Err (MetadataDrift Units)
         else validate_lifecycle (contract_market contract))"

definition validate_observed_contract ::
    "PmMetadataContract \<Rightarrow> PmMetadataContract \<Rightarrow> (unit, PmPublicReadinessReason) result" where
  "validate_observed_contract expected actual =
     (if contract_protocol actual \<noteq> contract_protocol expected then Err (MetadataDrift Protocol)
      else if lot_units (contract_units actual) \<noteq> lot_units (contract_units expected) then Err (MetadataDrift Lot)
      else if price_units_per_one (contract_units actual) \<noteq> price_units_per_one (contract_units expected)
           \<or> quantity_units_per_one (contract_units actual) \<noteq> quantity_units_per_one (contract_units expected)
           \<or> collateral_units_per_one (contract_units actual) \<noteq> collateral_units_per_one (contract_units expected)
        then Err (MetadataDrift Units)
      else let expected_market = contract_market expected; actual_market = contract_market actual
           in if md_condition actual_market \<noteq> md_condition expected_market
                 \<or> md_market actual_market \<noteq> md_market expected_market
                 \<or> outcome_token (md_outcome actual_market) \<noteq> outcome_token (md_outcome expected_market)
                then Err (MetadataDrift Identity)
              else if outcome_label (md_outcome actual_market) \<noteq> outcome_label (md_outcome expected_market)
                then Err (MetadataDrift OutcomeLabel)
              else bind_result (validate_lifecycle actual_market) (\<lambda>_.
                if md_tick actual_market \<noteq> md_tick expected_market then Err (MetadataDrift Grid)
                else if md_minimum_order_size actual_market \<noteq> md_minimum_order_size expected_market
                  then Err (MetadataDrift Minimum)
                else if md_negative_risk actual_market \<noteq> md_negative_risk expected_market
                  then Err (MetadataDrift PmMetadataDrift.NegativeRisk)
                else if contract_domain actual \<noteq> contract_domain expected
                     \<or> md_chain actual_market \<noteq> md_chain expected_market
                     \<or> md_exchange actual_market \<noteq> md_exchange expected_market
                  then Err (MetadataDrift Domain)
                else if required_spenders actual_market \<noteq> required_spenders expected_market
                  then Err (MetadataDrift RequiredSpenders)
                else Ok ()))"

definition lifecycle_open :: "PmMarketMetadata \<Rightarrow> bool" where
  "lifecycle_open metadata \<longleftrightarrow>
     (let lifecycle = md_lifecycle metadata
      in active lifecycle \<and> \<not> closed lifecycle \<and> \<not> archived lifecycle \<and> accepting_orders lifecycle
         \<and> order_book_enabled lifecycle)"

section \<open>What the checks establish\<close>

lemma validate_lifecycle_Ok: "validate_lifecycle metadata = Ok u \<longleftrightarrow> lifecycle_open metadata"
  by (auto simp: validate_lifecycle_def lifecycle_open_def Let_def)

lemma spender_array_determined:
  assumes "metadata_ok a" "metadata_ok b" "required_spenders a = required_spenders b"
  shows "md_required_spenders a = md_required_spenders b" "md_required_spender_count a = md_required_spender_count b"
  using assms unfolding metadata_ok_def by (metis, simp add: word_unat_eq_iff)

section \<open>Properties\<close>

text \<open>
  C31: an observed market contract is accepted exactly when it is the configured contract, up to
  the lifecycle flags, and the market is open for orders.  For constructed metadata rows every
  field is pinned: the only field in which an accepted observation may differ from the
  configuration is the lifecycle, and then only between open states.
\<close>

theorem validate_observed_contract_exact:
  assumes "metadata_ok (contract_market expected)" "metadata_ok (contract_market actual)"
  shows "validate_observed_contract expected actual = Ok () \<longleftrightarrow>
    lifecycle_open (contract_market actual)
    \<and> actual = expected\<lparr>contract_market :=
        (contract_market expected)\<lparr>md_lifecycle := md_lifecycle (contract_market actual)\<rparr>\<rparr>"
    (is "?lhs \<longleftrightarrow> ?rhs")
proof
  assume ?lhs
  then have c: "lifecycle_open (contract_market actual)"
    "required_spenders (contract_market actual) = required_spenders (contract_market expected)"
    and e: "contract_protocol actual = contract_protocol expected"
      "contract_units actual = contract_units expected" "contract_domain actual = contract_domain expected"
    and m: "md_condition (contract_market actual) = md_condition (contract_market expected)"
      "md_market (contract_market actual) = md_market (contract_market expected)"
      "md_outcome (contract_market actual) = md_outcome (contract_market expected)"
      "md_tick (contract_market actual) = md_tick (contract_market expected)"
      "md_minimum_order_size (contract_market actual) = md_minimum_order_size (contract_market expected)"
      "md_negative_risk (contract_market actual) = md_negative_risk (contract_market expected)"
      "md_chain (contract_market actual) = md_chain (contract_market expected)"
      "md_exchange (contract_market actual) = md_exchange (contract_market expected)"
    by (auto simp: validate_observed_contract_def validate_lifecycle_Ok Let_def split: if_splits
        intro!: PmUnitContract.equality PmOutcomeMetadata.equality)
  note s = spender_array_determined [OF assms(2,1) c(2)]
  show ?rhs
    using c(1) e m s by (auto intro!: PmMetadataContract.equality PmMarketMetadata.equality)
next
  assume r: ?rhs
  then obtain l where a: "actual = expected\<lparr>contract_market := (contract_market expected)\<lparr>md_lifecycle := l\<rparr>\<rparr>"
    by blast
  have "required_spenders ((contract_market expected)\<lparr>md_lifecycle := l\<rparr>) = required_spenders (contract_market expected)"
    by (simp add: required_spenders_def)
  then show ?lhs
    using r unfolding a
    by (auto simp: validate_observed_contract_def validate_lifecycle_Ok Let_def)
qed

theorem validate_observed_contract_exact_witness:
  "\<exists>md. PmMarketMetadata_new sample_market_row = Ok md
     \<and> validate_observed_contract (PmMetadataContract_goal_f_clob_v2 md (replicate 32 1)) (PmMetadataContract_goal_f_clob_v2 md (replicate 32 1)) = Ok ()"
proof -
  obtain md where md: "PmMarketMetadata_new sample_market_row = Ok md" and md_eq: "md = sample_metadata"
    using sample_metadata_new by blast
  have ok: "metadata_ok md"
    by (rule PmMarketMetadata_new_Ok(1) [OF md]) (simp add: sample_market_row_def sample_metadata_def Let_def)
  have "lifecycle_open md"
    by (simp add: md_eq sample_metadata_def lifecycle_open_def Let_def)
  then show ?thesis
    using validate_observed_contract_exact [of "PmMetadataContract_goal_f_clob_v2 md (replicate 32 1)"
        "PmMetadataContract_goal_f_clob_v2 md (replicate 32 1)"] ok md
    by (auto simp: PmMetadataContract_goal_f_clob_v2_def)
qed

end
