(* ===== verification/Pm_Book_Canonical.thy ===== *)
theory Pm_Book_Canonical
  imports Pm_Readiness
begin

text \<open>
  The canonical level vector of \<open>crates/reap-pm-state/src/book/canonical.rs\<close>: bids first in
  descending price, then asks in ascending price, one entry per side and price.  The
  mutating functions return the vector they leave behind together with their result, also
  when they fail.

  The vector stands for the finite map from side and price to level.  Its search and update
  facts come from the locale \<open>keyed_order\<close>, interpreted here on \<open>compare_keys\<close>.
\<close>

section \<open>Definitions\<close>

datatype BookKey = BookKey (key_side: PmBookSide) (key_price: PmPrice)

definition level_key :: "PmBookLevel \<Rightarrow> BookKey" where
  "level_key level = BookKey (level_side level) (level_price level)"

definition compare_keys :: "BookKey \<Rightarrow> BookKey \<Rightarrow> ordering" where
  "compare_keys left right =
     (case (key_side left, key_side right) of
        (Bid, Ask) \<Rightarrow> Less
      | (Ask, Bid) \<Rightarrow> Greater
      | (Bid, Bid) \<Rightarrow> compare_of (key_price right) (key_price left)
      | (Ask, Ask) \<Rightarrow> compare_of (key_price left) (key_price right))"

definition compare_levels :: "PmBookLevel \<Rightarrow> PmBookLevel \<Rightarrow> ordering" where
  "compare_levels left right = compare_keys (level_key left) (level_key right)"

definition compare_level_to_key :: "PmBookLevel \<Rightarrow> BookKey \<Rightarrow> ordering" where
  "compare_level_to_key level key = compare_keys (level_key level) key"

definition same_key :: "PmBookLevel \<Rightarrow> PmBookLevel \<Rightarrow> bool" where
  "same_key left right \<longleftrightarrow> level_side left = level_side right \<and> level_price left = level_price right"

definition canonical_top :: "PmBookLevel list \<Rightarrow> (PmPrice \<times> PmPrice, PmPublicReadinessReason) result" where
  "canonical_top levels =
     (let bid = map_option level_price (find (\<lambda>level. level_side level = Bid) levels);
          ask = map_option level_price (find (\<lambda>level. level_side level = Ask) levels)
      in case (bid, ask) of
           (Some b, Some a) \<Rightarrow> if a \<le> b then Err CrossedBook else Ok (b, a)
         | _ \<Rightarrow> Err EmptyBook)"

definition off_tick :: "PmTick \<Rightarrow> PmBookLevel \<Rightarrow> bool" where
  "off_tick tick level \<longleftrightarrow> \<not> is_ok (PmPrice_validate_tick (level_price level) tick)"

primrec check_levels :: "PmTick \<Rightarrow> bool \<Rightarrow> PmBookLevel list \<Rightarrow> PmPublicReadinessReason option" where
  "check_levels tick snapshot [] = None"
| "check_levels tick snapshot (level # levels) =
     (if snapshot \<and> level_quantity level = Delete then Some DeleteInSnapshot
      else if level_quantity level = Delete then Some InvalidTransition
      else if off_tick tick level then Some PmPublicReadinessReason.PriceOffTick
      else check_levels tick snapshot levels)"

definition validate_and_sort_levels ::
    "PmBookLevel list \<Rightarrow> PmMarketMetadata \<Rightarrow> bool \<Rightarrow> PmBookLevel list \<times> (unit, PmPublicReadinessReason) result" where
  "validate_and_sort_levels levels metadata snapshot =
     (if MAX_PM_BOOK_LEVELS < length levels then (levels, Err TooManyLevels)
      else case check_levels (md_tick metadata) snapshot levels of
             Some reason \<Rightarrow> (levels, Err reason)
           | None \<Rightarrow>
               (let sorted = sort_unstable_by compare_levels levels
                in if adjacent_any same_key sorted then (sorted, Err DuplicateLevel)
                   else (sorted, bind_result (canonical_top sorted) (\<lambda>_. Ok ()))))"

definition apply_change ::
    "PmBookLevel list \<Rightarrow> PmBookLevel \<Rightarrow> PmBookLevel list \<times> (unit, PmPublicReadinessReason) result" where
  "apply_change levels change =
     (case binary_search_by (\<lambda>candidate. compare_level_to_key candidate (level_key change)) levels of
        Ok index \<Rightarrow>
          if level_quantity change = Delete then (vec_remove index levels, Ok ())
          else (levels[index := change], Ok ())
      | Err index \<Rightarrow>
          if level_quantity change = Delete then (levels, Err MissingDeleteLevel)
          else if length levels = MAX_PM_BOOK_LEVELS then (levels, Err TooManyLevels)
          else (vec_insert index change levels, Ok ()))"

text \<open>The two loops of \<open>apply_delta_batch\<close> that run \<open>apply_change\<close> over a filtered batch.\<close>

primrec apply_changes ::
    "PmBookLevel list \<Rightarrow> PmBookLevel list \<Rightarrow> PmBookLevel list \<times> (unit, PmPublicReadinessReason) result" where
  "apply_changes levels [] = (levels, Ok ())"
| "apply_changes levels (change # changes) =
     (case apply_change levels change of
        (levels', Ok _) \<Rightarrow> apply_changes levels' changes
      | (levels', Err reason) \<Rightarrow> (levels', Err reason))"

section \<open>The book as a map\<close>

abbreviation book_sorted :: "PmBookLevel list \<Rightarrow> bool" where
  "book_sorted \<equiv> sorted_by_key compare_keys level_key"

abbreviation book_map :: "PmBookLevel list \<Rightarrow> BookKey \<rightharpoonup> PmBookLevel" where
  "book_map \<equiv> index_map level_key"

text \<open>What one change, and one batch of changes, means on the map.\<close>

definition change_map :: "(BookKey \<rightharpoonup> PmBookLevel) \<Rightarrow> PmBookLevel \<Rightarrow> (BookKey \<rightharpoonup> PmBookLevel)" where
  "change_map m change =
     m(level_key change := (if level_quantity change = Delete then None else Some change))"

definition delta_map :: "(BookKey \<rightharpoonup> PmBookLevel) \<Rightarrow> PmBookLevel list \<Rightarrow> (BookKey \<rightharpoonup> PmBookLevel)" where
  "delta_map m changes key =
     (case book_map changes key of
        None \<Rightarrow> m key
      | Some change \<Rightarrow> if level_quantity change = Delete then None else Some change)"

text \<open>The shape of a committed book.\<close>

definition canonical_book :: "PmTick \<Rightarrow> PmBookLevel list \<Rightarrow> bool" where
  "canonical_book tick levels \<longleftrightarrow>
     book_sorted levels \<and> length levels \<le> MAX_PM_BOOK_LEVELS
     \<and> (\<forall>level \<in> set levels. level_quantity level \<noteq> Delete \<and> \<not> off_tick tick level)
     \<and> is_ok (canonical_top levels)"

section \<open>The key order\<close>

lemma level_key_simps [simp]:
  "key_side (level_key level) = level_side level" "key_price (level_key level) = level_price level"
  by (simp_all add: level_key_def)

lemma compare_keys_Less:
  "compare_keys a b = Less \<longleftrightarrow>
     (case (key_side a, key_side b) of
        (Bid, Ask) \<Rightarrow> True
      | (Ask, Bid) \<Rightarrow> False
      | (Bid, Bid) \<Rightarrow> key_price b < key_price a
      | (Ask, Ask) \<Rightarrow> key_price a < key_price b)"
  by (cases "key_side a"; cases "key_side b") (simp_all add: compare_keys_def)

lemma compare_keys_comparator: "comparator compare_keys"
proof
  fix a b c :: BookKey
  show "compare_keys a b = Equal \<longleftrightarrow> a = b"
    by (cases a; cases b; cases "key_side a"; cases "key_side b") (auto simp: compare_keys_def)
  show "compare_keys a b = Greater \<longleftrightarrow> compare_keys b a = Less"
    by (cases "key_side a"; cases "key_side b") (auto simp: compare_keys_def)
  show "compare_keys a b = Less \<Longrightarrow> compare_keys b c = Less \<Longrightarrow> compare_keys a c = Less"
    by (cases "key_side a"; cases "key_side b"; cases "key_side c") (auto simp: compare_keys_Less)
qed

interpretation book_order: keyed_order compare_keys level_key
  by (rule keyed_order.intro [OF compare_keys_comparator])

interpretation key_order: keyed_order compare_keys "\<lambda>k. k"
  by (rule keyed_order.intro [OF compare_keys_comparator])

lemma same_key_eq: "same_key = (\<lambda>a b. level_key a = level_key b)"
  by (auto simp: same_key_def level_key_def fun_eq_iff)

lemma compare_levels_eq: "compare_levels = (\<lambda>a b. compare_keys (level_key a) (level_key b))"
  by (simp add: compare_levels_def fun_eq_iff)

lemma check_levels_None:
  "check_levels tick snapshot levels = None \<longleftrightarrow>
     (\<forall>level \<in> set levels. level_quantity level \<noteq> Delete \<and> \<not> off_tick tick level)"
  by (induction levels) auto

lemma validate_and_sort_levels_Ok:
  assumes "validate_and_sort_levels levels metadata snapshot = (out, Ok ())"
  shows "canonical_book (md_tick metadata) out" "out = sort_unstable_by compare_levels levels"
proof -
  have s: "length levels \<le> MAX_PM_BOOK_LEVELS" "check_levels (md_tick metadata) snapshot levels = None"
    "out = sort_unstable_by compare_levels levels" "\<not> adjacent_any same_key out" "is_ok (canonical_top out)"
    using assms by (auto simp: validate_and_sort_levels_def Let_def split: if_splits option.splits)
  have "book_sorted out"
    using s(3,4) book_order.sort_no_duplicate_sorted [of levels] by (simp add: same_key_eq compare_levels_eq)
  then show "canonical_book (md_tick metadata) out"
    using s(1,2,5) by (simp add: canonical_book_def check_levels_None s(3))
  show "out = sort_unstable_by compare_levels levels"
    by (rule s(3))
qed

section \<open>Changes\<close>

lemma apply_change_Ok:
  assumes "book_sorted levels" "apply_change levels change = (levels', Ok ())"
  shows "book_sorted levels'" "book_map levels' = change_map (book_map levels) change"
    "length levels \<le> MAX_PM_BOOK_LEVELS \<Longrightarrow> length levels' \<le> MAX_PM_BOOK_LEVELS"
proof -
  let ?s = "binary_search_by (\<lambda>l. compare_keys (level_key l) (level_key change)) levels"
  have "book_sorted levels' \<and> book_map levels' = change_map (book_map levels) change
      \<and> (length levels \<le> MAX_PM_BOOK_LEVELS \<longrightarrow> length levels' \<le> MAX_PM_BOOK_LEVELS)"
  proof (cases ?s)
    case (Ok i)
    note i = book_order.search_Ok [OF assms(1) Ok]
    show ?thesis
      using assms(2) i Ok book_order.sorted_remove [OF assms(1)] book_order.index_map_remove [OF assms(1)]
        book_order.sorted_replace [OF assms(1)] book_order.index_map_replace [OF assms(1)]
      by (auto simp: apply_change_def compare_level_to_key_def change_map_def split: if_splits)
  next
    case (Err i)
    show ?thesis
      using assms(2) Err book_order.sorted_insert [OF assms(1) Err] book_order.index_map_insert [OF assms(1) Err]
      by (auto simp: apply_change_def compare_level_to_key_def change_map_def split: if_splits)
  qed
  then show "book_sorted levels'" "book_map levels' = change_map (book_map levels) change"
    "length levels \<le> MAX_PM_BOOK_LEVELS \<Longrightarrow> length levels' \<le> MAX_PM_BOOK_LEVELS"
    by blast+
qed

lemma apply_change_error:
  assumes "book_sorted levels" "apply_change levels change = (levels', Err reason)"
  shows "levels' = levels"
    "reason = MissingDeleteLevel \<and> level_quantity change = Delete \<and> book_map levels (level_key change) = None
     \<or> reason = TooManyLevels \<and> level_quantity change \<noteq> Delete \<and> length levels = MAX_PM_BOOK_LEVELS
       \<and> book_map levels (level_key change) = None"
  using assms book_order.search_Err_absent [OF assms(1), of "level_key change"]
  by (auto simp: apply_change_def compare_level_to_key_def book_order.index_map_None
      split: result.splits if_splits)

lemma apply_changes_append:
  "apply_changes levels (as @ bs) =
     (case apply_changes levels as of
        (levels', Ok _) \<Rightarrow> apply_changes levels' bs
      | (levels', Err reason) \<Rightarrow> (levels', Err reason))"
  by (induction as arbitrary: levels) (auto split: prod.splits result.splits)

lemma apply_changes_Ok:
  assumes "book_sorted levels" "apply_changes levels changes = (levels', Ok ())"
  shows "book_sorted levels'" "book_map levels' = foldl change_map (book_map levels) changes"
    "length levels \<le> MAX_PM_BOOK_LEVELS \<Longrightarrow> length levels' \<le> MAX_PM_BOOK_LEVELS"
  using assms
proof (induction changes arbitrary: levels)
  case (Cons c cs)
  {
    case 1
    then show ?case using Cons.IH(1) apply_change_Ok(1) [of levels c]
      by (auto split: prod.splits result.splits)
  next
    case 2
    then show ?case using Cons.IH(2) apply_change_Ok(1,2) [of levels c]
      by (auto split: prod.splits result.splits)
  next
    case 3
    then show ?case using Cons.IH(3) apply_change_Ok(1,3) [of levels c]
      by (auto split: prod.splits result.splits)
  }
qed simp_all

lemma change_map_foldl:
  "distinct (map level_key changes) \<Longrightarrow> foldl change_map m changes = delta_map m changes"
proof (induction changes arbitrary: m)
  case (Cons c cs)
  then have "book_map cs (level_key c) = None"
    by (simp add: book_order.index_map_None)
  with Cons show ?case
    by (auto simp: fun_eq_iff delta_map_def change_map_def book_order.index_map_Cons split: option.splits)
qed (simp add: fun_eq_iff delta_map_def index_map_def)

lemma delta_map_deletes_first:
  assumes "distinct (map level_key changes)"
  shows "foldl change_map m (filter P changes @ filter (\<lambda>c. \<not> P c) changes) = delta_map m changes"
proof -
  let ?cs = "filter P changes @ filter (\<lambda>c. \<not> P c) changes"
  have inj: "inj_on level_key (set changes)" and d: "distinct changes"
    using assms by (simp_all add: distinct_map)
  have dist: "distinct (map level_key ?cs)"
    using d inj by (auto simp: distinct_map inj_on_def)
  moreover have "set ?cs = set changes"
    by auto
  ultimately have "book_map ?cs = book_map changes"
    using assms by (intro book_order.index_map_same_set)
  then have "delta_map m ?cs = delta_map m changes"
    by (simp add: delta_map_def fun_eq_iff)
  then show ?thesis
    using change_map_foldl [OF dist] by simp
qed

section \<open>The top of a sorted book\<close>

lemma canonical_top_Ok:
  "canonical_top levels = Ok (b, a) \<longleftrightarrow>
     map_option level_price (find (\<lambda>level. level_side level = Bid) levels) = Some b
     \<and> map_option level_price (find (\<lambda>level. level_side level = Ask) levels) = Some a \<and> b < a"
  by (auto simp: canonical_top_def Let_def split: option.splits)

lemma sorted_bid_first:
  assumes "book_sorted levels" "find (\<lambda>l. level_side l = Bid) levels = Some b" "l \<in> set levels" "level_side l = Bid"
  shows "level_price l \<le> level_price b"
  using assms
proof (induction levels)
  case (Cons x xs)
  show ?case
  proof (cases "level_side x = Bid")
    case True
    then have "b = x"
      using Cons.prems(2) by simp
    then show ?thesis
      using Cons.prems(1,3,4) True by (auto simp: book_order.sorted_by_key_Cons compare_keys_Less)
  next
    case False
    then show ?thesis
      using Cons by (auto simp: book_order.sorted_by_key_Cons)
  qed
qed simp

lemma sorted_ask_first:
  assumes "book_sorted levels" "find (\<lambda>l. level_side l = Ask) levels = Some a" "l \<in> set levels" "level_side l = Ask"
  shows "level_price a \<le> level_price l"
  using assms
proof (induction levels)
  case (Cons x xs)
  show ?case
  proof (cases "level_side x = Ask")
    case True
    then have "a = x"
      using Cons.prems(2) by simp
    then show ?thesis
      using Cons.prems(1,3,4) True by (auto simp: book_order.sorted_by_key_Cons compare_keys_Less)
  next
    case False
    then show ?thesis
      using Cons by (auto simp: book_order.sorted_by_key_Cons)
  qed
qed simp

end
