(* ===== verification/Pm_Book.thy ===== *)
theory Pm_Book
  imports Pm_Book_Canonical
begin

text \<open>
  The public book and readiness reducer of \<open>crates/reap-pm-state/src/book.rs\<close>.  Its state is
  the record \<open>PmBookReducer\<close>; every method on \<open>&mut self\<close> is a function from the state
  and its arguments to the new state and the \<open>Result\<close>, with the intermediate mutations that
  an early return leaves behind.  The process-wide counter that names reducers
  (\<open>NEXT_AUTHORITY_ID\<close>) is an explicit argument and result of \<open>PmBookReducer_new\<close>.
\<close>

section \<open>Data\<close>

record PmBookBatchEvidence =
  ev_instrument :: PmInstrumentHandle
  ev_connection_epoch :: ConnectionEpoch
  ev_metadata_revision :: SnapshotRevision
  ev_snapshot_revision :: SnapshotRevision
  ev_local_ingress_sequence :: IngressSequence
  ev_monotonic_receive_ns :: u64
  ev_venue_hash :: "VenueEventHash option"

definition PmBookBatchEvidence_new ::
    "PmInstrumentHandle \<Rightarrow> ConnectionEpoch \<Rightarrow> SnapshotRevision \<Rightarrow> SnapshotRevision \<Rightarrow> IngressSequence
      \<Rightarrow> u64 \<Rightarrow> VenueEventHash option \<Rightarrow> (PmBookBatchEvidence, PmPublicReadinessReason) result" where
  "PmBookBatchEvidence_new instrument epoch metadata snapshot sequence receive hash =
     (if epoch = 0 \<or> metadata = 0 \<or> snapshot = 0 \<or> sequence = 0 \<or> receive = 0 then Err InvalidTransition
      else Ok \<lparr>ev_instrument = instrument, ev_connection_epoch = epoch, ev_metadata_revision = metadata,
               ev_snapshot_revision = snapshot, ev_local_ingress_sequence = sequence,
               ev_monotonic_receive_ns = receive, ev_venue_hash = hash\<rparr>)"

datatype PmExternalBookFault =
    Disconnect
  | HeartbeatTimeout
  | Gap
  | Overflow
  | BacklogAged
  | InvalidTransition
  | HashMismatch

type_synonym PmBookReducerAuthorityId = u64

record PmPendingExternalBookFaultAuthority =
  auth_reducer_authority :: PmBookReducerAuthorityId
  auth_generation :: u64
  auth_epoch :: ConnectionEpoch
  auth_fault :: PmExternalBookFault

record PendingExternalBookFault =
  pending_generation :: u64
  pending_epoch :: ConnectionEpoch
  pending_fault :: PmExternalBookFault

record PmSnapshotCommitProof =
  proof_instrument :: PmInstrumentHandle
  proof_metadata_fingerprint :: PmMetadataFingerprint
  proof_connection_epoch :: ConnectionEpoch
  proof_metadata_revision :: SnapshotRevision
  proof_snapshot_revision :: SnapshotRevision
  proof_local_ingress_sequence :: IngressSequence
  proof_venue_hash :: VenueEventHash

datatype PmBookTransition =
    MetadataAccepted SnapshotRevision
  | EpochStarted ConnectionEpoch
  | SnapshotCommitted SnapshotRevision u16 PmSnapshotCommitProof
  | DeltaBatchCommitted SnapshotRevision u16
  | TopConfirmed
  | FreshnessConfirmed

record PmBookCounters =
  ctr_metadata_inputs :: u64
  ctr_metadata_accepted :: u64
  ctr_metadata_rejected :: u64
  ctr_epoch_attempts :: u64
  ctr_epochs_started :: u64
  ctr_reconnects :: u64
  ctr_snapshot_attempts :: u64
  ctr_snapshots_committed :: u64
  ctr_snapshot_levels_committed :: u64
  ctr_resync_snapshots :: u64
  ctr_delta_batch_attempts :: u64
  ctr_delta_batches_committed :: u64
  ctr_delta_changes_committed :: u64
  ctr_delta_top_checks :: u64
  ctr_delta_top_checks_confirmed :: u64
  ctr_top_checks :: u64
  ctr_top_checks_confirmed :: u64
  ctr_freshness_checks :: u64
  ctr_freshness_confirmed :: u64
  ctr_tick_size_changes :: u64
  ctr_external_faults :: u64
  ctr_duplicate_ingress :: u64
  ctr_reordered_ingress :: u64
  ctr_disconnects :: u64
  ctr_heartbeat_timeouts :: u64
  ctr_backlog_aged_faults :: u64
  ctr_gaps :: u64
  ctr_overflows :: u64
  ctr_hash_mismatches :: u64
  ctr_bbo_mismatches :: u64
  ctr_invalid_transitions :: u64
  ctr_clock_regressions :: u64
  ctr_invalidations :: u64
  ctr_unavailable_transitions :: u64
  ctr_stale_invalidations :: u64

definition PmBookCounters_default :: PmBookCounters where
  "PmBookCounters_default =
     \<lparr>ctr_metadata_inputs = 0, ctr_metadata_accepted = 0, ctr_metadata_rejected = 0,
      ctr_epoch_attempts = 0, ctr_epochs_started = 0, ctr_reconnects = 0,
      ctr_snapshot_attempts = 0, ctr_snapshots_committed = 0, ctr_snapshot_levels_committed = 0,
      ctr_resync_snapshots = 0, ctr_delta_batch_attempts = 0, ctr_delta_batches_committed = 0,
      ctr_delta_changes_committed = 0, ctr_delta_top_checks = 0,
      ctr_delta_top_checks_confirmed = 0, ctr_top_checks = 0, ctr_top_checks_confirmed = 0,
      ctr_freshness_checks = 0, ctr_freshness_confirmed = 0, ctr_tick_size_changes = 0,
      ctr_external_faults = 0, ctr_duplicate_ingress = 0, ctr_reordered_ingress = 0,
      ctr_disconnects = 0, ctr_heartbeat_timeouts = 0, ctr_backlog_aged_faults = 0, ctr_gaps = 0,
      ctr_overflows = 0, ctr_hash_mismatches = 0, ctr_bbo_mismatches = 0,
      ctr_invalid_transitions = 0, ctr_clock_regressions = 0, ctr_invalidations = 0,
      ctr_unavailable_transitions = 0, ctr_stale_invalidations = 0\<rparr>"

record PmBookReducer =
  bk_authority_id :: PmBookReducerAuthorityId
  bk_instrument :: PmInstrumentHandle
  bk_expected_fingerprint :: PmMetadataFingerprint
  bk_expected_contract :: PmMetadataContract
  bk_freshness :: PmBookFreshness
  bk_metadata_revision :: "SnapshotRevision option"
  bk_metadata_receive_ns :: "u64 option"
  bk_metadata_valid :: bool
  bk_connection_epoch :: "ConnectionEpoch option"
  bk_requires_reconnect :: bool
  bk_last_ingress_sequence :: "IngressSequence option"
  bk_last_ingress_receive_ns :: "u64 option"
  bk_snapshot_revision :: "SnapshotRevision option"
  bk_last_committed_snapshot_revision :: "SnapshotRevision option"
  bk_book_receive_ns :: "u64 option"
  bk_last_verified_snapshot_hash :: "VenueEventHash option"
  bk_levels :: "PmBookLevel list"
  bk_staging :: "PmBookLevel list"
  bk_change_keys :: "BookKey list"
  bk_book_ready :: bool
  bk_reason :: PmPublicReadinessReason
  bk_pending_external_fault :: "PendingExternalBookFault option"
  bk_pending_external_fault_generation :: u64
  bk_counters :: PmBookCounters
  bk_ever_committed_snapshot :: bool

section \<open>Readiness\<close>

definition PmBookReducer_readiness :: "PmBookReducer \<Rightarrow> PmBookReadiness" where
  "PmBookReducer_readiness s =
     (if bk_metadata_valid s \<and> bk_connection_epoch s \<noteq> None \<and> \<not> bk_requires_reconnect s \<and> bk_book_ready s
      then (case (bk_metadata_revision s, bk_snapshot_revision s) of
              (Some metadata, Some snapshot) \<Rightarrow> PmBookReadiness_ready metadata snapshot
            | _ \<Rightarrow> PmBookReadiness_unavailable SnapshotMissing (bk_metadata_revision s) (bk_snapshot_revision s))
      else PmBookReadiness_unavailable (bk_reason s) (bk_metadata_revision s) (bk_snapshot_revision s))"

definition reducer_ready :: "PmBookReducer \<Rightarrow> bool" where
  "reducer_ready s = PmBookReadiness_is_ready (PmBookReducer_readiness s)"

definition ready_top :: "PmBookReducer \<Rightarrow> PmBookTop option" where
  "ready_top s =
     (if \<not> reducer_ready s then None
      else case canonical_top (bk_levels s) of
             Err _ \<Rightarrow> None
           | Ok (bid_price, ask_price) \<Rightarrow>
               (case (find (\<lambda>level. level_side level = Bid \<and> level_price level = bid_price) (bk_levels s),
                      find (\<lambda>level. level_side level = Ask \<and> level_price level = ask_price) (bk_levels s)) of
                  (Some bid, Some ask) \<Rightarrow>
                    (case (level_quantity bid, level_quantity ask) of
                       (Quantity bid_quantity, Quantity ask_quantity) \<Rightarrow>
                         (case PmBookTop_new
                                 (Some \<lparr>point_price = bid_price, point_quantity = bid_quantity\<rparr>)
                                 (Some \<lparr>point_price = ask_price, point_quantity = ask_quantity\<rparr>) of
                            Ok best \<Rightarrow> Some best
                          | Err _ \<Rightarrow> None)
                     | _ \<Rightarrow> None)
                | _ \<Rightarrow> None))"

section \<open>Counters and invalidation\<close>

definition sat_inc :: "u64 \<Rightarrow> u64" where
  "sat_inc n = saturating_add n 1"

definition bump :: "(PmBookCounters \<Rightarrow> PmBookCounters) \<Rightarrow> PmBookReducer \<Rightarrow> PmBookReducer" where
  "bump f s = s\<lparr>bk_counters := f (bk_counters s)\<rparr>"

definition note_unavailable_transition :: "PmBookReducer \<Rightarrow> PmBookReducer" where
  "note_unavailable_transition s =
     (if reducer_ready s then bump (ctr_unavailable_transitions_update sat_inc) s else s)"

text \<open>
  \<open>record_invalidation\<close>, \<open>invalidate\<close> and \<open>reject_metadata\<close> return \<open>Err(reason)\<close> at every
  result type.  The state each leaves behind is a definition of its own.
\<close>

definition record_invalidated :: "PmBookReducer \<Rightarrow> PmPublicReadinessReason \<Rightarrow> PmBookReducer" where
  "record_invalidated s reason =
     (let s = (case reason of
                 PmPublicReadinessReason.BboMismatch \<Rightarrow> bump (ctr_bbo_mismatches_update sat_inc) s
               | PmPublicReadinessReason.ClockRegression \<Rightarrow> bump (ctr_clock_regressions_update sat_inc) s
               | PmPublicReadinessReason.HashMismatch \<Rightarrow> bump (ctr_hash_mismatches_update sat_inc) s
               | PmPublicReadinessReason.InvalidTransition \<Rightarrow> bump (ctr_invalid_transitions_update sat_inc) s
               | _ \<Rightarrow> s)
      in bump (ctr_invalidations_update sat_inc) (s\<lparr>bk_reason := reason\<rparr>))"

definition record_invalidation ::
    "PmBookReducer \<Rightarrow> PmPublicReadinessReason \<Rightarrow> PmBookReducer \<times> ('t, PmPublicReadinessReason) result" where
  [simp]: "record_invalidation s reason = (record_invalidated s reason, Err reason)"

definition invalidated :: "PmBookReducer \<Rightarrow> PmPublicReadinessReason \<Rightarrow> PmBookReducer" where
  "invalidated s reason =
     record_invalidated ((note_unavailable_transition s)\<lparr>bk_book_ready := False\<rparr>) reason"

definition invalidate ::
    "PmBookReducer \<Rightarrow> PmPublicReadinessReason \<Rightarrow> PmBookReducer \<times> ('t, PmPublicReadinessReason) result" where
  [simp]: "invalidate s reason = (invalidated s reason, Err reason)"

definition metadata_rejected :: "PmBookReducer \<Rightarrow> PmPublicReadinessReason \<Rightarrow> PmBookReducer" where
  "metadata_rejected s reason =
     (let s = (note_unavailable_transition s)\<lparr>bk_metadata_valid := False, bk_book_ready := False\<rparr>
      in record_invalidated (bump (ctr_metadata_rejected_update sat_inc) s) reason)"

definition reject_metadata ::
    "PmBookReducer \<Rightarrow> PmPublicReadinessReason \<Rightarrow> PmBookReducer \<times> ('t, PmPublicReadinessReason) result" where
  [simp]: "reject_metadata s reason = (metadata_rejected s reason, Err reason)"

section \<open>Evidence checks\<close>

definition validate_ingress ::
    "PmBookReducer \<Rightarrow> IngressSequence \<Rightarrow> PmBookReducer \<times> (unit, PmPublicReadinessReason) result" where
  "validate_ingress s sequence =
     (case bk_last_ingress_sequence s of
        Some previous \<Rightarrow>
          if sequence = previous then
            invalidate (bump (ctr_duplicate_ingress_update sat_inc) s) DuplicateIngress
          else if sequence < previous then
            invalidate (bump (ctr_reordered_ingress_update sat_inc) s) ReorderedIngress
          else (s\<lparr>bk_last_ingress_sequence := Some sequence\<rparr>, Ok ())
      | None \<Rightarrow> (s\<lparr>bk_last_ingress_sequence := Some sequence\<rparr>, Ok ()))"

definition validate_common_evidence ::
    "PmBookReducer \<Rightarrow> PmBookBatchEvidence \<Rightarrow> PmBookReducer \<times> (unit, PmPublicReadinessReason) result" where
  "validate_common_evidence s evidence =
     (if \<not> bk_metadata_valid s then (s, Err (bk_reason s))
      else if ev_instrument evidence \<noteq> bk_instrument s then
        invalidate s (MetadataDrift PmMetadataDrift.Instrument)
      else if bk_connection_epoch s \<noteq> Some (ev_connection_epoch evidence) \<or> bk_requires_reconnect s then
        invalidate s ConnectionEpochMismatch
      else then_do (validate_ingress s (ev_local_ingress_sequence evidence)) (\<lambda>s _.
        if is_some_and (\<lambda>current. ev_monotonic_receive_ns evidence < current) (bk_last_ingress_receive_ns s)
           \<or> is_some_and (\<lambda>metadata. ev_monotonic_receive_ns evidence < metadata) (bk_metadata_receive_ns s)
          then invalidate s ClockRegression
        else let s = s\<lparr>bk_last_ingress_receive_ns := Some (ev_monotonic_receive_ns evidence)\<rparr>
             in if bk_metadata_revision s \<noteq> Some (ev_metadata_revision evidence)
                then invalidate s MetadataRevisionMismatch
                else (s, Ok ())))"

definition sha1_evidence :: "VenueEventHash option \<Rightarrow> bool" where
  "sha1_evidence hash =
     is_some_and (\<lambda>h. hash_algorithm h = Sha1 \<and> hash_length h = 20) hash"

definition validate_snapshot_hash ::
    "PmBookReducer \<Rightarrow> PmBookBatchEvidence \<Rightarrow> PmBookReducer \<times> (unit, PmPublicReadinessReason) result" where
  "validate_snapshot_hash s evidence =
     (if \<not> sha1_evidence (ev_venue_hash evidence) then
        invalidate s PmPublicReadinessReason.HashMismatch
      else (s, Ok ()))"

definition validate_absent_singular_hash ::
    "PmBookReducer \<Rightarrow> PmBookBatchEvidence \<Rightarrow> PmBookReducer \<times> (unit, PmPublicReadinessReason) result" where
  "validate_absent_singular_hash s evidence =
     (if ev_venue_hash evidence \<noteq> None then invalidate s PmPublicReadinessReason.HashMismatch
      else (s, Ok ()))"

section \<open>Operations\<close>

text \<open>
  \<open>PmBookReducerAuthorityId::allocate\<close>: the atomic counter before and after the call.
\<close>

definition PmBookReducerAuthorityId_allocate ::
    "u64 \<Rightarrow> u64 \<times> (PmBookReducerAuthorityId, PmPublicReadinessReason) result" where
  "PmBookReducerAuthorityId_allocate next =
     (case checked_add_word next 1 of
        Some next' \<Rightarrow> (next', Ok next)
      | None \<Rightarrow> (next, Err PmPublicReadinessReason.InvalidTransition))"

definition initial_reducer ::
    "PmBookReducerAuthorityId \<Rightarrow> PmInstrumentHandle \<Rightarrow> PmMetadataFingerprint \<Rightarrow> PmMetadataContract
      \<Rightarrow> PmBookFreshness \<Rightarrow> PmBookReducer" where
  "initial_reducer authority instrument fingerprint contract freshness =
     \<lparr>bk_authority_id = authority, bk_instrument = instrument, bk_expected_fingerprint = fingerprint,
      bk_expected_contract = contract, bk_freshness = freshness, bk_metadata_revision = None,
      bk_metadata_receive_ns = None, bk_metadata_valid = False, bk_connection_epoch = None,
      bk_requires_reconnect = False, bk_last_ingress_sequence = None, bk_last_ingress_receive_ns = None,
      bk_snapshot_revision = None, bk_last_committed_snapshot_revision = None, bk_book_receive_ns = None,
      bk_last_verified_snapshot_hash = None, bk_levels = [], bk_staging = [], bk_change_keys = [],
      bk_book_ready = False, bk_reason = MetadataMissing, bk_pending_external_fault = None,
      bk_pending_external_fault_generation = 0, bk_counters = PmBookCounters_default,
      bk_ever_committed_snapshot = False\<rparr>"

definition PmBookReducer_new ::
    "u64 \<Rightarrow> PmInstrumentHandle \<Rightarrow> PmMetadataFingerprint \<Rightarrow> PmMetadataContract \<Rightarrow> PmBookFreshness
      \<Rightarrow> u64 \<times> (PmBookReducer, PmPublicReadinessReason) result" where
  "PmBookReducer_new next instrument fingerprint contract freshness =
     (case validate_expected_contract contract of
        Err reason \<Rightarrow> (next, Err reason)
      | Ok _ \<Rightarrow>
          (case PmBookReducerAuthorityId_allocate next of
             (next', Err reason) \<Rightarrow> (next', Err reason)
           | (next', Ok authority) \<Rightarrow>
               (next', Ok (initial_reducer authority instrument fingerprint contract freshness))))"

definition apply_metadata ::
    "PmBookReducer \<Rightarrow> PmMetadataObservation \<Rightarrow> PmBookReducer \<times> (PmBookTransition, PmPublicReadinessReason) result" where
  "apply_metadata s observation =
     (if bk_pending_external_fault s \<noteq> None then (s, Err (bk_reason s))
      else let s = bump (ctr_metadata_inputs_update sat_inc) s
      in if obs_instrument observation \<noteq> bk_instrument s then
           reject_metadata s (MetadataDrift PmMetadataDrift.Instrument)
         else if is_some_and (\<lambda>current. obs_revision observation \<le> current) (bk_metadata_revision s) then
           reject_metadata s MetadataRevisionNotIncreasing
         else if is_some_and (\<lambda>current. obs_monotonic_receive_ns observation < current) (bk_metadata_receive_ns s) then
           reject_metadata s ClockRegression
         else case validate_observed_contract (bk_expected_contract s) (obs_contract observation) of
                Err reason \<Rightarrow> reject_metadata s reason
              | Ok _ \<Rightarrow>
                  if obs_fingerprint observation \<noteq> bk_expected_fingerprint s then
                    reject_metadata s MetadataFingerprintMismatch
                  else let s = (note_unavailable_transition s)
                             \<lparr>bk_metadata_revision := Some (obs_revision observation),
                              bk_metadata_receive_ns := Some (obs_monotonic_receive_ns observation),
                              bk_metadata_valid := True,
                              bk_book_ready := False,
                              bk_snapshot_revision := None,
                              bk_book_receive_ns := None,
                              bk_last_verified_snapshot_hash := None\<rparr>;
                           s = s\<lparr>bk_reason :=
                                 (if bk_connection_epoch s \<noteq> None \<and> \<not> bk_requires_reconnect s
                                  then SnapshotMissing else ConnectionUnavailable)\<rparr>
                       in (bump (ctr_metadata_accepted_update sat_inc) s,
                           Ok (MetadataAccepted (obs_revision observation))))"

text \<open>
  The guard of \<open>begin_epoch\<close>: \<open>None\<close> when the epoch is refused, else whether it is a reconnect.
\<close>

definition epoch_guard :: "ConnectionEpoch option \<Rightarrow> ConnectionEpoch \<Rightarrow> bool option" where
  "epoch_guard current epoch =
     (if epoch = 0 then None
      else case current of
             Some c \<Rightarrow>
               (case checked_add_word c 1 of
                  None \<Rightarrow> None
                | Some expected \<Rightarrow> if epoch \<noteq> expected then None else Some True)
           | None \<Rightarrow> Some False)"

definition begin_epoch ::
    "PmBookReducer \<Rightarrow> ConnectionEpoch \<Rightarrow> PmBookReducer \<times> (PmBookTransition, PmPublicReadinessReason) result" where
  "begin_epoch s epoch =
     (if bk_pending_external_fault s \<noteq> None then (s, Err (bk_reason s))
      else let s = bump (ctr_epoch_attempts_update sat_inc) s
      in case epoch_guard (bk_connection_epoch s) epoch of
           None \<Rightarrow> invalidate s ConnectionEpochInvalid
         | Some reconnect \<Rightarrow>
             let s = (note_unavailable_transition s)
                   \<lparr>bk_connection_epoch := Some epoch,
                    bk_requires_reconnect := False,
                    bk_last_ingress_sequence := None,
                    bk_last_ingress_receive_ns := None,
                    bk_book_ready := False,
                    bk_snapshot_revision := None,
                    bk_book_receive_ns := None,
                    bk_last_verified_snapshot_hash := None\<rparr>;
                 s = s\<lparr>bk_reason := (if bk_metadata_valid s then SnapshotMissing else bk_reason s)\<rparr>;
                 s = bump (ctr_epochs_started_update sat_inc) s;
                 s = (if reconnect then bump (ctr_reconnects_update sat_inc) s else s)
             in (s, Ok (EpochStarted epoch)))"

text \<open>The mutations of a committed snapshot; \<open>bk_staging\<close> already holds the sorted levels.\<close>

definition commit_snapshot :: "PmBookReducer \<Rightarrow> PmBookBatchEvidence \<Rightarrow> nat \<Rightarrow> PmBookReducer" where
  "commit_snapshot s evidence count =
     (let was_resync = bk_ever_committed_snapshot s \<and> \<not> reducer_ready s;
          s = s\<lparr>bk_levels := bk_staging s, bk_staging := bk_levels s\<rparr>;
          s = s\<lparr>bk_snapshot_revision := Some (ev_snapshot_revision evidence),
                bk_last_committed_snapshot_revision := Some (ev_snapshot_revision evidence),
                bk_book_receive_ns := Some (ev_monotonic_receive_ns evidence),
                bk_last_verified_snapshot_hash := ev_venue_hash evidence,
                bk_book_ready := True,
                bk_reason := SnapshotMissing,
                bk_ever_committed_snapshot := True\<rparr>;
          s = bump (ctr_snapshots_committed_update sat_inc) s;
          s = bump (ctr_snapshot_levels_committed_update (\<lambda>n. saturating_add n (word_of_nat count))) s
      in if was_resync then bump (ctr_resync_snapshots_update sat_inc) s else s)"

text \<open>
  The source unwraps the hash and converts the counts of levels and changes with \<open>expect\<close>.  The
  guards before them make both total, so the reducer has no panicking result: \<open>the\<close> and
  \<open>word_of_nat\<close> are applied only where the \<open>expect\<close> succeeds (\<open>apply_snapshot_expects\<close> and
  \<open>apply_delta_batch_expects\<close>).
\<close>

definition commit_proof :: "PmBookReducer \<Rightarrow> PmBookBatchEvidence \<Rightarrow> PmSnapshotCommitProof" where
  "commit_proof s evidence =
     \<lparr>proof_instrument = bk_instrument s, proof_metadata_fingerprint = bk_expected_fingerprint s,
      proof_connection_epoch = ev_connection_epoch evidence,
      proof_metadata_revision = ev_metadata_revision evidence,
      proof_snapshot_revision = ev_snapshot_revision evidence,
      proof_local_ingress_sequence = ev_local_ingress_sequence evidence,
      proof_venue_hash = the (ev_venue_hash evidence)\<rparr>"

definition apply_snapshot ::
    "PmBookReducer \<Rightarrow> PmBookBatchEvidence \<Rightarrow> PmBookSnapshot
      \<Rightarrow> PmBookReducer \<times> (PmBookTransition, PmPublicReadinessReason) result" where
  "apply_snapshot s evidence snapshot =
     (if bk_pending_external_fault s \<noteq> None then (s, Err (bk_reason s))
      else then_do (validate_common_evidence (bump (ctr_snapshot_attempts_update sat_inc) s) evidence) (\<lambda>s _.
        then_do (validate_snapshot_hash s evidence) (\<lambda>s _.
          let levels = snapshot_levels snapshot
          in if is_some_and (\<lambda>current. ev_snapshot_revision evidence \<le> current)
                  (bk_last_committed_snapshot_revision s)
               then invalidate s SnapshotRevisionMismatch
             else if MAX_PM_BOOK_LEVELS < length levels then invalidate s TooManyLevels
             else case validate_and_sort_levels levels (contract_market (bk_expected_contract s)) True of
                    (staging, Err reason) \<Rightarrow> invalidate (s\<lparr>bk_staging := staging\<rparr>) reason
                  | (staging, Ok _) \<Rightarrow>
                      let s = commit_snapshot (s\<lparr>bk_staging := staging\<rparr>) evidence (length levels)
                      in (s, Ok (SnapshotCommitted (ev_snapshot_revision evidence)
                                  (word_of_nat (length levels)) (commit_proof s evidence))))))"

text \<open>The loop that checks the grid and collects the distinct keys of a batch.\<close>

primrec collect_change_keys ::
    "PmTick \<Rightarrow> BookKey list \<Rightarrow> PmBookLevel list \<Rightarrow> BookKey list \<times> (unit, PmPublicReadinessReason) result" where
  "collect_change_keys tick keys [] = (keys, Ok ())"
| "collect_change_keys tick keys (change # changes) =
     (if off_tick tick change then (keys, Err PmPublicReadinessReason.PriceOffTick)
      else let key = level_key change
           in case binary_search_by (\<lambda>candidate. compare_keys candidate key) keys of
                Ok _ \<Rightarrow> (keys, Err DuplicateLevel)
              | Err index \<Rightarrow> collect_change_keys tick (vec_insert index key keys) changes)"

definition commit_delta :: "PmBookReducer \<Rightarrow> PmBookBatchEvidence \<Rightarrow> nat \<Rightarrow> PmBookReducer" where
  "commit_delta s evidence count =
     (let s = s\<lparr>bk_levels := bk_staging s, bk_staging := bk_levels s\<rparr>;
          s = s\<lparr>bk_book_receive_ns := Some (ev_monotonic_receive_ns evidence),
                bk_book_ready := True,
                bk_reason := SnapshotMissing\<rparr>;
          s = bump (ctr_delta_batches_committed_update sat_inc) s;
          s = bump (ctr_delta_changes_committed_update (\<lambda>n. saturating_add n (word_of_nat count))) s
      in bump (ctr_delta_top_checks_confirmed_update sat_inc) s)"

text \<open>
  The part of \<open>apply_delta_batch\<close> after its guards, from the copy of the levels to the commit.
\<close>

definition stage_delta_batch ::
    "PmBookReducer \<Rightarrow> PmBookBatchEvidence \<Rightarrow> PmBookDeltaBatch
      \<Rightarrow> PmBookReducer \<times> (PmBookTransition, PmPublicReadinessReason) result" where
  "stage_delta_batch s evidence batch =
     (let changes = batch_changes batch;
          market = contract_market (bk_expected_contract s);
          s = s\<lparr>bk_staging := bk_levels s, bk_change_keys := []\<rparr>
      in case collect_change_keys (md_tick market) [] changes of
           (keys, Err reason) \<Rightarrow> invalidate (s\<lparr>bk_change_keys := keys\<rparr>) reason
         | (keys, Ok _) \<Rightarrow>
       (let s = s\<lparr>bk_change_keys := keys\<rparr>
        in case apply_changes (bk_staging s) (filter (\<lambda>change. level_quantity change = Delete) changes) of
             (staging, Err reason) \<Rightarrow> invalidate (s\<lparr>bk_staging := staging\<rparr>) reason
           | (staging, Ok _) \<Rightarrow>
       (case apply_changes staging (filter (\<lambda>change. level_quantity change \<noteq> Delete) changes) of
             (staging, Err reason) \<Rightarrow> invalidate (s\<lparr>bk_staging := staging\<rparr>) reason
           | (staging, Ok _) \<Rightarrow>
       (case validate_and_sort_levels staging market False of
             (staging, Err reason) \<Rightarrow> invalidate (s\<lparr>bk_staging := staging\<rparr>) reason
           | (staging, Ok _) \<Rightarrow>
       (let s = bump (ctr_delta_top_checks_update sat_inc) (s\<lparr>bk_staging := staging\<rparr>);
            expected_top = batch_expected_top batch
        in case canonical_top (bk_staging s) of
             Err reason \<Rightarrow> (s, Err reason)
           | Ok (bid, ask) \<Rightarrow>
               if check_bid expected_top \<noteq> Some bid \<or> check_ask expected_top \<noteq> Some ask
               then invalidate s PmPublicReadinessReason.BboMismatch
               else (commit_delta s evidence (length changes),
                     Ok (DeltaBatchCommitted (ev_snapshot_revision evidence)
                           (word_of_nat (length changes)))))))))"

definition apply_delta_batch ::
    "PmBookReducer \<Rightarrow> PmBookBatchEvidence \<Rightarrow> PmBookDeltaBatch
      \<Rightarrow> PmBookReducer \<times> (PmBookTransition, PmPublicReadinessReason) result" where
  "apply_delta_batch s evidence batch =
     (if bk_pending_external_fault s \<noteq> None then (s, Err (bk_reason s))
      else then_do (validate_common_evidence (bump (ctr_delta_batch_attempts_update sat_inc) s) evidence) (\<lambda>s _.
        then_do (validate_absent_singular_hash s evidence) (\<lambda>s _.
          if \<not> reducer_ready s then invalidate s (bk_reason s)
          else if bk_snapshot_revision s \<noteq> Some (ev_snapshot_revision evidence) then
            invalidate s SnapshotRevisionMismatch
          else if batch_changes batch = [] then invalidate s PmPublicReadinessReason.InvalidTransition
          else if MAX_PM_BOOK_LEVELS < length (batch_changes batch) then invalidate s TooManyLevels
          else stage_delta_batch s evidence batch)))"

definition check_top ::
    "PmBookReducer \<Rightarrow> PmBookBatchEvidence \<Rightarrow> PmBookTopCheck
      \<Rightarrow> PmBookReducer \<times> (PmBookTransition, PmPublicReadinessReason) result" where
  "check_top s evidence observed =
     (if bk_pending_external_fault s \<noteq> None then (s, Err (bk_reason s))
      else then_do (validate_common_evidence (bump (ctr_top_checks_update sat_inc) s) evidence) (\<lambda>s _.
        then_do (validate_absent_singular_hash s evidence) (\<lambda>s _.
          if \<not> reducer_ready s then invalidate s (bk_reason s)
          else if bk_snapshot_revision s \<noteq> Some (ev_snapshot_revision evidence) then
            invalidate s SnapshotRevisionMismatch
          else case canonical_top (bk_levels s) of
                 Err reason \<Rightarrow> (s, Err reason)
               | Ok (bid, ask) \<Rightarrow>
                   if check_bid observed \<noteq> Some bid \<or> check_ask observed \<noteq> Some ask
                   then invalidate s PmPublicReadinessReason.BboMismatch
                   else (bump (ctr_top_checks_confirmed_update sat_inc) s, Ok TopConfirmed))))"

definition tick_size_changed ::
    "PmBookReducer \<Rightarrow> PmBookBatchEvidence \<Rightarrow> PmTick \<Rightarrow> PmTick
      \<Rightarrow> PmBookReducer \<times> (PmBookTransition, PmPublicReadinessReason) result" where
  "tick_size_changed s evidence old new =
     (if bk_pending_external_fault s \<noteq> None then (s, Err (bk_reason s))
      else then_do (validate_common_evidence s evidence) (\<lambda>s _.
        then_do (validate_absent_singular_hash s evidence) (\<lambda>s _.
          let s = bump (ctr_tick_size_changes_update sat_inc) s;
              expected = md_tick (contract_market (bk_expected_contract s));
              reason = (if old \<noteq> expected \<or> new = expected then PmPublicReadinessReason.InvalidTransition
                        else MetadataDrift Grid);
              s = (note_unavailable_transition s)\<lparr>bk_metadata_valid := False, bk_book_ready := False\<rparr>
          in record_invalidation (bump (ctr_metadata_rejected_update sat_inc) s) reason)))"

definition apply_update ::
    "PmBookReducer \<Rightarrow> PmBookBatchEvidence \<Rightarrow> PmBookUpdate
      \<Rightarrow> PmBookReducer \<times> (PmBookTransition, PmPublicReadinessReason) result" where
  "apply_update s evidence update =
     (if bk_pending_external_fault s \<noteq> None then (s, Err (bk_reason s))
      else case update of
             Snapshot snapshot \<Rightarrow> apply_snapshot s evidence snapshot
           | DeltaBatch batch \<Rightarrow> apply_delta_batch s evidence batch
           | TopCheck observed \<Rightarrow> check_top s evidence observed
           | TickSizeChanged old new \<Rightarrow> tick_size_changed s evidence old new)"

definition apply_external_fault_final ::
    "PmBookReducer \<Rightarrow> ConnectionEpoch \<Rightarrow> PmExternalBookFault
      \<Rightarrow> PmBookReducer \<times> (PmBookTransition, PmPublicReadinessReason) result" where
  "apply_external_fault_final s epoch fault =
     (if bk_connection_epoch s \<noteq> Some epoch then invalidate s ConnectionEpochMismatch
      else let s = bump (ctr_external_faults_update sat_inc) s
      in case fault of
           Disconnect \<Rightarrow>
             invalidate (bump (ctr_disconnects_update sat_inc) (s\<lparr>bk_requires_reconnect := True\<rparr>)) Disconnected
         | HeartbeatTimeout \<Rightarrow>
             invalidate (bump (ctr_heartbeat_timeouts_update sat_inc) (s\<lparr>bk_requires_reconnect := True\<rparr>))
               PmPublicReadinessReason.HeartbeatTimeout
         | Gap \<Rightarrow> invalidate (bump (ctr_gaps_update sat_inc) s) PmPublicReadinessReason.Gap
         | Overflow \<Rightarrow> invalidate (bump (ctr_overflows_update sat_inc) s) PmPublicReadinessReason.Overflow
         | BacklogAged \<Rightarrow>
             invalidate (bump (ctr_stale_invalidations_update sat_inc)
                          (bump (ctr_backlog_aged_faults_update sat_inc) s)) BookStale
         | InvalidTransition \<Rightarrow> invalidate s PmPublicReadinessReason.InvalidTransition
         | HashMismatch \<Rightarrow> invalidate s PmPublicReadinessReason.HashMismatch)"

definition apply_external_fault ::
    "PmBookReducer \<Rightarrow> ConnectionEpoch \<Rightarrow> PmExternalBookFault
      \<Rightarrow> PmBookReducer \<times> (PmBookTransition, PmPublicReadinessReason) result" where
  "apply_external_fault s epoch fault =
     (if bk_pending_external_fault s \<noteq> None then (s, Err (bk_reason s))
      else apply_external_fault_final s epoch fault)"

definition pending_reason :: "PmExternalBookFault \<Rightarrow> PmPublicReadinessReason option" where
  "pending_reason fault =
     (case fault of
        Overflow \<Rightarrow> Some PendingOverflow
      | BacklogAged \<Rightarrow> Some PendingBookStale
      | _ \<Rightarrow> None)"

definition begin_pending_external_fault ::
    "PmBookReducer \<Rightarrow> ConnectionEpoch \<Rightarrow> PmExternalBookFault
      \<Rightarrow> PmBookReducer \<times> (PmPendingExternalBookFaultAuthority, PmPublicReadinessReason) result" where
  "begin_pending_external_fault s epoch fault =
     (if bk_pending_external_fault s \<noteq> None then (s, Err (bk_reason s))
      else case pending_reason fault of
             None \<Rightarrow> invalidate s PmPublicReadinessReason.InvalidTransition
           | Some reason \<Rightarrow>
       if bk_connection_epoch s \<noteq> Some epoch \<or> bk_requires_reconnect s then
         invalidate s ConnectionEpochMismatch
       else case checked_add_word (bk_pending_external_fault_generation s) 1 of
              None \<Rightarrow> invalidate s PmPublicReadinessReason.InvalidTransition
            | Some generation \<Rightarrow>
                ((note_unavailable_transition s)
                   \<lparr>bk_book_ready := False,
                    bk_reason := reason,
                    bk_pending_external_fault_generation := generation,
                    bk_pending_external_fault := Some \<lparr>pending_generation = generation,
                      pending_epoch = epoch, pending_fault = fault\<rparr>\<rparr>,
                 Ok \<lparr>auth_reducer_authority = bk_authority_id s, auth_generation = generation,
                     auth_epoch = epoch, auth_fault = fault\<rparr>))"

definition finalize_pending_external_fault ::
    "PmBookReducer \<Rightarrow> PmPendingExternalBookFaultAuthority \<Rightarrow> PmExternalBookFault
      \<Rightarrow> PmBookReducer \<times> (PmBookTransition, PmPublicReadinessReason) result" where
  "finalize_pending_external_fault s authority final_fault =
     (let expected = \<lparr>pending_generation = auth_generation authority, pending_epoch = auth_epoch authority,
                      pending_fault = auth_fault authority\<rparr>
      in if auth_reducer_authority authority \<noteq> bk_authority_id s
            \<or> bk_pending_external_fault s \<noteq> Some expected
            \<or> (final_fault \<noteq> auth_fault authority \<and> final_fault \<noteq> InvalidTransition)
         then (s, Err (bk_reason s))
         else apply_external_fault_final (s\<lparr>bk_pending_external_fault := None\<rparr>)
                (auth_epoch authority) final_fault)"

definition pending_external_fault :: "PmBookReducer \<Rightarrow> PmExternalBookFault option" where
  "pending_external_fault s = map_option pending_fault (bk_pending_external_fault s)"

definition is_pristine_pre_snapshot :: "PmBookReducer \<Rightarrow> bool" where
  "is_pristine_pre_snapshot s \<longleftrightarrow>
     (let expected_counters = PmBookCounters_default
            \<lparr>ctr_metadata_inputs := 1, ctr_metadata_accepted := 1, ctr_epoch_attempts := 1,
             ctr_epochs_started := 1\<rparr>
      in bk_metadata_valid s
         \<and> bk_metadata_revision s \<noteq> None
         \<and> bk_metadata_receive_ns s \<noteq> None
         \<and> bk_connection_epoch s \<noteq> None
         \<and> \<not> bk_requires_reconnect s
         \<and> bk_last_ingress_sequence s = None
         \<and> bk_last_ingress_receive_ns s = None
         \<and> bk_snapshot_revision s = None
         \<and> bk_last_committed_snapshot_revision s = None
         \<and> bk_book_receive_ns s = None
         \<and> bk_last_verified_snapshot_hash s = None
         \<and> bk_levels s = []
         \<and> bk_staging s = []
         \<and> bk_change_keys s = []
         \<and> \<not> bk_book_ready s
         \<and> bk_reason s = SnapshotMissing
         \<and> bk_pending_external_fault s = None
         \<and> bk_counters s = expected_counters
         \<and> \<not> bk_ever_committed_snapshot s)"

definition check_freshness ::
    "PmBookReducer \<Rightarrow> u64 \<Rightarrow> PmBookReducer \<times> (PmBookTransition, PmPublicReadinessReason) result" where
  "check_freshness s now_ns =
     (if bk_pending_external_fault s \<noteq> None then (s, Err (bk_reason s))
      else let s = bump (ctr_freshness_checks_update sat_inc) s
      in case (bk_metadata_receive_ns s, bk_book_receive_ns s) of
           (Some metadata_ns, Some book_ns) \<Rightarrow>
             (case (checked_sub_word now_ns metadata_ns, checked_sub_word now_ns book_ns) of
                (Some metadata_age, Some book_age) \<Rightarrow>
                  if metadata_max_age_ns (bk_freshness s) < metadata_age then
                    (let s = (note_unavailable_transition s)\<lparr>bk_metadata_valid := False, bk_book_ready := False\<rparr>
                     in record_invalidation (bump (ctr_stale_invalidations_update sat_inc) s) MetadataStale)
                  else if book_max_age_ns (bk_freshness s) < book_age then
                    invalidate (bump (ctr_stale_invalidations_update sat_inc) s) BookStale
                  else if \<not> reducer_ready s then (s, Err (bk_reason s))
                  else (bump (ctr_freshness_confirmed_update sat_inc) s, Ok FreshnessConfirmed)
              | _ \<Rightarrow> invalidate s ClockRegression)
         | _ \<Rightarrow> (s, Err (bk_reason s)))"

section \<open>Frame facts\<close>

lemma reducer_ready_iff:
  "reducer_ready s \<longleftrightarrow>
     bk_metadata_valid s \<and> bk_connection_epoch s \<noteq> None \<and> \<not> bk_requires_reconnect s \<and> bk_book_ready s
     \<and> bk_metadata_revision s \<noteq> None \<and> bk_snapshot_revision s \<noteq> None"
  by (auto simp: reducer_ready_def PmBookReducer_readiness_def PmBookReadiness_is_ready_def
      PmBookReadiness_ready_def PmBookReadiness_unavailable_def split: option.splits)

lemma bump_frame [simp]:
  "bk_authority_id (bump f s) = bk_authority_id s"
  "bk_instrument (bump f s) = bk_instrument s"
  "bk_expected_fingerprint (bump f s) = bk_expected_fingerprint s"
  "bk_expected_contract (bump f s) = bk_expected_contract s"
  "bk_freshness (bump f s) = bk_freshness s"
  "bk_metadata_revision (bump f s) = bk_metadata_revision s"
  "bk_metadata_receive_ns (bump f s) = bk_metadata_receive_ns s"
  "bk_metadata_valid (bump f s) = bk_metadata_valid s"
  "bk_connection_epoch (bump f s) = bk_connection_epoch s"
  "bk_requires_reconnect (bump f s) = bk_requires_reconnect s"
  "bk_last_ingress_sequence (bump f s) = bk_last_ingress_sequence s"
  "bk_last_ingress_receive_ns (bump f s) = bk_last_ingress_receive_ns s"
  "bk_snapshot_revision (bump f s) = bk_snapshot_revision s"
  "bk_last_committed_snapshot_revision (bump f s) = bk_last_committed_snapshot_revision s"
  "bk_book_receive_ns (bump f s) = bk_book_receive_ns s"
  "bk_last_verified_snapshot_hash (bump f s) = bk_last_verified_snapshot_hash s"
  "bk_levels (bump f s) = bk_levels s"
  "bk_staging (bump f s) = bk_staging s"
  "bk_change_keys (bump f s) = bk_change_keys s"
  "bk_book_ready (bump f s) = bk_book_ready s"
  "bk_reason (bump f s) = bk_reason s"
  "bk_pending_external_fault (bump f s) = bk_pending_external_fault s"
  "bk_pending_external_fault_generation (bump f s) = bk_pending_external_fault_generation s"
  "bk_ever_committed_snapshot (bump f s) = bk_ever_committed_snapshot s"
  by (simp_all add: bump_def)

lemma note_frame [simp]:
  "bk_authority_id (note_unavailable_transition s) = bk_authority_id s"
  "bk_instrument (note_unavailable_transition s) = bk_instrument s"
  "bk_expected_fingerprint (note_unavailable_transition s) = bk_expected_fingerprint s"
  "bk_expected_contract (note_unavailable_transition s) = bk_expected_contract s"
  "bk_freshness (note_unavailable_transition s) = bk_freshness s"
  "bk_metadata_revision (note_unavailable_transition s) = bk_metadata_revision s"
  "bk_metadata_receive_ns (note_unavailable_transition s) = bk_metadata_receive_ns s"
  "bk_metadata_valid (note_unavailable_transition s) = bk_metadata_valid s"
  "bk_connection_epoch (note_unavailable_transition s) = bk_connection_epoch s"
  "bk_requires_reconnect (note_unavailable_transition s) = bk_requires_reconnect s"
  "bk_last_ingress_sequence (note_unavailable_transition s) = bk_last_ingress_sequence s"
  "bk_last_ingress_receive_ns (note_unavailable_transition s) = bk_last_ingress_receive_ns s"
  "bk_snapshot_revision (note_unavailable_transition s) = bk_snapshot_revision s"
  "bk_last_committed_snapshot_revision (note_unavailable_transition s) = bk_last_committed_snapshot_revision s"
  "bk_book_receive_ns (note_unavailable_transition s) = bk_book_receive_ns s"
  "bk_last_verified_snapshot_hash (note_unavailable_transition s) = bk_last_verified_snapshot_hash s"
  "bk_levels (note_unavailable_transition s) = bk_levels s"
  "bk_staging (note_unavailable_transition s) = bk_staging s"
  "bk_change_keys (note_unavailable_transition s) = bk_change_keys s"
  "bk_book_ready (note_unavailable_transition s) = bk_book_ready s"
  "bk_reason (note_unavailable_transition s) = bk_reason s"
  "bk_pending_external_fault (note_unavailable_transition s) = bk_pending_external_fault s"
  "bk_pending_external_fault_generation (note_unavailable_transition s) = bk_pending_external_fault_generation s"
  "bk_ever_committed_snapshot (note_unavailable_transition s) = bk_ever_committed_snapshot s"
  by (simp_all add: note_unavailable_transition_def)

lemma record_invalidated_frame [simp]:
  "bk_authority_id (record_invalidated s r) = bk_authority_id s"
  "bk_instrument (record_invalidated s r) = bk_instrument s"
  "bk_expected_fingerprint (record_invalidated s r) = bk_expected_fingerprint s"
  "bk_expected_contract (record_invalidated s r) = bk_expected_contract s"
  "bk_freshness (record_invalidated s r) = bk_freshness s"
  "bk_metadata_revision (record_invalidated s r) = bk_metadata_revision s"
  "bk_metadata_receive_ns (record_invalidated s r) = bk_metadata_receive_ns s"
  "bk_metadata_valid (record_invalidated s r) = bk_metadata_valid s"
  "bk_connection_epoch (record_invalidated s r) = bk_connection_epoch s"
  "bk_requires_reconnect (record_invalidated s r) = bk_requires_reconnect s"
  "bk_last_ingress_sequence (record_invalidated s r) = bk_last_ingress_sequence s"
  "bk_last_ingress_receive_ns (record_invalidated s r) = bk_last_ingress_receive_ns s"
  "bk_snapshot_revision (record_invalidated s r) = bk_snapshot_revision s"
  "bk_last_committed_snapshot_revision (record_invalidated s r) = bk_last_committed_snapshot_revision s"
  "bk_book_receive_ns (record_invalidated s r) = bk_book_receive_ns s"
  "bk_last_verified_snapshot_hash (record_invalidated s r) = bk_last_verified_snapshot_hash s"
  "bk_levels (record_invalidated s r) = bk_levels s"
  "bk_staging (record_invalidated s r) = bk_staging s"
  "bk_change_keys (record_invalidated s r) = bk_change_keys s"
  "bk_book_ready (record_invalidated s r) = bk_book_ready s"
  "bk_pending_external_fault (record_invalidated s r) = bk_pending_external_fault s"
  "bk_pending_external_fault_generation (record_invalidated s r) = bk_pending_external_fault_generation s"
  "bk_ever_committed_snapshot (record_invalidated s r) = bk_ever_committed_snapshot s"
  "bk_reason (record_invalidated s r) = r"
  by (cases r; simp add: record_invalidated_def Let_def)+

lemma invalidated_frame [simp]:
  "bk_authority_id (invalidated s r) = bk_authority_id s"
  "bk_instrument (invalidated s r) = bk_instrument s"
  "bk_expected_fingerprint (invalidated s r) = bk_expected_fingerprint s"
  "bk_expected_contract (invalidated s r) = bk_expected_contract s"
  "bk_freshness (invalidated s r) = bk_freshness s"
  "bk_metadata_revision (invalidated s r) = bk_metadata_revision s"
  "bk_metadata_receive_ns (invalidated s r) = bk_metadata_receive_ns s"
  "bk_metadata_valid (invalidated s r) = bk_metadata_valid s"
  "bk_connection_epoch (invalidated s r) = bk_connection_epoch s"
  "bk_requires_reconnect (invalidated s r) = bk_requires_reconnect s"
  "bk_last_ingress_sequence (invalidated s r) = bk_last_ingress_sequence s"
  "bk_last_ingress_receive_ns (invalidated s r) = bk_last_ingress_receive_ns s"
  "bk_snapshot_revision (invalidated s r) = bk_snapshot_revision s"
  "bk_last_committed_snapshot_revision (invalidated s r) = bk_last_committed_snapshot_revision s"
  "bk_book_receive_ns (invalidated s r) = bk_book_receive_ns s"
  "bk_last_verified_snapshot_hash (invalidated s r) = bk_last_verified_snapshot_hash s"
  "bk_levels (invalidated s r) = bk_levels s"
  "bk_staging (invalidated s r) = bk_staging s"
  "bk_change_keys (invalidated s r) = bk_change_keys s"
  "bk_pending_external_fault (invalidated s r) = bk_pending_external_fault s"
  "bk_pending_external_fault_generation (invalidated s r) = bk_pending_external_fault_generation s"
  "bk_ever_committed_snapshot (invalidated s r) = bk_ever_committed_snapshot s"
  "\<not> bk_book_ready (invalidated s r)"
  "bk_reason (invalidated s r) = r"
  by (simp_all add: invalidated_def)

lemma metadata_rejected_frame [simp]:
  "bk_authority_id (metadata_rejected s r) = bk_authority_id s"
  "bk_instrument (metadata_rejected s r) = bk_instrument s"
  "bk_expected_fingerprint (metadata_rejected s r) = bk_expected_fingerprint s"
  "bk_expected_contract (metadata_rejected s r) = bk_expected_contract s"
  "bk_freshness (metadata_rejected s r) = bk_freshness s"
  "bk_metadata_revision (metadata_rejected s r) = bk_metadata_revision s"
  "bk_metadata_receive_ns (metadata_rejected s r) = bk_metadata_receive_ns s"
  "bk_connection_epoch (metadata_rejected s r) = bk_connection_epoch s"
  "bk_requires_reconnect (metadata_rejected s r) = bk_requires_reconnect s"
  "bk_last_ingress_sequence (metadata_rejected s r) = bk_last_ingress_sequence s"
  "bk_last_ingress_receive_ns (metadata_rejected s r) = bk_last_ingress_receive_ns s"
  "bk_snapshot_revision (metadata_rejected s r) = bk_snapshot_revision s"
  "bk_last_committed_snapshot_revision (metadata_rejected s r) = bk_last_committed_snapshot_revision s"
  "bk_book_receive_ns (metadata_rejected s r) = bk_book_receive_ns s"
  "bk_last_verified_snapshot_hash (metadata_rejected s r) = bk_last_verified_snapshot_hash s"
  "bk_levels (metadata_rejected s r) = bk_levels s"
  "bk_staging (metadata_rejected s r) = bk_staging s"
  "bk_change_keys (metadata_rejected s r) = bk_change_keys s"
  "bk_pending_external_fault (metadata_rejected s r) = bk_pending_external_fault s"
  "bk_pending_external_fault_generation (metadata_rejected s r) = bk_pending_external_fault_generation s"
  "bk_ever_committed_snapshot (metadata_rejected s r) = bk_ever_committed_snapshot s"
  "\<not> bk_metadata_valid (metadata_rejected s r)"
  "\<not> bk_book_ready (metadata_rejected s r)"
  "bk_reason (metadata_rejected s r) = r"
  by (simp_all add: metadata_rejected_def Let_def)

end
