(* ===== verification/Pm_Book_Invariant.thy ===== *)
theory Pm_Book_Invariant
  imports Pm_Book
begin

text \<open>
  Correctness of the public book reducer: its invariant over every reachable state, the
  refinement of its level vector to a finite map, failure atomicity, and the conditions under
  which a quote-ready top of book can be observed.
\<close>

section \<open>The invariant\<close>

definition book_tick :: "PmBookReducer \<Rightarrow> PmTick" where
  "book_tick s = md_tick (contract_market (bk_expected_contract s))"

definition ready_evidence :: "PmBookReducer \<Rightarrow> bool" where
  "ready_evidence s \<longleftrightarrow>
     bk_metadata_valid s \<and> bk_connection_epoch s \<noteq> None \<and> \<not> bk_requires_reconnect s
     \<and> bk_snapshot_revision s \<noteq> None \<and> bk_snapshot_revision s = bk_last_committed_snapshot_revision s
     \<and> bk_book_receive_ns s \<noteq> None \<and> sha1_evidence (bk_last_verified_snapshot_hash s)
     \<and> bk_levels s \<noteq> [] \<and> bk_pending_external_fault s = None"

definition pending_evidence :: "PmBookReducer \<Rightarrow> PendingExternalBookFault \<Rightarrow> bool" where
  "pending_evidence s p \<longleftrightarrow>
     pending_reason (pending_fault p) = Some (bk_reason s) \<and> bk_connection_epoch s = Some (pending_epoch p)
     \<and> pending_generation p = bk_pending_external_fault_generation s \<and> \<not> bk_requires_reconnect s"

definition book_inv :: "PmBookReducer \<Rightarrow> bool" where
  "book_inv s \<longleftrightarrow>
     validate_expected_contract (bk_expected_contract s) = Ok ()
     \<and> (bk_levels s = [] \<or> canonical_book (book_tick s) (bk_levels s))
     \<and> (bk_metadata_valid s \<longrightarrow> bk_metadata_revision s \<noteq> None \<and> bk_metadata_receive_ns s \<noteq> None)
     \<and> (bk_book_ready s \<longrightarrow> ready_evidence s)
     \<and> (\<forall>p. bk_pending_external_fault s = Some p \<longrightarrow> pending_evidence s p)
     \<and> (\<forall>m b. bk_metadata_receive_ns s = Some m \<longrightarrow> bk_book_receive_ns s = Some b \<longrightarrow> m \<le> b)"

lemmas book_inv_defs = book_inv_def ready_evidence_def pending_evidence_def book_tick_def

lemma book_inv_bump [simp]: "book_inv (bump f s) = book_inv s"
  by (simp add: book_inv_defs)

lemma book_inv_note [simp]: "book_inv (note_unavailable_transition s) = book_inv s"
  by (simp add: book_inv_defs)

lemma book_inv_scratch [simp]:
  "book_inv (s\<lparr>bk_staging := st\<rparr>) = book_inv s"
  "book_inv (s\<lparr>bk_change_keys := ks\<rparr>) = book_inv s"
  "book_inv (s\<lparr>bk_last_ingress_sequence := q\<rparr>) = book_inv s"
  "book_inv (s\<lparr>bk_last_ingress_receive_ns := n\<rparr>) = book_inv s"
  by (simp_all add: book_inv_defs)

lemma book_inv_invalidate [simp]:
  "book_inv s \<Longrightarrow> bk_pending_external_fault s = None \<Longrightarrow> book_inv (invalidated s r)"
  by (simp add: book_inv_defs)

lemma book_inv_reject [simp]:
  "book_inv s \<Longrightarrow> bk_pending_external_fault s = None \<Longrightarrow> book_inv (metadata_rejected s r)"
  by (simp add: book_inv_defs)

lemma book_inv_ready: "book_inv s \<Longrightarrow> reducer_ready s \<longleftrightarrow> bk_book_ready s"
  by (auto simp: book_inv_defs reducer_ready_iff)

section \<open>Evidence checks\<close>

definition evidence_ok :: "PmBookReducer \<Rightarrow> PmBookBatchEvidence \<Rightarrow> bool" where
  "evidence_ok s ev \<longleftrightarrow>
     bk_metadata_valid s \<and> ev_instrument ev = bk_instrument s
     \<and> bk_connection_epoch s = Some (ev_connection_epoch ev) \<and> \<not> bk_requires_reconnect s
     \<and> (\<forall>q. bk_last_ingress_sequence s = Some q \<longrightarrow> q < ev_local_ingress_sequence ev)
     \<and> (\<forall>n. bk_last_ingress_receive_ns s = Some n \<longrightarrow> n \<le> ev_monotonic_receive_ns ev)
     \<and> (\<forall>n. bk_metadata_receive_ns s = Some n \<longrightarrow> n \<le> ev_monotonic_receive_ns ev)
     \<and> bk_metadata_revision s = Some (ev_metadata_revision ev)"

definition admit_evidence :: "PmBookReducer \<Rightarrow> PmBookBatchEvidence \<Rightarrow> PmBookReducer" where
  "admit_evidence s ev = s\<lparr>bk_last_ingress_sequence := Some (ev_local_ingress_sequence ev),
     bk_last_ingress_receive_ns := Some (ev_monotonic_receive_ns ev)\<rparr>"

lemma validate_ingress_Ok:
  "validate_ingress s q = (s', Ok u) \<longleftrightarrow>
     s' = s\<lparr>bk_last_ingress_sequence := Some q\<rparr> \<and> (\<forall>p. bk_last_ingress_sequence s = Some p \<longrightarrow> p < q)"
  by (auto simp: validate_ingress_def split: option.splits)

lemma validate_common_evidence_Ok:
  "validate_common_evidence s ev = (s', Ok u) \<longleftrightarrow> s' = admit_evidence s ev \<and> evidence_ok s ev"
  by (cases "bk_last_ingress_receive_ns s"; cases "bk_metadata_receive_ns s")
    (auto simp: validate_common_evidence_def then_do_Ok validate_ingress_Ok admit_evidence_def evidence_ok_def Let_def not_less)

text \<open>A refused update leaves the committed book as it was and the reducer not ready.\<close>

definition closed_from :: "PmBookReducer \<Rightarrow> PmBookReducer \<Rightarrow> bool" where
  "closed_from s s' \<longleftrightarrow>
     book_inv s' \<and> \<not> bk_book_ready s' \<and> bk_pending_external_fault s' = None \<and> bk_levels s' = bk_levels s
     \<and> bk_expected_contract s' = bk_expected_contract s \<and> bk_authority_id s' = bk_authority_id s
     \<and> bk_snapshot_revision s' = bk_snapshot_revision s
     \<and> bk_last_committed_snapshot_revision s' = bk_last_committed_snapshot_revision s
     \<and> bk_metadata_revision s' = bk_metadata_revision s \<and> bk_connection_epoch s' = bk_connection_epoch s"

lemma closed_from_invalidated:
  "book_inv s \<Longrightarrow> bk_pending_external_fault s = None \<Longrightarrow> closed_from s (invalidated s r)"
  by (simp add: closed_from_def)

lemma closed_from_frame [simp]:
  "closed_from (bump f s) t = closed_from s t"
  "closed_from (note_unavailable_transition s) t = closed_from s t"
  "closed_from (s\<lparr>bk_staging := st\<rparr>) t = closed_from s t"
  "closed_from (s\<lparr>bk_change_keys := ks\<rparr>) t = closed_from s t"
  "closed_from (s\<lparr>bk_last_ingress_sequence := q\<rparr>) t = closed_from s t"
  "closed_from (s\<lparr>bk_last_ingress_receive_ns := n\<rparr>) t = closed_from s t"
  "closed_from (admit_evidence s ev) t = closed_from s t"
  by (simp_all add: closed_from_def admit_evidence_def)

lemma closed_invalidated_bump [simp]:
  "book_inv s \<Longrightarrow> bk_pending_external_fault s = None \<Longrightarrow> closed_from s (invalidated (bump f s) r)"
  using closed_from_invalidated [of "bump f s" r] by simp

lemma validate_ingress_Err:
  assumes "book_inv s" "bk_pending_external_fault s = None" "validate_ingress s q = (s', Err e)"
  shows "closed_from s s'"
  using assms by (auto simp: validate_ingress_def split: option.splits if_splits)

lemma validate_common_evidence_Err:
  assumes "book_inv s" "bk_pending_external_fault s = None" "validate_common_evidence s ev = (s', Err e)"
  shows "closed_from s s'"
proof (cases "bk_metadata_valid s")
  case False
  then show ?thesis
    using assms by (auto simp: validate_common_evidence_def closed_from_def book_inv_defs)
next
  case True
  show ?thesis
    using assms True validate_ingress_Err [OF assms(1,2)] closed_from_invalidated [of "s\<lparr>bk_last_ingress_sequence := q\<rparr>" for q]
      closed_from_invalidated [of "s\<lparr>bk_last_ingress_sequence := q, bk_last_ingress_receive_ns := n\<rparr>" for q n]
      closed_from_invalidated [OF assms(1,2)]
    by (auto simp: validate_common_evidence_def Let_def validate_ingress_Ok then_do_Err split: if_splits)
qed

lemma evidence_ok_bump [simp]: "evidence_ok (bump f s) ev = evidence_ok s ev"
  by (simp add: evidence_ok_def)

lemma book_inv_admit [simp]: "book_inv (admit_evidence s ev) = book_inv s"
  by (simp add: admit_evidence_def)

lemma admit_frame [simp]:
  "bk_levels (admit_evidence s ev) = bk_levels s"
  "bk_expected_contract (admit_evidence s ev) = bk_expected_contract s"
  "bk_pending_external_fault (admit_evidence s ev) = bk_pending_external_fault s"
  "bk_last_committed_snapshot_revision (admit_evidence s ev) = bk_last_committed_snapshot_revision s"
  "bk_snapshot_revision (admit_evidence s ev) = bk_snapshot_revision s"
  "bk_metadata_revision (admit_evidence s ev) = bk_metadata_revision s"
  "bk_metadata_receive_ns (admit_evidence s ev) = bk_metadata_receive_ns s"
  "bk_metadata_valid (admit_evidence s ev) = bk_metadata_valid s"
  "bk_connection_epoch (admit_evidence s ev) = bk_connection_epoch s"
  "bk_requires_reconnect (admit_evidence s ev) = bk_requires_reconnect s"
  "bk_book_ready (admit_evidence s ev) = bk_book_ready s"
  "bk_reason (admit_evidence s ev) = bk_reason s"
  "bk_authority_id (admit_evidence s ev) = bk_authority_id s"
  "reducer_ready (admit_evidence s ev) = reducer_ready s"
  by (simp_all add: admit_evidence_def reducer_ready_iff)

lemma reducer_ready_bump [simp]: "reducer_ready (bump f s) = reducer_ready s"
  by (simp add: reducer_ready_iff)

section \<open>Snapshots\<close>

definition snapshot_state :: "PmBookReducer \<Rightarrow> PmBookBatchEvidence \<Rightarrow> PmBookSnapshot \<Rightarrow> PmBookReducer" where
  "snapshot_state s ev snapshot =
     commit_snapshot ((admit_evidence (bump (ctr_snapshot_attempts_update sat_inc) s) ev)
       \<lparr>bk_staging := sort_unstable_by compare_levels (snapshot_levels snapshot)\<rparr>) ev (length (snapshot_levels snapshot))"

lemma apply_snapshot_Err:
  assumes "book_inv s" "bk_pending_external_fault s = None" "apply_snapshot s ev snapshot = (s', Err e)"
  shows "closed_from s s'"
proof -
  let ?s = "bump (ctr_snapshot_attempts_update sat_inc) s"
  show ?thesis
    using assms validate_common_evidence_Err [of ?s ev s' e]
    by (auto simp: apply_snapshot_def then_do_Err validate_common_evidence_Ok validate_snapshot_hash_def Let_def
        split: if_splits prod.splits result.splits)
      (auto simp: closed_from_def)
qed

lemma apply_snapshot_Ok:
  assumes "apply_snapshot s ev snapshot = (s', Ok t)"
  shows "evidence_ok s ev" "sha1_evidence (ev_venue_hash ev)" "bk_pending_external_fault s = None"
    "\<forall>r. bk_last_committed_snapshot_revision s = Some r \<longrightarrow> r < ev_snapshot_revision ev"
    "canonical_book (book_tick s) (sort_unstable_by compare_levels (snapshot_levels snapshot))"
    "s' = snapshot_state s ev snapshot"
    "t = SnapshotCommitted (ev_snapshot_revision ev) (word_of_nat (length (snapshot_levels snapshot))) (commit_proof s' ev)"
proof -
  let ?s = "admit_evidence (bump (ctr_snapshot_attempts_update sat_inc) s) ev"
  have 1: "evidence_ok s ev" "sha1_evidence (ev_venue_hash ev)" "bk_pending_external_fault s = None"
    "\<not> is_some_and (\<lambda>r. ev_snapshot_revision ev \<le> r) (bk_last_committed_snapshot_revision s)"
    and 2: "validate_and_sort_levels (snapshot_levels snapshot) (contract_market (bk_expected_contract s)) True
      = (sort_unstable_by compare_levels (snapshot_levels snapshot), Ok ()) \<and> s' = snapshot_state s ev snapshot
      \<and> t = SnapshotCommitted (ev_snapshot_revision ev) (word_of_nat (length (snapshot_levels snapshot))) (commit_proof s' ev)"
    using assms validate_and_sort_levels_Ok(2) [of "snapshot_levels snapshot" "contract_market (bk_expected_contract s)" True]
    by (auto simp: apply_snapshot_def then_do_Ok validate_common_evidence_Ok validate_snapshot_hash_def Let_def
        snapshot_state_def split: if_splits prod.splits result.splits)
  show "evidence_ok s ev" "sha1_evidence (ev_venue_hash ev)" "bk_pending_external_fault s = None"
    "s' = snapshot_state s ev snapshot"
    "t = SnapshotCommitted (ev_snapshot_revision ev) (word_of_nat (length (snapshot_levels snapshot))) (commit_proof s' ev)"
    using 1 2 by simp_all
  show "\<forall>r. bk_last_committed_snapshot_revision s = Some r \<longrightarrow> r < ev_snapshot_revision ev"
    using 1(4) by auto
  show "canonical_book (book_tick s) (sort_unstable_by compare_levels (snapshot_levels snapshot))"
    using 2 validate_and_sort_levels_Ok(1) unfolding book_tick_def by blast
qed

text \<open>
  The two \<open>expect\<close>s of \<open>apply_snapshot\<close> are reached only with the hash there and with at most
  \<^const>\<open>MAX_PM_BOOK_LEVELS\<close> levels, so neither can fail, and the reported count is exact; the
  same holds of the count that \<open>apply_delta_batch\<close> reports.
\<close>

lemma apply_snapshot_expects:
  assumes "apply_snapshot s ev snapshot = (s', Ok t)"
  shows "\<exists>hash. ev_venue_hash ev = Some hash \<and> t = SnapshotCommitted (ev_snapshot_revision ev)
        (word_of_nat (length (snapshot_levels snapshot))) ((commit_proof s' ev)\<lparr>proof_venue_hash := hash\<rparr>)"
    and "length (snapshot_levels snapshot) \<le> MAX_PM_BOOK_LEVELS"
    and "unat (word_of_nat (length (snapshot_levels snapshot)) :: u16) = length (snapshot_levels snapshot)"
proof -
  show "\<exists>hash. ev_venue_hash ev = Some hash \<and> t = SnapshotCommitted (ev_snapshot_revision ev)
      (word_of_nat (length (snapshot_levels snapshot))) ((commit_proof s' ev)\<lparr>proof_venue_hash := hash\<rparr>)"
    using apply_snapshot_Ok(2,7) [OF assms] by (cases "ev_venue_hash ev") (auto simp: sha1_evidence_def commit_proof_def)
  show few: "length (snapshot_levels snapshot) \<le> MAX_PM_BOOK_LEVELS"
    using assms by (auto simp: apply_snapshot_def then_do_Ok Let_def split: if_splits)
  show "unat (word_of_nat (length (snapshot_levels snapshot)) :: u16) = length (snapshot_levels snapshot)"
    using few by (simp add: unat_of_nat MAX_PM_BOOK_LEVELS_def)
qed

lemma commit_snapshot_frame [simp]:
  "bk_levels (commit_snapshot s ev n) = bk_staging s"
  "bk_staging (commit_snapshot s ev n) = bk_levels s"
  "bk_expected_contract (commit_snapshot s ev n) = bk_expected_contract s"
  "bk_pending_external_fault (commit_snapshot s ev n) = bk_pending_external_fault s"
  "bk_last_committed_snapshot_revision (commit_snapshot s ev n) = Some (ev_snapshot_revision ev)"
  "bk_snapshot_revision (commit_snapshot s ev n) = Some (ev_snapshot_revision ev)"
  "bk_metadata_revision (commit_snapshot s ev n) = bk_metadata_revision s"
  "bk_metadata_receive_ns (commit_snapshot s ev n) = bk_metadata_receive_ns s"
  "bk_metadata_valid (commit_snapshot s ev n) = bk_metadata_valid s"
  "bk_connection_epoch (commit_snapshot s ev n) = bk_connection_epoch s"
  "bk_requires_reconnect (commit_snapshot s ev n) = bk_requires_reconnect s"
  "bk_book_receive_ns (commit_snapshot s ev n) = Some (ev_monotonic_receive_ns ev)"
  "bk_last_verified_snapshot_hash (commit_snapshot s ev n) = ev_venue_hash ev"
  "bk_book_ready (commit_snapshot s ev n)"
  "bk_last_ingress_sequence (commit_snapshot s ev n) = bk_last_ingress_sequence s"
  "bk_authority_id (commit_snapshot s ev n) = bk_authority_id s"
  by (simp_all add: commit_snapshot_def Let_def)

lemma canonical_book_nonempty: "canonical_book tick levels \<Longrightarrow> levels \<noteq> []"
  by (auto simp: canonical_book_def canonical_top_def)

lemma apply_snapshot_inv:
  assumes "book_inv s" "apply_snapshot s ev snapshot = (s', Ok t)"
  shows "book_inv s'"
  using assms(1) apply_snapshot_Ok [OF assms(2)] canonical_book_nonempty
  by (auto simp: book_inv_defs snapshot_state_def evidence_ok_def)

section \<open>Delta batches\<close>

lemma collect_change_keys_Ok:
  assumes "sorted_by_key compare_keys (\<lambda>k. k) keys" "collect_change_keys tick keys changes = (keys', Ok ())"
  shows "distinct (map level_key changes) \<and> set (map level_key changes) \<inter> set keys = {}
    \<and> (\<forall>change \<in> set changes. \<not> off_tick tick change)"
  using assms
proof (induction changes arbitrary: keys)
  case (Cons c cs)
  obtain i where i: "binary_search_by (\<lambda>k. compare_keys k (level_key c)) keys = Err i"
    and c: "\<not> off_tick tick c" "collect_change_keys tick (vec_insert i (level_key c) keys) cs = (keys', Ok ())"
    using Cons.prems(2) by (auto simp: Let_def split: if_splits result.splits)
  have "sorted_by_key compare_keys (\<lambda>k. k) (vec_insert i (level_key c) keys)"
    using key_order.sorted_insert [OF Cons.prems(1) i] by simp
  from Cons.IH [OF this c(2)] show ?case
    using c(1) key_order.search_Err_absent [OF Cons.prems(1) i] by auto
qed simp

lemma stage_delta_batch_Err:
  assumes "book_inv s" "bk_pending_external_fault s = None" "stage_delta_batch s ev batch = (s', Err e)"
  shows "closed_from s s'"
proof -
  have top: False
    if "validate_and_sort_levels staging market False = (levels, Ok ())" "canonical_top levels = Err e"
    for staging market levels
    using validate_and_sort_levels_Ok(1) [OF that(1)] that(2) by (simp add: canonical_book_def)
  show ?thesis
    using assms
    by (auto simp: stage_delta_batch_def Let_def split: if_splits prod.splits result.splits)
      (auto simp: closed_from_def dest: top)
qed

lemma stage_delta_batch_Ok:
  assumes inv: "book_inv s" "bk_levels s \<noteq> []"
    and ok: "stage_delta_batch s ev batch = (s', Ok t)"
  obtains staging keys where
    "s' = commit_delta (bump (ctr_delta_top_checks_update sat_inc) (s\<lparr>bk_change_keys := keys, bk_staging := staging\<rparr>))
            ev (length (batch_changes batch))"
    "canonical_book (book_tick s) staging"
    "distinct (map level_key (batch_changes batch))"
    "\<forall>change \<in> set (batch_changes batch). \<not> off_tick (book_tick s) change"
    "book_map staging = delta_map (book_map (bk_levels s)) (batch_changes batch)"
    "\<exists>bid ask. canonical_top staging = Ok (bid, ask)
       \<and> batch_expected_top batch = \<lparr>check_bid = Some bid, check_ask = Some ask\<rparr>"
    "t = DeltaBatchCommitted (ev_snapshot_revision ev) (word_of_nat (length (batch_changes batch)))"
proof -
  let ?cs = "batch_changes batch" and ?m = "contract_market (bk_expected_contract s)"
  let ?del = "filter (\<lambda>c. level_quantity c = Delete) ?cs" and ?ins = "filter (\<lambda>c. level_quantity c \<noteq> Delete) ?cs"
  obtain keys st1 st2 st bid ask where
    keys: "collect_change_keys (md_tick ?m) [] ?cs = (keys, Ok ())"
    and st1: "apply_changes (bk_levels s) ?del = (st1, Ok ())"
    and st2: "apply_changes st1 ?ins = (st2, Ok ())"
    and st: "validate_and_sort_levels st2 ?m False = (st, Ok ())"
    and tp: "canonical_top st = Ok (bid, ask)" "check_bid (batch_expected_top batch) = Some bid"
      "check_ask (batch_expected_top batch) = Some ask"
    and s': "s' = commit_delta (bump (ctr_delta_top_checks_update sat_inc)
        (s\<lparr>bk_change_keys := keys, bk_staging := st\<rparr>)) ev (length ?cs)"
    and t: "t = DeltaBatchCommitted (ev_snapshot_revision ev) (word_of_nat (length ?cs))"
    using ok by (auto simp: stage_delta_batch_def Let_def split: if_splits prod.splits result.splits)
  have lv: "book_sorted (bk_levels s)"
    using inv by (auto simp: book_inv_def canonical_book_def)
  have ks: "distinct (map level_key ?cs)" "\<forall>change \<in> set ?cs. \<not> off_tick (book_tick s) change"
    using collect_change_keys_Ok [OF _ keys] by (simp_all add: sorted_by_key_def book_tick_def)
  have both: "apply_changes (bk_levels s) (?del @ ?ins) = (st2, Ok ())"
    using st1 st2 by (simp add: apply_changes_append)
  have "st = st2"
    using validate_and_sort_levels_Ok(2) [OF st] book_order.sort_sorted [OF apply_changes_Ok(1) [OF lv both]]
    by (simp add: compare_levels_eq)
  then have "book_map st = delta_map (book_map (bk_levels s)) ?cs"
    using apply_changes_Ok(2) [OF lv both] delta_map_deletes_first [OF ks(1)] by simp
  moreover have "batch_expected_top batch = \<lparr>check_bid = Some bid, check_ask = Some ask\<rparr>"
    using tp by simp
  ultimately show ?thesis
    using that s' t tp(1) ks validate_and_sort_levels_Ok(1) [OF st] unfolding book_tick_def by blast
qed

lemma apply_delta_batch_Err:
  assumes "book_inv s" "bk_pending_external_fault s = None" "apply_delta_batch s ev batch = (s', Err e)"
  shows "closed_from s s'"
proof -
  let ?s = "bump (ctr_delta_batch_attempts_update sat_inc) s"
  show ?thesis
    using assms validate_common_evidence_Err [of ?s ev s' e] stage_delta_batch_Err [of "admit_evidence ?s ev" ev batch s' e]
    by (auto simp: apply_delta_batch_def then_do_Err validate_common_evidence_Ok validate_absent_singular_hash_def
        split: if_splits)
      (auto simp: closed_from_def)
qed

lemma apply_delta_batch_Ok:
  assumes "apply_delta_batch s ev batch = (s', Ok t)"
  shows "evidence_ok s ev" "reducer_ready s" "bk_pending_external_fault s = None"
    "bk_snapshot_revision s = Some (ev_snapshot_revision ev)" "batch_changes batch \<noteq> []"
    "stage_delta_batch (admit_evidence (bump (ctr_delta_batch_attempts_update sat_inc) s) ev) ev batch = (s', Ok t)"
  using assms
  by (auto simp: apply_delta_batch_def then_do_Ok validate_common_evidence_Ok validate_absent_singular_hash_def
      split: if_splits)

lemma apply_delta_batch_expects:
  assumes "apply_delta_batch s ev batch = (s', Ok t)"
  shows "length (batch_changes batch) \<le> MAX_PM_BOOK_LEVELS"
    and "unat (word_of_nat (length (batch_changes batch)) :: u16) = length (batch_changes batch)"
proof -
  show few: "length (batch_changes batch) \<le> MAX_PM_BOOK_LEVELS"
    using assms by (auto simp: apply_delta_batch_def then_do_Ok Let_def split: if_splits)
  show "unat (word_of_nat (length (batch_changes batch)) :: u16) = length (batch_changes batch)"
    using few by (simp add: unat_of_nat MAX_PM_BOOK_LEVELS_def)
qed

lemma commit_delta_frame [simp]:
  "bk_levels (commit_delta s ev n) = bk_staging s"
  "bk_staging (commit_delta s ev n) = bk_levels s"
  "bk_expected_contract (commit_delta s ev n) = bk_expected_contract s"
  "bk_pending_external_fault (commit_delta s ev n) = bk_pending_external_fault s"
  "bk_last_committed_snapshot_revision (commit_delta s ev n) = bk_last_committed_snapshot_revision s"
  "bk_snapshot_revision (commit_delta s ev n) = bk_snapshot_revision s"
  "bk_metadata_revision (commit_delta s ev n) = bk_metadata_revision s"
  "bk_metadata_receive_ns (commit_delta s ev n) = bk_metadata_receive_ns s"
  "bk_metadata_valid (commit_delta s ev n) = bk_metadata_valid s"
  "bk_connection_epoch (commit_delta s ev n) = bk_connection_epoch s"
  "bk_requires_reconnect (commit_delta s ev n) = bk_requires_reconnect s"
  "bk_book_receive_ns (commit_delta s ev n) = Some (ev_monotonic_receive_ns ev)"
  "bk_last_verified_snapshot_hash (commit_delta s ev n) = bk_last_verified_snapshot_hash s"
  "bk_book_ready (commit_delta s ev n)"
  "bk_last_ingress_sequence (commit_delta s ev n) = bk_last_ingress_sequence s"
  "bk_authority_id (commit_delta s ev n) = bk_authority_id s"
  by (simp_all add: commit_delta_def Let_def)

lemma apply_delta_batch_inv:
  assumes "book_inv s" "apply_delta_batch s ev batch = (s', Ok t)"
  shows "book_inv s'"
proof -
  note ok = apply_delta_batch_Ok [OF assms(2)]
  let ?s = "admit_evidence (bump (ctr_delta_batch_attempts_update sat_inc) s) ev"
  have re: "ready_evidence s"
    using assms(1) ok(2) by (simp add: book_inv_def reducer_ready_iff)
  have lv: "book_inv ?s" "bk_levels ?s \<noteq> []"
    using assms(1) re by (simp_all add: ready_evidence_def)
  obtain staging keys where
    "s' = commit_delta (bump (ctr_delta_top_checks_update sat_inc) (?s\<lparr>bk_change_keys := keys, bk_staging := staging\<rparr>))
            ev (length (batch_changes batch))"
    "canonical_book (book_tick ?s) staging"
    by (rule stage_delta_batch_Ok [OF lv ok(6)])
  then show ?thesis
    using assms(1) re ok(1,3) canonical_book_nonempty
    by (auto simp: book_inv_defs evidence_ok_def admit_evidence_def)
qed

section \<open>Top checks, tick changes, metadata, epochs, faults, freshness\<close>

lemma check_top_Err:
  assumes "book_inv s" "bk_pending_external_fault s = None" "check_top s ev observed = (s', Err e)"
  shows "closed_from s s'"
proof -
  let ?s = "bump (ctr_top_checks_update sat_inc) s"
  have top: "is_ok (canonical_top (bk_levels s))" if "reducer_ready s"
    using that assms(1) by (auto simp: book_inv_def ready_evidence_def reducer_ready_iff canonical_book_def)
  show ?thesis
    using assms top validate_common_evidence_Err [of ?s ev s' e]
    by (auto simp: check_top_def then_do_Err validate_common_evidence_Ok validate_absent_singular_hash_def
        split: if_splits result.splits)
      (auto simp: closed_from_def)
qed

lemma check_top_Ok:
  "check_top s ev observed = (s', Ok t) \<longleftrightarrow>
     bk_pending_external_fault s = None \<and> evidence_ok s ev \<and> ev_venue_hash ev = None \<and> reducer_ready s
     \<and> bk_snapshot_revision s = Some (ev_snapshot_revision ev)
     \<and> (\<exists>bid ask. canonical_top (bk_levels s) = Ok (bid, ask) \<and> observed = \<lparr>check_bid = Some bid, check_ask = Some ask\<rparr>)
     \<and> s' = bump (ctr_top_checks_confirmed_update sat_inc) (admit_evidence (bump (ctr_top_checks_update sat_inc) s) ev)
     \<and> t = TopConfirmed"
  by (cases observed)
    (auto simp: check_top_def then_do_Ok validate_common_evidence_Ok validate_absent_singular_hash_def
      split: if_splits result.splits)

lemma book_inv_close [simp]:
  "book_inv s \<Longrightarrow> bk_pending_external_fault s = None \<Longrightarrow> book_inv (record_invalidated s r)"
  "book_inv s \<Longrightarrow> book_inv (s\<lparr>bk_metadata_valid := False, bk_book_ready := False\<rparr>)"
  "book_inv s \<Longrightarrow> bk_pending_external_fault s = None
     \<Longrightarrow> book_inv (invalidated (bump f (bump g s\<lparr>bk_requires_reconnect := True\<rparr>)) r)"
  by (auto simp: book_inv_defs)

lemma tick_size_changed_closed:
  assumes "book_inv s" "bk_pending_external_fault s = None"
  shows "closed_from s (fst (tick_size_changed s ev old new)) \<and> \<not> is_ok (snd (tick_size_changed s ev old new))"
proof -
  obtain s' r where r: "validate_common_evidence s ev = (s', r)"
    by fastforce
  show ?thesis
  proof (cases r)
    case (Ok u)
    then have "s' = admit_evidence s ev"
      using r by (simp add: validate_common_evidence_Ok)
    then show ?thesis
      using assms r Ok by (cases "ev_venue_hash ev") (simp_all add: tick_size_changed_def
          validate_absent_singular_hash_def closed_from_def Let_def)
  next
    case (Err e)
    then show ?thesis
      using assms validate_common_evidence_Err [OF assms, of ev s' e] r by (simp add: tick_size_changed_def)
  qed
qed

lemma apply_metadata_Err:
  assumes "book_inv s" "bk_pending_external_fault s = None" "apply_metadata s ob = (s', Err e)"
  shows "closed_from s s'"
  using assms by (auto simp: apply_metadata_def closed_from_def Let_def split: if_splits result.splits)

lemma apply_metadata_Ok:
  assumes "apply_metadata s ob = (s', Ok t)"
  shows "bk_pending_external_fault s = None" "obs_instrument ob = bk_instrument s"
    "\<forall>r. bk_metadata_revision s = Some r \<longrightarrow> r < obs_revision ob"
    "validate_observed_contract (bk_expected_contract s) (obs_contract ob) = Ok ()"
    "obs_fingerprint ob = bk_expected_fingerprint s"
    "bk_metadata_revision s' = Some (obs_revision ob)" "bk_metadata_receive_ns s' = Some (obs_monotonic_receive_ns ob)"
    "bk_metadata_valid s'" "\<not> bk_book_ready s'" "bk_pending_external_fault s' = None" "bk_levels s' = bk_levels s"
    "bk_snapshot_revision s' = None" "bk_book_receive_ns s' = None"
    "bk_expected_contract s' = bk_expected_contract s" "bk_connection_epoch s' = bk_connection_epoch s"
    "bk_requires_reconnect s' = bk_requires_reconnect s" "bk_authority_id s' = bk_authority_id s"
    "bk_last_ingress_sequence s' = bk_last_ingress_sequence s" "bk_instrument s' = bk_instrument s"
    "bk_last_ingress_receive_ns s' = bk_last_ingress_receive_ns s"
    "bk_expected_fingerprint s' = bk_expected_fingerprint s"
    "bk_last_committed_snapshot_revision s' = bk_last_committed_snapshot_revision s"
  using assms
  by (cases "bk_metadata_revision s"; auto simp: apply_metadata_def Let_def not_le split: if_splits result.splits)+

lemma apply_metadata_inv:
  assumes "book_inv s" "apply_metadata s ob = (s', Ok t)"
  shows "book_inv s'"
  using assms(1) apply_metadata_Ok [OF assms(2)] by (simp add: book_inv_defs)

lemma begin_epoch_Err:
  assumes "book_inv s" "bk_pending_external_fault s = None" "begin_epoch s epoch = (s', Err e)"
  shows "closed_from s s'"
  using assms by (auto simp: begin_epoch_def closed_from_def Let_def split: if_splits option.splits)

lemma begin_epoch_Ok:
  assumes "begin_epoch s epoch = (s', Ok t)"
  shows "bk_pending_external_fault s = None" "epoch_guard (bk_connection_epoch s) epoch \<noteq> None"
    "bk_connection_epoch s' = Some epoch" "\<not> bk_requires_reconnect s'" "\<not> bk_book_ready s'"
    "bk_last_ingress_sequence s' = None" "bk_last_ingress_receive_ns s' = None"
    "bk_metadata_revision s' = bk_metadata_revision s" "bk_metadata_receive_ns s' = bk_metadata_receive_ns s"
    "bk_metadata_valid s' = bk_metadata_valid s" "bk_pending_external_fault s' = None" "bk_levels s' = bk_levels s"
    "bk_snapshot_revision s' = None" "bk_book_receive_ns s' = None" "bk_instrument s' = bk_instrument s"
    "bk_expected_contract s' = bk_expected_contract s" "bk_expected_fingerprint s' = bk_expected_fingerprint s"
    "bk_authority_id s' = bk_authority_id s"
    "bk_last_committed_snapshot_revision s' = bk_last_committed_snapshot_revision s"
  using assms by (auto simp: begin_epoch_def Let_def split: if_splits option.splits)

lemma begin_epoch_inv:
  assumes "book_inv s" "begin_epoch s epoch = (s', Ok t)"
  shows "book_inv s'"
  using assms(1) begin_epoch_Ok [OF assms(2)] by (simp add: book_inv_defs)

lemma external_fault_final_closed:
  assumes "book_inv s" "bk_pending_external_fault s = None"
  shows "closed_from s (fst (apply_external_fault_final s epoch fault))
    \<and> \<not> is_ok (snd (apply_external_fault_final s epoch fault))"
  using assms
  by (cases fault) (simp_all add: apply_external_fault_final_def closed_from_def Let_def)

lemma begin_pending_Err:
  assumes "book_inv s" "bk_pending_external_fault s = None" "begin_pending_external_fault s epoch fault = (s', Err e)"
  shows "closed_from s s'"
  using assms by (auto simp: begin_pending_external_fault_def closed_from_def split: if_splits option.splits)

lemma begin_pending_Ok:
  assumes "begin_pending_external_fault s epoch fault = (s', Ok a)"
  shows "bk_pending_external_fault s = None" "bk_connection_epoch s = Some epoch" "\<not> bk_requires_reconnect s"
    "unat (bk_pending_external_fault_generation s') = unat (bk_pending_external_fault_generation s) + 1"
    "a = \<lparr>auth_reducer_authority = bk_authority_id s,
      auth_generation = bk_pending_external_fault_generation s', auth_epoch = epoch, auth_fault = fault\<rparr>"
    "bk_pending_external_fault s' = Some \<lparr>pending_generation = bk_pending_external_fault_generation s',
      pending_epoch = epoch, pending_fault = fault\<rparr>"
    "pending_reason fault = Some (bk_reason s')" "\<not> bk_book_ready s'"
    "bk_metadata_revision s' = bk_metadata_revision s" "bk_metadata_receive_ns s' = bk_metadata_receive_ns s"
    "bk_metadata_valid s' = bk_metadata_valid s" "bk_levels s' = bk_levels s"
    "bk_snapshot_revision s' = bk_snapshot_revision s" "bk_book_receive_ns s' = bk_book_receive_ns s"
    "bk_expected_contract s' = bk_expected_contract s" "bk_connection_epoch s' = bk_connection_epoch s"
    "bk_requires_reconnect s' = bk_requires_reconnect s" "bk_authority_id s' = bk_authority_id s"
    "bk_last_committed_snapshot_revision s' = bk_last_committed_snapshot_revision s"
  using assms
  by (auto simp: begin_pending_external_fault_def checked_add_word_def unat_word_ariths(1) split: if_splits option.splits)

lemma begin_pending_inv:
  assumes "book_inv s" "begin_pending_external_fault s epoch fault = (s', Ok a)"
  shows "book_inv s'"
  using assms(1) begin_pending_Ok [OF assms(2)] by (simp add: book_inv_defs)

definition finalize_matches :: "PmBookReducer \<Rightarrow> PmPendingExternalBookFaultAuthority \<Rightarrow> PmExternalBookFault \<Rightarrow> bool" where
  "finalize_matches s a fault \<longleftrightarrow>
     auth_reducer_authority a = bk_authority_id s
     \<and> bk_pending_external_fault s = Some \<lparr>pending_generation = auth_generation a,
         pending_epoch = auth_epoch a, pending_fault = auth_fault a\<rparr>
     \<and> (fault = auth_fault a \<or> fault = InvalidTransition)"

lemma finalize_refused:
  "\<not> finalize_matches s a fault \<Longrightarrow> finalize_pending_external_fault s a fault = (s, Err (bk_reason s))"
  by (auto simp: finalize_pending_external_fault_def finalize_matches_def Let_def)

lemma finalize_accepted:
  assumes "book_inv s" "finalize_matches s a fault"
  shows "closed_from s (fst (finalize_pending_external_fault s a fault))
    \<and> \<not> is_ok (snd (finalize_pending_external_fault s a fault))"
proof -
  let ?s = "s\<lparr>bk_pending_external_fault := None\<rparr>"
  have "book_inv ?s"
    using assms by (auto simp: book_inv_defs finalize_matches_def)
  then show ?thesis
    using external_fault_final_closed [of ?s "auth_epoch a" fault] assms(2)
    by (auto simp: finalize_pending_external_fault_def finalize_matches_def closed_from_def)
qed

lemma check_freshness_Err:
  assumes "book_inv s" "bk_pending_external_fault s = None" "check_freshness s now = (s', Err e)"
  shows "closed_from s s'"
proof -
  have "\<not> bk_book_ready s" if "bk_metadata_receive_ns s = None \<or> bk_book_receive_ns s = None"
    using that assms(1) by (auto simp: book_inv_defs)
  moreover have "\<not> bk_book_ready s" if "\<not> reducer_ready s"
    using that assms(1) by (simp add: book_inv_ready)
  ultimately show ?thesis
    using assms
    by (auto simp: check_freshness_def Let_def split: if_splits option.splits)
      (auto simp: closed_from_def)
qed

lemma check_freshness_Ok:
  "check_freshness s now = (s', Ok t) \<longleftrightarrow>
     bk_pending_external_fault s = None \<and> reducer_ready s
     \<and> (\<exists>m b. bk_metadata_receive_ns s = Some m \<and> bk_book_receive_ns s = Some b \<and> m \<le> now \<and> b \<le> now
          \<and> now - m \<le> metadata_max_age_ns (bk_freshness s) \<and> now - b \<le> book_max_age_ns (bk_freshness s))
     \<and> s' = bump (ctr_freshness_confirmed_update sat_inc) (bump (ctr_freshness_checks_update sat_inc) s)
     \<and> t = FreshnessConfirmed"
  by (auto simp: check_freshness_def Let_def checked_sub_word_def not_less split: if_splits option.splits)

section \<open>Runs\<close>

text \<open>One call of the reducer's public interface, and whether it returned \<open>Ok\<close>.\<close>

datatype book_input =
    MetadataInput PmMetadataObservation
  | EpochInput ConnectionEpoch
  | UpdateInput PmBookBatchEvidence PmBookUpdate
  | FaultInput ConnectionEpoch PmExternalBookFault
  | BeginPendingInput ConnectionEpoch PmExternalBookFault
  | FinalizeInput PmPendingExternalBookFaultAuthority PmExternalBookFault
  | FreshnessInput u64

definition book_step :: "PmBookReducer \<Rightarrow> book_input \<Rightarrow> PmBookReducer \<times> bool" where
  "book_step s input =
     (case input of
        MetadataInput observation \<Rightarrow> map_prod id is_ok (apply_metadata s observation)
      | EpochInput epoch \<Rightarrow> map_prod id is_ok (begin_epoch s epoch)
      | UpdateInput evidence update \<Rightarrow> map_prod id is_ok (apply_update s evidence update)
      | FaultInput epoch fault \<Rightarrow> map_prod id is_ok (apply_external_fault s epoch fault)
      | BeginPendingInput epoch fault \<Rightarrow> map_prod id is_ok (begin_pending_external_fault s epoch fault)
      | FinalizeInput authority fault \<Rightarrow> map_prod id is_ok (finalize_pending_external_fault s authority fault)
      | FreshnessInput now \<Rightarrow> map_prod id is_ok (check_freshness s now))"

inductive book_reachable :: "PmBookReducer \<Rightarrow> bool" where
  new: "PmBookReducer_new next instrument fingerprint contract freshness = (next', Ok s) \<Longrightarrow> book_reachable s"
| step: "book_reachable s \<Longrightarrow> book_step s input = (s', accepted) \<Longrightarrow> book_reachable s'"

lemma map_prod_is_ok:
  "map_prod id is_ok r = (s', True) \<longleftrightarrow> (\<exists>a. r = (s', Ok a))"
  "map_prod id is_ok r = (s', False) \<longleftrightarrow> (\<exists>e. r = (s', Err e))"
  by (cases r; cases "snd r"; auto)+

lemma map_prod_is_ok_eq: "map_prod id is_ok r = (s', b) \<longleftrightarrow> s' = fst r \<and> (b \<longleftrightarrow> is_ok (snd r))"
  by (cases r) auto

lemma apply_update_Err:
  assumes "book_inv s" "bk_pending_external_fault s = None" "apply_update s ev update = (s', Err e)"
  shows "closed_from s s'"
proof (cases update)
  case (TickSizeChanged old new)
  then show ?thesis
    using assms tick_size_changed_closed [OF assms(1,2), of ev old new] by (simp add: apply_update_def)
qed (use assms apply_snapshot_Err [OF assms(1,2)] apply_delta_batch_Err [OF assms(1,2)] check_top_Err [OF assms(1,2)]
     in \<open>simp_all add: apply_update_def\<close>)

lemma book_step_refused:
  assumes "book_inv s" "bk_pending_external_fault s = None" "book_step s input = (s', False)"
  shows "closed_from s s' \<or> s' = s \<and> (\<exists>a f. input = FinalizeInput a f)"
proof (cases input)
  case (FinalizeInput a f)
  then show ?thesis
    using assms finalize_refused [of s a f] by (auto simp: book_step_def map_prod_is_ok finalize_matches_def)
next
  case (FaultInput epoch fault)
  then show ?thesis
    using assms external_fault_final_closed [OF assms(1,2), of epoch fault]
    by (auto simp: book_step_def map_prod_is_ok_eq apply_external_fault_def)
qed (use assms apply_metadata_Err begin_epoch_Err apply_update_Err begin_pending_Err check_freshness_Err
     in \<open>auto simp: book_step_def map_prod_is_ok\<close>)

lemma book_step_pending:
  assumes "book_inv s" "bk_pending_external_fault s = Some p" "book_step s input = (s', accepted)"
  shows "\<not> accepted \<and> (s' = s \<or> (\<exists>a f. input = FinalizeInput a f \<and> finalize_matches s a f \<and> closed_from s s'))"
proof (cases input)
  case (FinalizeInput a f)
  then show ?thesis
    using assms finalize_refused [of s a f] finalize_accepted [of s a f]
    by (cases "finalize_matches s a f") (auto simp: book_step_def map_prod_is_ok_eq)
qed (use assms in \<open>auto simp: book_step_def apply_metadata_def begin_epoch_def apply_update_def
     apply_external_fault_def begin_pending_external_fault_def check_freshness_def\<close>)

lemma apply_update_inv:
  assumes "book_inv s" "apply_update s ev update = (s', Ok t)"
  shows "book_inv s'"
proof -
  have none: "bk_pending_external_fault s = None"
    using assms(2) by (auto simp: apply_update_def split: if_splits)
  show ?thesis
  proof (cases update)
    case (TickSizeChanged old new)
    then show ?thesis
      using assms none tick_size_changed_closed [OF assms(1) none, of ev old new] by (simp add: apply_update_def)
  next
    case (TopCheck observed)
    then show ?thesis
      using assms none by (auto simp: apply_update_def check_top_Ok)
  qed (use assms none apply_snapshot_inv [OF assms(1)] apply_delta_batch_inv [OF assms(1)]
       in \<open>simp_all add: apply_update_def\<close>)
qed

lemma book_step_accepted_inv:
  assumes "book_inv s" "book_step s input = (s', True)"
  shows "book_inv s'"
proof (cases input)
  case (FinalizeInput a f)
  then show ?thesis
    using assms finalize_refused [of s a f] finalize_accepted [of s a f]
    by (cases "finalize_matches s a f") (auto simp: book_step_def map_prod_is_ok_eq)
next
  case (FaultInput epoch fault)
  then show ?thesis
    using assms external_fault_final_closed [OF assms(1), of epoch fault]
    by (cases "bk_pending_external_fault s") (auto simp: book_step_def map_prod_is_ok_eq apply_external_fault_def)
qed (use assms in \<open>auto simp: book_step_def map_prod_is_ok check_freshness_Ok
     intro: apply_metadata_inv begin_epoch_inv apply_update_inv begin_pending_inv\<close>)

lemma book_step_inv:
  assumes "book_inv s" "book_step s input = (s', accepted)"
  shows "book_inv s'"
proof (cases "bk_pending_external_fault s")
  case None
  then show ?thesis
    using assms book_step_refused [of s input s'] book_step_accepted_inv [of s input s']
    by (cases accepted) (auto simp: closed_from_def)
next
  case (Some p)
  then show ?thesis
    using assms book_step_pending [OF assms(1) Some assms(2)] by (auto simp: closed_from_def)
qed

lemma book_inv_new:
  "PmBookReducer_new next instrument fingerprint contract freshness = (next', Ok s) \<Longrightarrow> book_inv s"
  by (auto simp: PmBookReducer_new_def initial_reducer_def book_inv_defs split: result.splits prod.splits)

lemma reachable_inv: "book_reachable s \<Longrightarrow> book_inv s"
  by (induction rule: book_reachable.induct) (auto intro: book_inv_new book_step_inv)

end
