(* ===== verification/Pm_Book_Runs.thy ===== *)
theory Pm_Book_Runs
  imports Pm_Book_Invariant
begin

text \<open>
  Facts about whole runs of the public book reducer: the ordering evidence it keeps only
  grows, a delta batch commits exactly when its contract on the map of levels holds, and
  metadata, a new epoch and a snapshot always bring a reducer without a pending fault back
  to readiness.
\<close>

section \<open>Ordering evidence only grows\<close>

definition order_mono :: "PmBookReducer \<Rightarrow> PmBookReducer \<Rightarrow> bool" where
  "order_mono s s' \<longleftrightarrow>
     bk_authority_id s' = bk_authority_id s
     \<and> bk_metadata_revision s \<le> bk_metadata_revision s'
     \<and> bk_last_committed_snapshot_revision s \<le> bk_last_committed_snapshot_revision s'
     \<and> bk_connection_epoch s \<le> bk_connection_epoch s'
     \<and> (bk_connection_epoch s' = bk_connection_epoch s \<longrightarrow> bk_last_ingress_sequence s \<le> bk_last_ingress_sequence s')"

lemma order_mono_refl [simp]: "order_mono s s"
  by (simp add: order_mono_def)

lemma order_mono_trans: "order_mono s t \<Longrightarrow> order_mono t u \<Longrightarrow> order_mono s u"
  unfolding order_mono_def by (metis order_antisym order_trans)

lemma order_mono_frame [simp]:
  "order_mono s (bump f t) = order_mono s t"
  "order_mono s (note_unavailable_transition t) = order_mono s t"
  "order_mono s (record_invalidated t r) = order_mono s t"
  "order_mono s (invalidated t r) = order_mono s t"
  "order_mono s (metadata_rejected t r) = order_mono s t"
  "order_mono s (t\<lparr>bk_staging := st\<rparr>) = order_mono s t"
  "order_mono s (t\<lparr>bk_change_keys := ks\<rparr>) = order_mono s t"
  "order_mono s (t\<lparr>bk_requires_reconnect := b\<rparr>) = order_mono s t"
  "order_mono s (t\<lparr>bk_book_ready := b\<rparr>) = order_mono s t"
  "order_mono s (t\<lparr>bk_metadata_valid := b\<rparr>) = order_mono s t"
  "order_mono s (t\<lparr>bk_reason := r\<rparr>) = order_mono s t"
  "order_mono s (t\<lparr>bk_last_ingress_receive_ns := n\<rparr>) = order_mono s t"
  "order_mono s (t\<lparr>bk_pending_external_fault := p\<rparr>) = order_mono s t"
  "order_mono s (t\<lparr>bk_pending_external_fault_generation := g\<rparr>) = order_mono s t"
  "order_mono s (commit_delta t ev k) = order_mono s t"
  by (simp_all add: order_mono_def)

lemma order_mono_then_do:
  assumes "order_mono s (fst r)" "\<And>t a. r = (t, Ok a) \<Longrightarrow> order_mono t (fst (k t a))"
  shows "order_mono s (fst (then_do r k))"
proof (cases "snd r")
  case (Ok a)
  then show ?thesis
    using assms(1) assms(2) [of "fst r" a] order_mono_trans by (cases r) auto
next
  case (Err e)
  then show ?thesis
    using assms(1) by (cases r) auto
qed

lemma order_mono_ingress: "order_mono s (fst (validate_ingress s q))"
  by (auto simp: validate_ingress_def order_mono_def less_imp_le split: option.splits)

lemma order_mono_common: "order_mono s (fst (validate_common_evidence s ev))"
  by (auto simp: validate_common_evidence_def Let_def intro!: order_mono_then_do order_mono_ingress)

lemma order_mono_hash:
  "order_mono s (fst (validate_snapshot_hash s ev))" "order_mono s (fst (validate_absent_singular_hash s ev))"
  by (simp_all add: validate_snapshot_hash_def validate_absent_singular_hash_def)

lemma order_mono_common_bump: "order_mono s (fst (validate_common_evidence (bump f s) ev))"
  using order_mono_common [of "bump f s" ev] by (simp add: order_mono_def)

lemmas order_mono_checks = order_mono_common order_mono_common_bump order_mono_hash

lemma order_mono_commit_snapshot:
  "\<not> is_some_and (\<lambda>r. ev_snapshot_revision ev \<le> r) (bk_last_committed_snapshot_revision t)
     \<Longrightarrow> order_mono t (commit_snapshot t ev n)"
  by (cases "bk_last_committed_snapshot_revision t") (auto simp: order_mono_def)

lemma order_mono_snapshot: "order_mono s (fst (apply_snapshot s ev snapshot))"
proof -
  have staged: "order_mono t (commit_snapshot (t\<lparr>bk_staging := st\<rparr>) ev n)"
    if "\<not> is_some_and (\<lambda>r. ev_snapshot_revision ev \<le> r) (bk_last_committed_snapshot_revision t)" for t st n
    using order_mono_commit_snapshot [of ev "t\<lparr>bk_staging := st\<rparr>" n] that by (simp add: order_mono_def)
  show ?thesis
    by (auto simp: apply_snapshot_def Let_def staged intro!: order_mono_then_do order_mono_checks split: prod.splits result.splits)
qed

lemma order_mono_stage: "order_mono s (fst (stage_delta_batch s ev batch))"
  by (auto simp: stage_delta_batch_def Let_def split: prod.splits result.splits)

lemma order_mono_delta: "order_mono s (fst (apply_delta_batch s ev batch))"
  by (auto simp: apply_delta_batch_def intro!: order_mono_then_do order_mono_checks order_mono_stage)

lemma order_mono_top: "order_mono s (fst (check_top s ev observed))"
  by (auto simp: check_top_def intro!: order_mono_then_do order_mono_checks split: result.splits)

lemma order_mono_tick: "order_mono s (fst (tick_size_changed s ev old new))"
  by (auto simp: tick_size_changed_def Let_def intro!: order_mono_then_do order_mono_checks)

lemma order_mono_update: "order_mono s (fst (apply_update s ev update))"
  by (cases update) (simp_all add: apply_update_def order_mono_snapshot order_mono_delta order_mono_top order_mono_tick)

lemma order_mono_metadata: "order_mono s (fst (apply_metadata s ob))"
proof (cases "apply_metadata s ob")
  case (Pair s' r)
  show ?thesis
  proof (cases r)
    case (Ok t)
    note m = apply_metadata_Ok [OF Pair [unfolded Ok]]
    have "bk_metadata_revision s \<le> bk_metadata_revision s'"
      using m(3,6) by (cases "bk_metadata_revision s") (simp_all add: less_imp_le)
    then show ?thesis
      unfolding Pair order_mono_def by (simp add: m)
  next
    case (Err e)
    then show ?thesis
      using Pair by (auto simp: apply_metadata_def Let_def split: if_splits result.splits)
  qed
qed

lemma epoch_guard_less: "epoch_guard current epoch \<noteq> None \<Longrightarrow> current < Some epoch"
  by (auto simp: epoch_guard_def checked_add_word_def word_less_nat_alt unat_word_ariths(1)
      split: option.splits if_splits)

lemma order_mono_epoch: "order_mono s (fst (begin_epoch s epoch))"
proof (cases "begin_epoch s epoch")
  case (Pair s' r)
  show ?thesis
  proof (cases r)
    case (Ok t)
    note e = begin_epoch_Ok [OF Pair [unfolded Ok]]
    then show ?thesis
      using Pair epoch_guard_less [OF e(2)] by (auto simp: order_mono_def less_imp_le)
  next
    case (Err e)
    then show ?thesis
      using Pair by (auto simp: begin_epoch_def Let_def split: if_splits option.splits)
  qed
qed

lemma order_mono_fault_final: "order_mono s (fst (apply_external_fault_final s epoch fault))"
  by (cases fault) (simp_all add: apply_external_fault_final_def Let_def)

lemma order_mono_pending: "order_mono s (fst (begin_pending_external_fault s epoch fault))"
  by (auto simp: begin_pending_external_fault_def split: option.splits)

lemma order_mono_finalize: "order_mono s (fst (finalize_pending_external_fault s a fault))"
  using order_mono_fault_final [of "s\<lparr>bk_pending_external_fault := None\<rparr>" "auth_epoch a" fault]
  by (auto simp: finalize_pending_external_fault_def Let_def order_mono_def)

lemma order_mono_freshness: "order_mono s (fst (check_freshness s now))"
  by (auto simp: check_freshness_def Let_def split: option.splits)

lemma order_mono_step: "order_mono s (fst (book_step s input))"
  by (cases input)
    (simp_all add: book_step_def order_mono_metadata order_mono_epoch order_mono_update order_mono_fault_final
      order_mono_pending order_mono_finalize order_mono_freshness apply_external_fault_def)

definition book_run :: "PmBookReducer \<Rightarrow> book_input list \<Rightarrow> PmBookReducer" where
  "book_run = foldl (\<lambda>s input. fst (book_step s input))"

lemma order_mono_run: "order_mono s (book_run s inputs)"
proof (induction inputs arbitrary: s)
  case (Cons i rest)
  then show ?case
    using order_mono_trans [OF order_mono_step Cons.IH [of "fst (book_step s i)"]] by (simp add: book_run_def)
qed (simp add: book_run_def)

section \<open>When a delta batch commits\<close>

text \<open>The best prices of a map of levels.\<close>

definition map_top :: "(BookKey \<rightharpoonup> PmBookLevel) \<Rightarrow> PmPrice \<Rightarrow> PmPrice \<Rightarrow> bool" where
  "map_top m bid ask \<longleftrightarrow>
     BookKey Bid bid \<in> dom m \<and> (\<forall>p. BookKey Bid p \<in> dom m \<longrightarrow> p \<le> bid)
     \<and> BookKey Ask ask \<in> dom m \<and> (\<forall>p. BookKey Ask p \<in> dom m \<longrightarrow> ask \<le> p) \<and> bid < ask"

lemma book_map_dom: "dom (book_map levels) = level_key ` set levels"
  by (simp add: index_map_def dom_map_of_conv_image_fst image_image)

lemma card_book_map: "book_sorted levels \<Longrightarrow> card (dom (book_map levels)) = length levels"
  using book_order.sorted_by_key_distinct [of levels] distinct_card [of "map level_key levels"]
  by (simp add: book_map_dom)

lemma side_keys: "BookKey side p \<in> level_key ` set levels \<longleftrightarrow> (\<exists>l \<in> set levels. level_side l = side \<and> level_price l = p)"
  by (auto simp: level_key_def)

lemma find_side_price:
  "map_option level_price (find (\<lambda>l. level_side l = side) levels) = Some p
     \<Longrightarrow> \<exists>l \<in> set levels. find (\<lambda>l. level_side l = side) levels = Some l \<and> level_side l = side \<and> level_price l = p"
  by (auto simp: find_Some_iff)

lemma canonical_top_map:
  assumes "book_sorted levels"
  shows "canonical_top levels = Ok (bid, ask) \<longleftrightarrow> map_top (book_map levels) bid ask"
proof
  assume "canonical_top levels = Ok (bid, ask)"
  then obtain b a where "b \<in> set levels" "find (\<lambda>l. level_side l = Bid) levels = Some b" "level_side b = Bid"
      "level_price b = bid" "a \<in> set levels" "find (\<lambda>l. level_side l = Ask) levels = Some a" "level_side a = Ask"
      "level_price a = ask" "bid < ask"
    by (auto simp only: canonical_top_Ok dest!: find_side_price)
  then show "map_top (book_map levels) bid ask"
    using sorted_bid_first [OF assms, of b] sorted_ask_first [OF assms, of a]
    by (auto simp: map_top_def book_map_dom side_keys)
next
  assume m: "map_top (book_map levels) bid ask"
  then obtain l l' where "l \<in> set levels" "level_side l = Bid" "level_price l = bid"
      "l' \<in> set levels" "level_side l' = Ask" "level_price l' = ask"
    by (auto simp: map_top_def book_map_dom side_keys)
  moreover obtain b a where b: "find (\<lambda>l. level_side l = Bid) levels = Some b" "find (\<lambda>l. level_side l = Ask) levels = Some a"
    using calculation find_None_iff [of "\<lambda>l. level_side l = Bid" levels] find_None_iff [of "\<lambda>l. level_side l = Ask" levels]
    by (metis not_None_eq)
  moreover have "b \<in> set levels" "level_side b = Bid" "a \<in> set levels" "level_side a = Ask"
    using b by (auto simp: find_Some_iff)
  ultimately show "canonical_top levels = Ok (bid, ask)"
    using m sorted_bid_first [OF assms b(1)] sorted_ask_first [OF assms b(2)]
    by (auto simp: canonical_top_Ok map_top_def book_map_dom side_keys intro!: order_antisym)
qed

lemma collect_change_keys_complete:
  assumes "sorted_by_key compare_keys (\<lambda>k. k) keys" "distinct (map level_key changes)"
    "set (map level_key changes) \<inter> set keys = {}" "\<forall>change \<in> set changes. \<not> off_tick tick change"
  shows "\<exists>keys'. collect_change_keys tick keys changes = (keys', Ok ())"
  using assms
proof (induction changes arbitrary: keys)
  case (Cons c cs)
  have "\<not> is_ok (binary_search_by (\<lambda>k. compare_keys k (level_key c)) keys)"
    using Cons.prems(3) key_order.search_present [OF Cons.prems(1), of "level_key c"] by auto
  then obtain i where i: "binary_search_by (\<lambda>k. compare_keys k (level_key c)) keys = Err i"
    by (cases "binary_search_by (\<lambda>k. compare_keys k (level_key c)) keys") auto
  have "sorted_by_key compare_keys (\<lambda>k. k) (vec_insert i (level_key c) keys)"
    using key_order.sorted_insert [OF Cons.prems(1) i] by simp
  from Cons.IH [OF this] show ?case
    using Cons.prems i by (auto simp: Let_def)
qed simp

lemma apply_change_present:
  assumes "book_sorted levels"
  shows "is_ok (snd (apply_change levels change)) \<longleftrightarrow>
    (if level_quantity change = Delete then level_key change \<in> dom (book_map levels)
     else level_key change \<in> dom (book_map levels) \<or> length levels \<noteq> MAX_PM_BOOK_LEVELS)"
  using book_order.search_present [OF assms, of "level_key change"]
  by (auto simp: apply_change_def compare_level_to_key_def book_map_dom split: result.splits)

lemma apply_changes_deletes:
  assumes "book_sorted levels" "distinct (map level_key changes)"
    "\<forall>c \<in> set changes. level_quantity c = Delete \<and> level_key c \<in> dom (book_map levels)"
  shows "is_ok (snd (apply_changes levels changes))"
  using assms
proof (induction changes arbitrary: levels)
  case (Cons c cs)
  obtain levels' where l: "apply_change levels c = (levels', Ok ())"
    using apply_change_present [OF Cons.prems(1), of c] Cons.prems(3)
    by (cases "apply_change levels c"; cases "snd (apply_change levels c)") auto
  have "\<forall>d \<in> set cs. level_quantity d = Delete \<and> level_key d \<in> dom (book_map levels')"
    using Cons.prems(2,3) by (auto simp: apply_change_Ok(2) [OF Cons.prems(1) l] change_map_def)
      (metis image_eqI)
  then show ?case
    using Cons.IH [of levels'] Cons.prems(2) apply_change_Ok(1) [OF Cons.prems(1) l] l by simp
qed simp

lemma change_map_dom_mono:
  assumes "finite (dom m)" "\<forall>c \<in> set changes. level_quantity c \<noteq> Delete"
  shows "finite (dom (foldl change_map m changes)) \<and> dom m \<subseteq> dom (foldl change_map m changes)"
  using assms
proof (induction changes arbitrary: m)
  case (Cons c cs)
  then have "dom (change_map m c) = insert (level_key c) (dom m)"
    by (simp add: change_map_def)
  then show ?case
    using Cons.IH [of "change_map m c"] Cons.prems by simp
qed simp

lemma apply_changes_inserts:
  assumes "book_sorted levels" "\<forall>c \<in> set changes. level_quantity c \<noteq> Delete"
    "card (dom (foldl change_map (book_map levels) changes)) \<le> MAX_PM_BOOK_LEVELS"
  shows "is_ok (snd (apply_changes levels changes))"
  using assms
proof (induction changes arbitrary: levels)
  case (Cons c cs)
  let ?m = "change_map (book_map levels) c"
  have dm: "dom ?m = insert (level_key c) (dom (book_map levels))"
    using Cons.prems(2) by (simp add: change_map_def)
  then have fin: "finite (dom ?m)"
    by (simp add: book_map_dom)
  have "card (dom ?m) \<le> MAX_PM_BOOK_LEVELS"
    using change_map_dom_mono [OF fin, of cs] Cons.prems(2,3) card_mono [of "dom (foldl change_map ?m cs)" "dom ?m"] by simp
  then have "level_key c \<in> dom (book_map levels) \<or> length levels \<noteq> MAX_PM_BOOK_LEVELS"
    using card_book_map [OF Cons.prems(1)] by (auto simp: dm card_insert_if book_map_dom split: if_splits)
  then obtain levels' where l: "apply_change levels c = (levels', Ok ())"
    using apply_change_present [OF Cons.prems(1), of c] Cons.prems(2)
    by (cases "apply_change levels c"; cases "snd (apply_change levels c)") auto
  then show ?case
    using Cons.IH [of levels'] Cons.prems(2,3) apply_change_Ok(1,2) [OF Cons.prems(1) l] by simp
qed simp

lemma apply_changes_length:
  assumes "book_sorted levels" "apply_changes levels changes = (levels', Ok ())" "length levels \<le> MAX_PM_BOOK_LEVELS"
  shows "card (dom (foldl change_map (book_map levels) changes)) \<le> MAX_PM_BOOK_LEVELS"
  using card_book_map [OF apply_changes_Ok(1) [OF assms(1,2)]] apply_changes_Ok(2,3) [OF assms(1,2)] assms(3) by simp

lemma is_ok_unit: "is_ok (snd r) \<longleftrightarrow> (\<exists>s. r = (s, Ok ()))"
  by (cases r; cases "snd r") auto

lemma apply_changes_delete_present:
  assumes "book_sorted levels" "distinct (map level_key changes)" "apply_changes levels changes = (levels', Ok ())"
    "c \<in> set changes" "level_quantity c = Delete"
  shows "level_key c \<in> dom (book_map levels)"
  using assms
proof (induction changes arbitrary: levels)
  case (Cons d ds)
  obtain l where l: "apply_change levels d = (l, Ok ())" "apply_changes l ds = (levels', Ok ())"
    using Cons.prems(3) by (auto split: prod.splits result.splits)
  note m = apply_change_Ok(1,2) [OF Cons.prems(1) l(1)]
  show ?case
  proof (cases "c = d")
    case True
    then show ?thesis
      using apply_change_present [OF Cons.prems(1), of d] l(1) Cons.prems(5) by simp
  next
    case False
    then have "c \<in> set ds" "level_key c \<noteq> level_key d"
      using Cons.prems(2,4) False by (auto simp: image_iff)
    then show ?thesis
      using Cons.IH [OF m(1) _ l(2) _ Cons.prems(5)] Cons.prems(2) by (auto simp: m(2) change_map_def split: if_splits)
  qed
qed simp

lemma book_map_self: "book_sorted levels \<Longrightarrow> l \<in> set levels \<Longrightarrow> book_map levels (level_key l) = Some l"
  using book_order.index_map_nth by (auto simp: in_set_conv_nth)

lemma sorted_no_adjacent: "book_sorted levels \<Longrightarrow> \<not> adjacent_any same_key levels"
  by (induction levels rule: induct_list012) (auto simp: same_key_eq book_order.sorted_by_key_Cons)

lemma validate_sorted_levels:
  assumes "book_sorted levels" "length levels \<le> MAX_PM_BOOK_LEVELS" "is_ok (canonical_top levels)"
    "\<forall>l \<in> set levels. level_quantity l \<noteq> Delete \<and> \<not> off_tick (md_tick metadata) l"
  shows "validate_and_sort_levels levels metadata snapshot = (levels, Ok ())"
  using assms book_order.sort_sorted [OF assms(1)] sorted_no_adjacent [OF assms(1)] assms(4) [folded check_levels_None [of _ snapshot]]
  by (cases "canonical_top levels") (simp_all add: validate_and_sort_levels_def compare_levels_eq)

text \<open>The contract of a delta batch, stated on the map the book stands for.\<close>

definition delta_admissible :: "PmTick \<Rightarrow> (BookKey \<rightharpoonup> PmBookLevel) \<Rightarrow> PmBookDeltaBatch \<Rightarrow> bool" where
  "delta_admissible tick m batch \<longleftrightarrow>
     (let changes = batch_changes batch; m' = delta_map m changes
      in distinct (map level_key changes)
         \<and> (\<forall>c \<in> set changes. \<not> off_tick tick c \<and> (level_quantity c = Delete \<longrightarrow> level_key c \<in> dom m))
         \<and> card (dom m') \<le> MAX_PM_BOOK_LEVELS
         \<and> (\<exists>bid ask. map_top m' bid ask \<and> batch_expected_top batch = \<lparr>check_bid = Some bid, check_ask = Some ask\<rparr>))"

lemma apply_changes_both:
  assumes lv: "canonical_book tick levels" and adm: "delta_admissible tick (book_map levels) batch"
  obtains st1 st2 where
    "apply_changes levels (filter (\<lambda>c. level_quantity c = Delete) (batch_changes batch)) = (st1, Ok ())"
    "apply_changes st1 (filter (\<lambda>c. level_quantity c \<noteq> Delete) (batch_changes batch)) = (st2, Ok ())"
    "book_sorted st2" "length st2 \<le> MAX_PM_BOOK_LEVELS"
    "book_map st2 = delta_map (book_map levels) (batch_changes batch)"
proof -
  let ?cs = "batch_changes batch" and ?m = "book_map levels"
  let ?del = "filter (\<lambda>c. level_quantity c = Delete) ?cs" and ?ins = "filter (\<lambda>c. level_quantity c \<noteq> Delete) ?cs"
  have s: "book_sorted levels" "length levels \<le> MAX_PM_BOOK_LEVELS"
    using lv by (simp_all add: canonical_book_def)
  have d: "distinct (map level_key ?cs)" and p: "\<forall>c \<in> set ?cs. level_quantity c = Delete \<longrightarrow> level_key c \<in> dom ?m"
    and c: "card (dom (delta_map ?m ?cs)) \<le> MAX_PM_BOOK_LEVELS"
    using adm by (simp_all add: delta_admissible_def Let_def)
  have "distinct (map level_key ?del)"
    using d by (simp add: distinct_map_filter)
  then have "is_ok (snd (apply_changes levels ?del))"
    using p by (intro apply_changes_deletes [OF s(1)]) simp_all
  then obtain st1 where st1: "apply_changes levels ?del = (st1, Ok ())"
    unfolding is_ok_unit by blast
  note m1 = apply_changes_Ok [OF s(1) st1]
  have "card (dom (foldl change_map (book_map st1) ?ins)) \<le> MAX_PM_BOOK_LEVELS"
    using c delta_map_deletes_first [OF d, of ?m "\<lambda>c. level_quantity c = Delete"] by (simp add: m1(2))
  then have "is_ok (snd (apply_changes st1 ?ins))"
    by (intro apply_changes_inserts [OF m1(1)]) simp_all
  then obtain st2 where st2: "apply_changes st1 ?ins = (st2, Ok ())"
    unfolding is_ok_unit by blast
  note m2 = apply_changes_Ok [OF m1(1) st2]
  have "book_map st2 = delta_map ?m ?cs"
    using delta_map_deletes_first [OF d, of ?m "\<lambda>c. level_quantity c = Delete"] by (simp add: m1(2) m2(2))
  then show ?thesis
    using that st1 st2 m2(1) m2(3) [OF m1(3) [OF s(2)]] by blast
qed

lemma stage_delta_batch_complete:
  assumes inv: "book_inv s" "bk_levels s \<noteq> []"
    and adm: "delta_admissible (book_tick s) (book_map (bk_levels s)) batch"
  shows "is_ok (snd (stage_delta_batch s ev batch))"
proof -
  let ?cs = "batch_changes batch"
  have lv: "canonical_book (book_tick s) (bk_levels s)"
    using inv by (simp add: book_inv_def)
  obtain st1 st2 where st1: "apply_changes (bk_levels s) (filter (\<lambda>c. level_quantity c = Delete) ?cs) = (st1, Ok ())"
    and st2: "apply_changes st1 (filter (\<lambda>c. level_quantity c \<noteq> Delete) ?cs) = (st2, Ok ())"
    and srt: "book_sorted st2" and len: "length st2 \<le> MAX_PM_BOOK_LEVELS"
    and m: "book_map st2 = delta_map (book_map (bk_levels s)) ?cs"
    by (rule apply_changes_both [OF lv adm])
  obtain bid ask where tp: "canonical_top st2 = Ok (bid, ask)"
      "check_bid (batch_expected_top batch) = Some bid" "check_ask (batch_expected_top batch) = Some ask"
    using adm by (auto simp: delta_admissible_def Let_def canonical_top_map [OF srt] m)
  obtain keys where keys: "collect_change_keys (book_tick s) [] ?cs = (keys, Ok ())"
    using collect_change_keys_complete [of "[]" ?cs "book_tick s"] adm
    by (auto simp: delta_admissible_def Let_def sorted_by_key_def)
  have "level_quantity l \<noteq> Delete \<and> \<not> off_tick (book_tick s) l" if "l \<in> set st2" for l
  proof -
    have "delta_map (book_map (bk_levels s)) ?cs (level_key l) = Some l"
      using book_map_self [OF srt that] by (simp add: m)
    then have "l \<in> set ?cs \<and> level_quantity l \<noteq> Delete \<or> l \<in> set (bk_levels s)"
      by (auto simp: delta_map_def dest!: book_order.index_map_Some_key split: option.splits if_splits)
    then show ?thesis
      using lv adm by (auto simp: canonical_book_def delta_admissible_def Let_def)
  qed
  then have "validate_and_sort_levels st2 (contract_market (bk_expected_contract s)) False = (st2, Ok ())"
    using validate_sorted_levels [OF srt len] tp(1) by (simp add: book_tick_def)
  then show ?thesis
    using keys st1 st2 tp by (simp add: stage_delta_batch_def Let_def book_tick_def)
qed

lemma stage_delta_batch_admissible:
  assumes inv: "book_inv s" "bk_levels s \<noteq> []" and ok: "stage_delta_batch s ev batch = (s', Ok t)"
  shows "delta_admissible (book_tick s) (book_map (bk_levels s)) batch"
proof -
  let ?cs = "batch_changes batch"
  obtain staging where st: "canonical_book (book_tick s) staging" "distinct (map level_key ?cs)"
    "\<forall>change \<in> set ?cs. \<not> off_tick (book_tick s) change"
    "book_map staging = delta_map (book_map (bk_levels s)) ?cs"
    "\<exists>bid ask. canonical_top staging = Ok (bid, ask)
       \<and> batch_expected_top batch = \<lparr>check_bid = Some bid, check_ask = Some ask\<rparr>"
    by (rule stage_delta_batch_Ok [OF inv ok])
  have s: "book_sorted (bk_levels s)"
    using inv by (auto simp: book_inv_def canonical_book_def)
  obtain st1 where "apply_changes (bk_levels s) (filter (\<lambda>c. level_quantity c = Delete) ?cs) = (st1, Ok ())"
    using ok by (auto simp: stage_delta_batch_def Let_def split: prod.splits result.splits)
  then have "level_quantity c = Delete \<longrightarrow> level_key c \<in> dom (book_map (bk_levels s))" if "c \<in> set ?cs" for c
    using apply_changes_delete_present [OF s _ , of "filter (\<lambda>c. level_quantity c = Delete) ?cs" st1 c] that st(2)
    by (auto simp: distinct_map_filter)
  moreover have "book_sorted staging" "length staging \<le> MAX_PM_BOOK_LEVELS"
    using st(1) by (simp_all add: canonical_book_def)
  ultimately show ?thesis
    using st(2,3,5) card_book_map [of staging] canonical_top_map [of staging]
    by (auto simp: delta_admissible_def Let_def st(4))
qed

section \<open>Recovery\<close>

lemma apply_metadata_accepts:
  assumes "bk_pending_external_fault s = None" "obs_instrument ob = bk_instrument s"
    "bk_metadata_revision s < Some (obs_revision ob)" "bk_metadata_receive_ns s \<le> Some (obs_monotonic_receive_ns ob)"
    "validate_observed_contract (bk_expected_contract s) (obs_contract ob) = Ok ()"
    "obs_fingerprint ob = bk_expected_fingerprint s"
  shows "\<exists>s' t. apply_metadata s ob = (s', Ok t)"
  using assms
  by (cases "bk_metadata_revision s"; cases "bk_metadata_receive_ns s")
    (simp_all add: apply_metadata_def Let_def not_less not_le)

lemma begin_epoch_accepts:
  assumes "bk_pending_external_fault s = None" "epoch_guard (bk_connection_epoch s) epoch \<noteq> None"
  shows "\<exists>s' t. begin_epoch s epoch = (s', Ok t)"
  using assms by (auto simp: begin_epoch_def Let_def)

lemma check_levels_sort:
  "check_levels tick snapshot (sort_unstable_by cmp levels) = None \<longleftrightarrow> check_levels tick snapshot levels = None"
  by (simp add: check_levels_None)

lemma validate_and_sort_levels_accepts:
  assumes "canonical_book (md_tick metadata) (sort_unstable_by compare_levels levels)"
  shows "validate_and_sort_levels levels metadata snapshot = (sort_unstable_by compare_levels levels, Ok ())"
  using assms sorted_no_adjacent [of "sort_unstable_by compare_levels levels"]
    check_levels_None [of "md_tick metadata" snapshot levels]
  by (cases "canonical_top (sort_unstable_by compare_levels levels)")
    (auto simp: canonical_book_def validate_and_sort_levels_def)

lemma apply_snapshot_accepts:
  assumes "bk_pending_external_fault s = None" "evidence_ok s ev" "sha1_evidence (ev_venue_hash ev)"
    "bk_last_committed_snapshot_revision s < Some (ev_snapshot_revision ev)"
    "canonical_book (book_tick s) (sort_unstable_by compare_levels (snapshot_levels snapshot))"
  shows "\<exists>s' t. apply_snapshot s ev snapshot = (s', Ok t)"
proof -
  let ?s = "bump (ctr_snapshot_attempts_update sat_inc) s"
  have "validate_common_evidence ?s ev = (admit_evidence ?s ev, Ok ())"
    using assms(2) by (simp add: validate_common_evidence_Ok)
  moreover have "\<not> is_some_and (\<lambda>r. ev_snapshot_revision ev \<le> r) (bk_last_committed_snapshot_revision s)"
    using assms(4) by (cases "bk_last_committed_snapshot_revision s") simp_all
  moreover have "\<not> MAX_PM_BOOK_LEVELS < length (snapshot_levels snapshot)"
    using assms(5) by (simp add: canonical_book_def)
  ultimately show ?thesis
    using assms(1,3) validate_and_sort_levels_accepts [OF assms(5) [unfolded book_tick_def]]
    by (simp add: apply_snapshot_def validate_snapshot_hash_def Let_def)
qed

lemma recovery:
  assumes s: "bk_pending_external_fault s = None" "epoch_guard (bk_connection_epoch s) (ev_connection_epoch ev) \<noteq> None"
    and ob: "obs_instrument ob = bk_instrument s" "obs_fingerprint ob = bk_expected_fingerprint s"
      "bk_metadata_revision s < Some (obs_revision ob)" "bk_metadata_receive_ns s \<le> Some (obs_monotonic_receive_ns ob)"
      "validate_observed_contract (bk_expected_contract s) (obs_contract ob) = Ok ()"
    and ev: "ev_instrument ev = bk_instrument s" "ev_metadata_revision ev = obs_revision ob"
      "obs_monotonic_receive_ns ob \<le> ev_monotonic_receive_ns ev" "sha1_evidence (ev_venue_hash ev)"
      "bk_last_committed_snapshot_revision s < Some (ev_snapshot_revision ev)"
      "canonical_book (book_tick s) (sort_unstable_by compare_levels (snapshot_levels snapshot))"
  shows "\<exists>s'. s' = book_run s [MetadataInput ob, EpochInput (ev_connection_epoch ev), UpdateInput ev (Snapshot snapshot)]
    \<and> reducer_ready s' \<and> bk_levels s' = sort_unstable_by compare_levels (snapshot_levels snapshot)"
proof -
  obtain s1 t1 where s1: "apply_metadata s ob = (s1, Ok t1)"
    using apply_metadata_accepts [OF s(1) ob(1,3,4,5,2)] by blast
  note f1 = apply_metadata_Ok [OF s1]
  obtain s2 t2 where s2: "begin_epoch s1 (ev_connection_epoch ev) = (s2, Ok t2)"
    using begin_epoch_accepts [of s1 "ev_connection_epoch ev"] s(2) f1 by auto
  note f2 = begin_epoch_Ok [OF s2]
  have "evidence_ok s2 ev" "book_tick s2 = book_tick s"
    using f1 f2 ev by (simp_all add: evidence_ok_def book_tick_def)
  then obtain s3 t3 where s3: "apply_snapshot s2 ev snapshot = (s3, Ok t3)"
    using apply_snapshot_accepts [of s2 ev snapshot] f1 f2 ev by auto
  note f3 = apply_snapshot_Ok [OF s3]
  have "reducer_ready s3" "bk_levels s3 = sort_unstable_by compare_levels (snapshot_levels snapshot)"
    unfolding f3(6) using f3(1) by (auto simp: reducer_ready_iff snapshot_state_def evidence_ok_def)
  moreover have "book_run s [MetadataInput ob, EpochInput (ev_connection_epoch ev), UpdateInput ev (Snapshot snapshot)] = s3"
    using s1 s2 s3 f2(11) by (simp add: book_run_def book_step_def apply_update_def)
  ultimately show ?thesis
    by blast
qed

end
