(* ===== verification/Pm_Book_Properties.thy ===== *)
theory Pm_Book_Properties
  imports Pm_Book_Runs
begin

text \<open>
  The correctness properties of the public book reducer, over every state that a sequence of
  calls can reach from a freshly constructed reducer, with a sample run on which each is
  instantiated.
\<close>

section \<open>A sample run\<close>

definition sample_book_contract :: PmMetadataContract where
  "sample_book_contract = PmMetadataContract_goal_f_clob_v2 sample_metadata (replicate 32 1)"

definition sample_book_new :: PmBookReducer where
  "sample_book_new = initial_reducer 1 (PmInstrumentHandle 1 2) (replicate 32 7) sample_book_contract
     \<lparr>metadata_max_age_ns = 1000, book_max_age_ns = 500\<rparr>"

definition sample_observation :: PmMetadataObservation where
  "sample_observation = \<lparr>obs_instrument = bk_instrument sample_book_new, obs_revision = 1,
     obs_fingerprint = replicate 32 7, obs_contract = sample_book_contract, obs_monotonic_receive_ns = 10\<rparr>"

definition sample_evidence :: PmBookBatchEvidence where
  "sample_evidence = \<lparr>ev_instrument = bk_instrument sample_book_new, ev_connection_epoch = 1, ev_metadata_revision = 1,
     ev_snapshot_revision = 1, ev_local_ingress_sequence = 1, ev_monotonic_receive_ns = 20,
     ev_venue_hash = Some \<lparr>hash_algorithm = Sha1, hash_length = 20, hash_bytes = replicate 20 5 @ replicate 44 0\<rparr>\<rparr>"

definition sample_quantity :: PmBookQuantity where
  "sample_quantity = Quantity (PmQuantity (U256 1000000 0 0 0))"

definition sample_snapshot :: PmBookSnapshot where
  "sample_snapshot = \<lparr>snapshot_levels =
     [\<lparr>level_side = Ask, level_price = PmPrice 520000, level_quantity = sample_quantity\<rparr>,
      \<lparr>level_side = Bid, level_price = PmPrice 480000, level_quantity = sample_quantity\<rparr>]\<rparr>"

definition sample_inputs :: "book_input list" where
  "sample_inputs = [MetadataInput sample_observation, EpochInput 1, UpdateInput sample_evidence (Snapshot sample_snapshot)]"

definition sample_ready :: PmBookReducer where
  "sample_ready = book_run sample_book_new sample_inputs"

lemmas sample_defs = sample_book_new_def sample_observation_def sample_evidence_def sample_snapshot_def
  sample_quantity_def sample_book_contract_def initial_reducer_def

lemma sample_contract_ok:
  "validate_expected_contract sample_book_contract = Ok ()"
  "validate_observed_contract sample_book_contract sample_book_contract = Ok ()"
  by (simp_all add: sample_book_contract_def PmMetadataContract_goal_f_clob_v2_def PmUnitContract_goal_f_clob_v2_def
      validate_expected_contract_def validate_observed_contract_def validate_lifecycle_def sample_metadata_def Let_def)

lemma sample_new_reachable: "book_reachable sample_book_new"
proof (rule book_reachable.new)
  show "PmBookReducer_new 1 (PmInstrumentHandle 1 2) (replicate 32 7) sample_book_contract
     \<lparr>metadata_max_age_ns = 1000, book_max_age_ns = 500\<rparr> = (2, Ok sample_book_new)"
    by (simp add: PmBookReducer_new_def sample_contract_ok PmBookReducerAuthorityId_allocate_def checked_add_word_def
        sample_book_new_def)
qed

lemma sample_sorted:
  "sort_unstable_by compare_levels (snapshot_levels sample_snapshot) = rev (snapshot_levels sample_snapshot)"
  by (simp add: sample_snapshot_def sort_unstable_by_def compare_levels_def compare_keys_def level_key_def)

lemma sample_canonical: "canonical_book (PmTick 10000) (rev (snapshot_levels sample_snapshot))"
  by (simp add: sample_snapshot_def canonical_book_def sorted_by_key_def compare_keys_def level_key_def sample_quantity_def
      off_tick_def PmPrice_validate_tick_def canonical_top_def MAX_PM_BOOK_LEVELS_def less_eq_PmPrice_def less_PmPrice_def)

lemma reachable_run: "book_reachable s \<Longrightarrow> book_reachable (book_run s inputs)"
proof (induction inputs arbitrary: s)
  case (Cons i rest)
  then show ?case
    using book_reachable.step [of s i "fst (book_step s i)" "snd (book_step s i)"] by (simp add: book_run_def)
qed (simp add: book_run_def)

lemma sample_ready_reachable: "book_reachable sample_ready"
  unfolding sample_ready_def by (rule reachable_run [OF sample_new_reachable])

lemma sample_recovery:
  "reducer_ready sample_ready \<and> bk_levels sample_ready = rev (snapshot_levels sample_snapshot)"
proof -
  have "book_tick sample_book_new = PmTick 10000"
    by (simp add: book_tick_def sample_book_new_def initial_reducer_def sample_book_contract_def
        PmMetadataContract_goal_f_clob_v2_def sample_metadata_def Let_def)
  then have "\<exists>s'. s' = book_run sample_book_new [MetadataInput sample_observation,
      EpochInput (ev_connection_epoch sample_evidence), UpdateInput sample_evidence (Snapshot sample_snapshot)]
    \<and> reducer_ready s' \<and> bk_levels s' = sort_unstable_by compare_levels (snapshot_levels sample_snapshot)"
    using sample_contract_ok(2) sample_canonical
    by (intro recovery)
      (simp_all add: sample_book_new_def sample_observation_def sample_evidence_def initial_reducer_def epoch_guard_def
        sha1_evidence_def sample_sorted)
  then show ?thesis
    by (simp add: sample_ready_def sample_inputs_def sample_sorted sample_evidence_def)
qed

lemma step_refused_closed:
  assumes "book_inv s" "book_step s input = (s', False)"
  shows "bk_levels s' = bk_levels s
    \<and> (\<not> reducer_ready s' \<or> s' = s \<and> (\<exists>authority fault. input = FinalizeInput authority fault))"
proof (cases "bk_pending_external_fault s")
  case None
  then show ?thesis
    using book_step_refused [OF assms(1) None assms(2)] by (auto simp: closed_from_def book_inv_ready)
next
  case (Some p)
  have "\<not> reducer_ready s"
    using assms(1) Some by (auto simp: book_inv_ready book_inv_def ready_evidence_def)
  then show ?thesis
    using book_step_pending [OF assms(1) Some assms(2)] by (auto simp: closed_from_def book_inv_ready)
qed

lemma tick_size_changed_not_Ok: "tick_size_changed s ev old new \<noteq> (s', Ok t)"
  by (auto simp: tick_size_changed_def then_do_Ok Let_def)

lemma step_accepted_ready:
  assumes "book_inv s" "\<not> reducer_ready s" "book_step s input = (s', True)" "reducer_ready s'"
  shows "\<exists>ev snapshot t. input = UpdateInput ev (Snapshot snapshot) \<and> apply_snapshot s ev snapshot = (s', Ok t)"
proof (cases input)
  case (UpdateInput ev update)
  then have ok: "bk_pending_external_fault s = None" "\<exists>t. apply_update s ev update = (s', Ok t)"
    using assms(3) by (auto simp: book_step_def map_prod_is_ok apply_update_def split: if_splits)
  then show ?thesis
    using UpdateInput assms(2)
    by (cases update) (auto simp: apply_update_def check_top_Ok tick_size_changed_not_Ok dest: apply_delta_batch_Ok(2))
next
  case (FaultInput epoch fault)
  then show ?thesis
    using assms(3) external_fault_final_closed [OF assms(1), of epoch fault]
    by (cases "bk_pending_external_fault s") (auto simp: book_step_def map_prod_is_ok_eq apply_external_fault_def)
next
  case (FinalizeInput a f)
  then show ?thesis
    using assms finalize_refused [of s a f] finalize_accepted [of s a f]
    by (cases "finalize_matches s a f") (auto simp: book_step_def map_prod_is_ok_eq)
qed (use assms in \<open>auto simp: book_step_def map_prod_is_ok reducer_ready_iff check_freshness_Ok
     dest: apply_metadata_Ok(9) begin_epoch_Ok(5) begin_pending_Ok(8)\<close>)

definition sample_connected :: PmBookReducer where
  "sample_connected = book_run sample_book_new [MetadataInput sample_observation, EpochInput 1]"

lemma epoch_not_ready: "book_inv s \<Longrightarrow> \<not> reducer_ready (fst (book_step s (EpochInput epoch)))"
  using step_refused_closed [of s "EpochInput epoch" "fst (book_step s (EpochInput epoch))"]
    begin_epoch_Ok(5) [of s epoch "fst (begin_epoch s epoch)"]
  by (cases "snd (begin_epoch s epoch)"; cases "begin_epoch s epoch") (auto simp: book_step_def reducer_ready_iff)

lemma sample_connected_facts:
  "book_reachable sample_connected" "\<not> reducer_ready sample_connected"
  "sample_ready = fst (book_step sample_connected (UpdateInput sample_evidence (Snapshot sample_snapshot)))"
proof -
  show "book_reachable sample_connected"
    unfolding sample_connected_def by (rule reachable_run [OF sample_new_reachable])
  have "book_inv (fst (book_step sample_book_new (MetadataInput sample_observation)))"
    using reachable_inv [OF reachable_run [OF sample_new_reachable, of "[MetadataInput sample_observation]"]]
    by (simp add: book_run_def)
  then show "\<not> reducer_ready sample_connected"
    using epoch_not_ready by (simp add: sample_connected_def book_run_def)
  show "sample_ready = fst (book_step sample_connected (UpdateInput sample_evidence (Snapshot sample_snapshot)))"
    by (simp add: sample_ready_def sample_inputs_def sample_connected_def book_run_def)
qed

lemma stage_delta_batch_order:
  assumes "stage_delta_batch s ev batch = (s', Ok t)"
  shows "bk_last_ingress_sequence s' = bk_last_ingress_sequence s" "bk_connection_epoch s' = bk_connection_epoch s"
  using assms by (auto simp: stage_delta_batch_def Let_def split: if_splits prod.splits result.splits)

lemma apply_update_accepted:
  assumes "apply_update s ev update = (s', Ok t)"
  shows "evidence_ok s ev" "bk_last_ingress_sequence s' = Some (ev_local_ingress_sequence ev)"
    "bk_connection_epoch s' = Some (ev_connection_epoch ev)"
proof -
  have "evidence_ok s ev \<and> bk_last_ingress_sequence s' = Some (ev_local_ingress_sequence ev)
      \<and> bk_connection_epoch s' = Some (ev_connection_epoch ev)"
  proof (cases update)
    case (Snapshot snapshot)
    then have ok: "apply_snapshot s ev snapshot = (s', Ok t)"
      using assms by (simp add: apply_update_def split: if_splits)
    show ?thesis
      using apply_snapshot_Ok(1,6) [OF ok] by (simp add: snapshot_state_def admit_evidence_def evidence_ok_def)
  next
    case (DeltaBatch batch)
    then have ok: "apply_delta_batch s ev batch = (s', Ok t)"
      using assms by (simp add: apply_update_def split: if_splits)
    note d = apply_delta_batch_Ok [OF ok]
    show ?thesis
      using stage_delta_batch_order [OF d(6)] d(1) by (simp add: admit_evidence_def evidence_ok_def)
  next
    case (TopCheck observed)
    then show ?thesis
      using assms by (auto simp: apply_update_def check_top_Ok admit_evidence_def evidence_ok_def split: if_splits)
  next
    case (TickSizeChanged old new)
    then show ?thesis
      using assms by (auto simp: apply_update_def tick_size_changed_not_Ok split: if_splits)
  qed
  then show "evidence_ok s ev" "bk_last_ingress_sequence s' = Some (ev_local_ingress_sequence ev)"
    "bk_connection_epoch s' = Some (ev_connection_epoch ev)"
    by blast+
qed

lemma find_level: "find (\<lambda>l. level_side l = side \<and> level_price l = p) levels = book_map levels (BookKey side p)"
  by (induction levels) (auto simp: book_order.index_map_Cons level_key_def index_map_def)

lemma sample_new_fields [simp]:
  "bk_pending_external_fault sample_book_new = None" "bk_instrument sample_book_new = PmInstrumentHandle 1 2"
  "bk_metadata_revision sample_book_new = None" "bk_metadata_receive_ns sample_book_new = None"
  "bk_expected_contract sample_book_new = sample_book_contract" "bk_expected_fingerprint sample_book_new = replicate 32 7"
  "bk_connection_epoch sample_book_new = None" "bk_requires_reconnect sample_book_new = False"
  "bk_freshness sample_book_new = \<lparr>metadata_max_age_ns = 1000, book_max_age_ns = 500\<rparr>"
  "bk_last_committed_snapshot_revision sample_book_new = None"
  "bk_pending_external_fault_generation sample_book_new = 0" "bk_authority_id sample_book_new = 1"
  by (simp_all add: sample_book_new_def initial_reducer_def)

lemma sample_observation_fields [simp]:
  "obs_instrument sample_observation = PmInstrumentHandle 1 2" "obs_revision sample_observation = 1"
  "obs_fingerprint sample_observation = replicate 32 7" "obs_contract sample_observation = sample_book_contract"
  "obs_monotonic_receive_ns sample_observation = 10"
  by (simp_all add: sample_observation_def)

lemma sample_evidence_fields [simp]:
  "ev_instrument sample_evidence = PmInstrumentHandle 1 2" "ev_connection_epoch sample_evidence = 1"
  "ev_metadata_revision sample_evidence = 1" "ev_snapshot_revision sample_evidence = 1"
  "ev_local_ingress_sequence sample_evidence = 1" "ev_monotonic_receive_ns sample_evidence = 20"
  "sha1_evidence (ev_venue_hash sample_evidence)"
  by (simp_all add: sample_evidence_def sha1_evidence_def)

lemma sample_connected_fields [simp]:
  "bk_pending_external_fault sample_connected = None" "bk_instrument sample_connected = PmInstrumentHandle 1 2"
  "bk_metadata_revision sample_connected = Some 1" "bk_metadata_receive_ns sample_connected = Some 10"
  "bk_metadata_valid sample_connected" "bk_last_ingress_sequence sample_connected = None"
  "bk_last_ingress_receive_ns sample_connected = None" "bk_expected_contract sample_connected = sample_book_contract"
  "bk_connection_epoch sample_connected = Some 1" "bk_requires_reconnect sample_connected = False"
  "bk_freshness sample_connected = \<lparr>metadata_max_age_ns = 1000, book_max_age_ns = 500\<rparr>"
  "bk_last_committed_snapshot_revision sample_connected = None"
  "bk_pending_external_fault_generation sample_connected = 0" "bk_authority_id sample_connected = 1"
  by (simp_all add: sample_connected_def book_run_def book_step_def apply_metadata_def begin_epoch_def epoch_guard_def Let_def
      sample_contract_ok)

lemma sample_ready_state:
  "apply_update sample_connected sample_evidence (Snapshot sample_snapshot) = (sample_ready,
     Ok (SnapshotCommitted 1 2 (commit_proof sample_ready sample_evidence)))"
  "sample_ready = snapshot_state sample_connected sample_evidence sample_snapshot"
proof -
  let ?i = "UpdateInput sample_evidence (Snapshot sample_snapshot)"
  have "book_step sample_connected ?i = (sample_ready, True)"
    using step_refused_closed [OF reachable_inv [OF sample_connected_facts(1)], of ?i sample_ready]
      sample_connected_facts(2,3) sample_recovery
    by (cases "book_step sample_connected ?i"; cases "snd (book_step sample_connected ?i)") auto
  then obtain t where t: "apply_snapshot sample_connected sample_evidence sample_snapshot = (sample_ready, Ok t)"
    by (auto simp: book_step_def map_prod_is_ok apply_update_def)
  show "sample_ready = snapshot_state sample_connected sample_evidence sample_snapshot"
    by (rule apply_snapshot_Ok(6) [OF t])
  show "apply_update sample_connected sample_evidence (Snapshot sample_snapshot) = (sample_ready,
     Ok (SnapshotCommitted 1 2 (commit_proof sample_ready sample_evidence)))"
    using t apply_snapshot_Ok(7) [OF t] by (simp add: apply_update_def sample_snapshot_def)
qed

lemma sample_ready_fields [simp]:
  "bk_pending_external_fault sample_ready = None" "bk_instrument sample_ready = PmInstrumentHandle 1 2"
  "bk_metadata_revision sample_ready = Some 1" "bk_metadata_receive_ns sample_ready = Some 10"
  "bk_metadata_valid sample_ready" "bk_last_ingress_sequence sample_ready = Some 1"
  "bk_last_ingress_receive_ns sample_ready = Some 20" "bk_expected_contract sample_ready = sample_book_contract"
  "bk_connection_epoch sample_ready = Some 1" "bk_requires_reconnect sample_ready = False"
  "bk_freshness sample_ready = \<lparr>metadata_max_age_ns = 1000, book_max_age_ns = 500\<rparr>"
  "bk_snapshot_revision sample_ready = Some 1" "bk_book_receive_ns sample_ready = Some 20"
  "bk_pending_external_fault_generation sample_ready = 0" "bk_authority_id sample_ready = 1"
  by (simp_all add: sample_ready_state(2) snapshot_state_def commit_snapshot_def admit_evidence_def Let_def)

definition sample_delta_evidence :: PmBookBatchEvidence where
  "sample_delta_evidence = sample_evidence\<lparr>ev_local_ingress_sequence := 2, ev_monotonic_receive_ns := 30, ev_venue_hash := None\<rparr>"

definition sample_batch :: PmBookDeltaBatch where
  "sample_batch = \<lparr>batch_changes = [\<lparr>level_side = Bid, level_price = PmPrice 490000, level_quantity = sample_quantity\<rparr>],
     batch_venue_change_hashes = [None],
     batch_expected_top = \<lparr>check_bid = Some (PmPrice 490000), check_ask = Some (PmPrice 520000)\<rparr>\<rparr>"

lemma sample_tick: "book_tick sample_ready = PmTick 10000"
  by (simp add: book_tick_def sample_book_contract_def PmMetadataContract_goal_f_clob_v2_def sample_metadata_def Let_def)

lemma sample_delta_admissible: "delta_admissible (book_tick sample_ready) (book_map (bk_levels sample_ready)) sample_batch"
proof -
  let ?c = "\<lparr>level_side = Bid, level_price = PmPrice 490000, level_quantity = sample_quantity\<rparr>"
  let ?m = "delta_map (book_map (bk_levels sample_ready)) [?c]"
  have "?m = change_map (book_map (bk_levels sample_ready)) ?c"
    using change_map_foldl [of "[?c]" "book_map (bk_levels sample_ready)"] by simp
  then have dom: "dom ?m = {BookKey Bid (PmPrice 490000), BookKey Bid (PmPrice 480000), BookKey Ask (PmPrice 520000)}"
    using sample_recovery by (simp add: change_map_def sample_quantity_def level_key_def book_map_dom sample_snapshot_def)
  then have "map_top ?m (PmPrice 490000) (PmPrice 520000)"
    by (simp add: map_top_def less_eq_PmPrice_def less_PmPrice_def)
  moreover have "card (dom ?m) \<le> MAX_PM_BOOK_LEVELS"
    unfolding dom MAX_PM_BOOK_LEVELS_def by simp
  ultimately show ?thesis
    by (simp add: delta_admissible_def sample_batch_def sample_tick off_tick_def PmPrice_validate_tick_def sample_quantity_def)
qed

section \<open>Properties\<close>

text \<open>
  C5: in every reachable state the committed levels are empty or canonical (bids descending, then
  asks ascending, one entry per side and price, on the tick grid, no deletion markers, at most
  2048 entries, both sides present, uncrossed); the public readiness holds exactly when the
  \<open>book_ready\<close> flag is set; and then metadata, epoch, snapshot revision, SHA-1 snapshot hash
  and receive time are all on record and no external fault is pending.
\<close>

theorem book_reachable_invariant:
  assumes "book_reachable s"
  shows "(bk_levels s = [] \<or> canonical_book (book_tick s) (bk_levels s))
    \<and> (reducer_ready s \<longleftrightarrow> bk_book_ready s) \<and> (reducer_ready s \<longrightarrow> ready_evidence s)"
proof -
  have "book_inv s"
    by (rule reachable_inv [OF assms])
  then show ?thesis
    using book_inv_ready [of s] by (auto simp: book_inv_def)
qed

theorem book_reachable_invariant_witness:
  "book_reachable sample_ready \<and> reducer_ready sample_ready \<and> ready_evidence sample_ready"
  using book_reachable_invariant [OF sample_ready_reachable] sample_ready_reachable sample_recovery by blast

text \<open>
  C3: the reducer fails closed and never half-applies an update.  When any call returns an error
  the committed levels are those from before the call, and the reducer is not ready afterwards;
  the one exception is a finalization with a foreign or stale authority, which changes nothing.
\<close>

theorem book_fails_closed:
  assumes "book_reachable s" "book_step s input = (s', False)"
  shows "bk_levels s' = bk_levels s
    \<and> (\<not> reducer_ready s' \<or> s' = s \<and> (\<exists>authority fault. input = FinalizeInput authority fault))"
  using step_refused_closed [OF reachable_inv [OF assms(1)] assms(2)] .

theorem book_fails_closed_witness:
  "\<exists>s'. book_step sample_ready (FaultInput 1 Gap) = (s', False) \<and> \<not> reducer_ready s'
     \<and> bk_levels s' = bk_levels sample_ready"
proof -
  have "bk_pending_external_fault sample_ready = None"
    using reachable_inv [OF sample_ready_reachable] sample_recovery
    by (auto simp: book_inv_ready book_inv_def ready_evidence_def)
  then have "snd (book_step sample_ready (FaultInput 1 Gap)) = False"
    using external_fault_final_closed [OF reachable_inv [OF sample_ready_reachable], of 1 Gap]
    by (simp add: book_step_def apply_external_fault_def)
  then obtain s' where s': "book_step sample_ready (FaultInput 1 Gap) = (s', False)"
    by (metis prod.collapse)
  then show ?thesis
    using book_fails_closed [OF sample_ready_reachable s'] by auto
qed

text \<open>
  C7: the published top is the true top of the committed book.  In every reachable ready state
  \<open>ready_top\<close> returns a bid and an ask that are entries of the book with their exact quantities,
  no bid is higher and no ask is lower, and the bid is strictly below the ask; in a state that is
  not ready it returns nothing.
\<close>

theorem ready_top_is_best:
  assumes "book_reachable s"
  shows "if reducer_ready s
    then (\<exists>bid ask. ready_top s = Some \<lparr>top_bid = Some bid, top_ask = Some ask\<rparr>
      \<and> book_map (bk_levels s) (BookKey Bid (point_price bid)) =
          Some \<lparr>level_side = Bid, level_price = point_price bid, level_quantity = Quantity (point_quantity bid)\<rparr>
      \<and> book_map (bk_levels s) (BookKey Ask (point_price ask)) =
          Some \<lparr>level_side = Ask, level_price = point_price ask, level_quantity = Quantity (point_quantity ask)\<rparr>
      \<and> map_top (book_map (bk_levels s)) (point_price bid) (point_price ask))
    else ready_top s = None"
proof (cases "reducer_ready s")
  case True
  have inv: "book_inv s"
    by (rule reachable_inv [OF assms])
  then have c: "canonical_book (book_tick s) (bk_levels s)"
    using True by (auto simp: book_inv_ready book_inv_def ready_evidence_def)
  then have srt: "book_sorted (bk_levels s)"
    by (simp add: canonical_book_def)
  obtain bid ask where tp: "canonical_top (bk_levels s) = Ok (bid, ask)"
    using c by (cases "canonical_top (bk_levels s)") (auto simp: canonical_book_def)
  then have m: "map_top (book_map (bk_levels s)) bid ask"
    by (simp add: canonical_top_map [OF srt])
  obtain b a where b: "book_map (bk_levels s) (BookKey Bid bid) = Some b" and a: "book_map (bk_levels s) (BookKey Ask ask) = Some a"
    using m by (auto simp: map_top_def)
  have k: "level_key b = BookKey Bid bid" "b \<in> set (bk_levels s)" "level_key a = BookKey Ask ask" "a \<in> set (bk_levels s)"
    using a b book_order.index_map_Some_key by blast+
  then obtain qb qa where q: "level_quantity b = Quantity qb" "level_quantity a = Quantity qa"
    using c by (auto simp: canonical_book_def) (metis PmBookQuantity.exhaust)
  have eqs: "b = \<lparr>level_side = Bid, level_price = bid, level_quantity = Quantity qb\<rparr>"
    "a = \<lparr>level_side = Ask, level_price = ask, level_quantity = Quantity qa\<rparr>"
    using k q by (auto simp: level_key_def intro!: PmBookLevel.equality)
  have "ready_top s = Some \<lparr>top_bid = Some \<lparr>point_price = bid, point_quantity = qb\<rparr>,
      top_ask = Some \<lparr>point_price = ask, point_quantity = qa\<rparr>\<rparr>"
    using True tp m by (auto simp: ready_top_def find_level a b q PmBookTop_new_def map_top_def not_le)
  then show ?thesis
    using True m a b eqs by (auto intro!: exI [of _ "\<lparr>point_price = bid, point_quantity = qb\<rparr>"]
        exI [of _ "\<lparr>point_price = ask, point_quantity = qa\<rparr>"])
qed (simp add: ready_top_def)

theorem ready_top_is_best_witness:
  "\<exists>bid ask. ready_top sample_ready = Some \<lparr>top_bid = Some bid, top_ask = Some ask\<rparr>
     \<and> map_top (book_map (rev (snapshot_levels sample_snapshot))) (point_price bid) (point_price ask)"
  using ready_top_is_best [OF sample_ready_reachable] sample_recovery by auto

text \<open>
  C15: readiness has one source.  A step takes a reachable reducer from not ready to ready only by
  committing a snapshot whose evidence names the reducer's instrument, live epoch and current
  metadata revision, carries a 20-byte SHA-1 hash, has a fresh ingress sequence and a snapshot
  revision above every committed one, and whose levels, sorted, form a canonical book.
\<close>

theorem ready_only_after_snapshot:
  assumes "book_reachable s" "\<not> reducer_ready s" "book_step s input = (s', accepted)" "reducer_ready s'"
  shows "\<exists>evidence snapshot. input = UpdateInput evidence (Snapshot snapshot) \<and> accepted
    \<and> evidence_ok s evidence \<and> sha1_evidence (ev_venue_hash evidence)
    \<and> bk_last_committed_snapshot_revision s < Some (ev_snapshot_revision evidence)
    \<and> bk_levels s' = sort_unstable_by compare_levels (snapshot_levels snapshot)
    \<and> canonical_book (book_tick s) (bk_levels s')"
proof -
  have inv: "book_inv s"
    by (rule reachable_inv [OF assms(1)])
  have "accepted"
    using step_refused_closed [OF inv, of input s'] assms by (cases accepted) auto
  then obtain ev snapshot t where u: "input = UpdateInput ev (Snapshot snapshot)" "apply_snapshot s ev snapshot = (s', Ok t)"
    using step_accepted_ready [OF inv assms(2), of input s'] assms(3,4) by auto
  note ok = apply_snapshot_Ok [OF u(2)]
  have "bk_last_committed_snapshot_revision s < Some (ev_snapshot_revision ev)"
    using ok(4) by (cases "bk_last_committed_snapshot_revision s") simp_all
  moreover have "bk_levels s' = sort_unstable_by compare_levels (snapshot_levels snapshot)"
    by (simp add: ok(6) snapshot_state_def)
  ultimately show ?thesis
    using u(1) \<open>accepted\<close> ok(1,2,5) by auto
qed

theorem ready_only_after_snapshot_witness:
  "\<not> reducer_ready sample_connected \<and> reducer_ready sample_ready \<and> evidence_ok sample_connected sample_evidence"
proof -
  let ?i = "UpdateInput sample_evidence (Snapshot sample_snapshot)"
  have "book_step sample_connected ?i = (sample_ready, snd (book_step sample_connected ?i))"
    by (simp add: sample_connected_facts(3))
  then have "evidence_ok sample_connected sample_evidence"
    using ready_only_after_snapshot [OF sample_connected_facts(1,2)] sample_recovery by blast
  then show ?thesis
    using sample_connected_facts(2) sample_recovery by blast
qed

text \<open>
  C1: a delta batch commits exactly when its contract holds.  On a ready book with admissible
  evidence for the current snapshot and between 1 and 2048 changes, the batch is accepted if and
  only if its changes have distinct keys and on-grid prices, every deletion names a present level,
  the updated map has at most 2048 levels and two uncrossed sides, and its best prices are the
  batch's expected top.  Then the book is the map with all changes applied at once, whatever
  their order in the frame; otherwise the levels are untouched and the reducer is not ready.
\<close>

theorem apply_delta_batch_exact:
  assumes "book_reachable s" "reducer_ready s" "evidence_ok s ev" "ev_venue_hash ev = None"
    "bk_snapshot_revision s = Some (ev_snapshot_revision ev)"
    "batch_changes batch \<noteq> []" "length (batch_changes batch) \<le> MAX_PM_BOOK_LEVELS"
  shows "\<exists>s' r. apply_delta_batch s ev batch = (s', r)
    \<and> (if delta_admissible (book_tick s) (book_map (bk_levels s)) batch
       then is_ok r \<and> reducer_ready s'
         \<and> book_map (bk_levels s') = delta_map (book_map (bk_levels s)) (batch_changes batch)
       else \<not> is_ok r \<and> \<not> reducer_ready s' \<and> bk_levels s' = bk_levels s)"
proof -
  let ?s = "admit_evidence (bump (ctr_delta_batch_attempts_update sat_inc) s) ev"
  have inv: "book_inv s" "book_inv ?s"
    using reachable_inv [OF assms(1)] by simp_all
  then have re: "ready_evidence s" "bk_pending_external_fault s = None" "bk_levels ?s \<noteq> []"
    using assms(2) by (auto simp: book_inv_ready book_inv_def ready_evidence_def)
  have "validate_common_evidence (bump (ctr_delta_batch_attempts_update sat_inc) s) ev = (?s, Ok ())"
    using assms(3) by (simp add: validate_common_evidence_Ok)
  then have stage: "apply_delta_batch s ev batch = stage_delta_batch ?s ev batch"
    using re(2) assms(2,4-7) by (simp add: apply_delta_batch_def validate_absent_singular_hash_def)
  obtain s' r where r: "stage_delta_batch ?s ev batch = (s', r)"
    by fastforce
  have tick: "book_tick ?s = book_tick s"
    by (simp add: book_tick_def)
  show ?thesis
  proof (cases r)
    case (Ok t)
    obtain staging keys where "s' = commit_delta (bump (ctr_delta_top_checks_update sat_inc)
        (?s\<lparr>bk_change_keys := keys, bk_staging := staging\<rparr>)) ev (length (batch_changes batch))"
      "book_map staging = delta_map (book_map (bk_levels ?s)) (batch_changes batch)"
      by (rule stage_delta_batch_Ok [OF inv(2) re(3) r [unfolded Ok]])
    moreover have "book_inv s'"
      using apply_delta_batch_inv [OF inv(1)] stage r Ok by simp
    ultimately show ?thesis
      using stage_delta_batch_admissible [OF inv(2) re(3) r [unfolded Ok]] r Ok
      by (simp add: stage tick book_inv_ready)
  next
    case (Err e)
    have "closed_from s s'"
      using apply_delta_batch_Err [OF inv(1) re(2)] stage r Err by simp
    moreover have "\<not> delta_admissible (book_tick s) (book_map (bk_levels s)) batch"
      using stage_delta_batch_complete [OF inv(2) re(3), of batch ev] r Err by (auto simp: tick)
    ultimately show ?thesis
      using r Err by (simp add: stage closed_from_def book_inv_ready)
  qed
qed

theorem apply_delta_batch_exact_witness:
  "\<exists>s' r. apply_delta_batch sample_ready sample_delta_evidence sample_batch = (s', r) \<and> is_ok r
     \<and> book_map (bk_levels s') = delta_map (book_map (bk_levels sample_ready)) (batch_changes sample_batch)"
  using apply_delta_batch_exact [OF sample_ready_reachable, of sample_delta_evidence sample_batch] sample_recovery
    sample_delta_admissible
  by (auto simp: sample_delta_evidence_def sample_batch_def evidence_ok_def MAX_PM_BOOK_LEVELS_def)

text \<open>
  C17: a pending external fault freezes the reducer.  While one is pending every call is refused,
  the reducer is not ready before or after it, and the state does not change, except by
  finalizing the pending fault with the authority issued for it: same reducer, generation, epoch
  and fault, as that fault or as an invalid transition.
\<close>

theorem pending_fault_freezes:
  assumes "book_reachable s" "bk_pending_external_fault s \<noteq> None" "book_step s input = (s', accepted)"
  shows "\<not> accepted \<and> \<not> reducer_ready s \<and> \<not> reducer_ready s'
    \<and> (s' = s \<or> (\<exists>authority fault. input = FinalizeInput authority fault
          \<and> finalize_matches s authority fault \<and> bk_pending_external_fault s' = None))"
proof -
  have inv: "book_inv s" "book_inv s'"
    using reachable_inv [OF assms(1)] book_step_inv assms(3) by blast+
  obtain p where p: "bk_pending_external_fault s = Some p"
    using assms(2) by blast
  have "\<not> reducer_ready s"
    using inv(1) p by (auto simp: book_inv_ready book_inv_def ready_evidence_def)
  then show ?thesis
    using book_step_pending [OF inv(1) p assms(3)] by (auto simp: closed_from_def book_inv_ready inv)
qed

theorem pending_fault_freezes_witness:
  "\<exists>s a. begin_pending_external_fault sample_ready 1 Overflow = (s, Ok a) \<and> book_reachable s
     \<and> \<not> snd (book_step s (FreshnessInput 30)) \<and> \<not> reducer_ready (fst (book_step s (FreshnessInput 30)))"
proof -
  obtain s a where s: "begin_pending_external_fault sample_ready 1 Overflow = (s, Ok a)"
    by (simp add: begin_pending_external_fault_def pending_reason_def checked_add_word_def)
  then have "book_step sample_ready (BeginPendingInput 1 Overflow) = (s, True)"
    by (simp add: book_step_def)
  then have r: "book_reachable s"
    using book_reachable.step sample_ready_reachable by blast
  have "bk_pending_external_fault s \<noteq> None"
    using begin_pending_Ok(6) [OF s] by simp
  then show ?thesis
    using pending_fault_freezes [OF r, of "FreshnessInput 30"] s r by (metis prod.collapse)
qed

text \<open>
  C16: no update is applied twice.  Once an update with some ingress sequence has been accepted in
  an epoch, no later update of that epoch with the same or a lower sequence is accepted,
  whatever calls come in between.
\<close>

theorem no_replayed_update:
  assumes "book_step s (UpdateInput ev update) = (s1, True)"
    and "ev_connection_epoch ev' = ev_connection_epoch ev"
    and "ev_local_ingress_sequence ev' \<le> ev_local_ingress_sequence ev"
  shows "\<not> snd (book_step (book_run s1 inputs) (UpdateInput ev' update'))"
proof
  let ?s2 = "book_run s1 inputs"
  obtain t where "apply_update s ev update = (s1, Ok t)"
    using assms(1) by (auto simp: book_step_def map_prod_is_ok)
  note first = apply_update_accepted [OF this]
  assume "snd (book_step ?s2 (UpdateInput ev' update'))"
  then obtain s3 t' where "apply_update ?s2 ev' update' = (s3, Ok t')"
    by (cases "apply_update ?s2 ev' update'"; cases "snd (apply_update ?s2 ev' update')") (auto simp: book_step_def)
  then have second: "evidence_ok ?s2 ev'"
    by (rule apply_update_accepted)
  have "bk_last_ingress_sequence s1 \<le> bk_last_ingress_sequence ?s2"
    using order_mono_run [of s1 inputs] first(3) second assms(2) by (simp add: order_mono_def evidence_ok_def)
  then obtain q where "bk_last_ingress_sequence ?s2 = Some q" "ev_local_ingress_sequence ev \<le> q"
    using first(2) by (cases "bk_last_ingress_sequence ?s2") auto
  then show False
    using second assms(3) by (auto simp: evidence_ok_def)
qed

theorem no_replayed_update_witness:
  "book_step sample_connected (UpdateInput sample_evidence (Snapshot sample_snapshot)) = (sample_ready, True)
     \<and> \<not> snd (book_step (book_run sample_ready [FreshnessInput 30]) (UpdateInput sample_evidence (Snapshot sample_snapshot)))"
proof -
  have "book_step sample_connected (UpdateInput sample_evidence (Snapshot sample_snapshot)) = (sample_ready, True)"
    by (simp add: book_step_def sample_ready_state(1))
  then show ?thesis
    using no_replayed_update [OF _ refl order_refl, of sample_connected sample_evidence "Snapshot sample_snapshot"
        sample_ready "[FreshnessInput 30]" "Snapshot sample_snapshot"] by blast
qed

text \<open>
  C18: recovery.  From every reachable state without a pending fault, however it failed, a newer
  observation of the configured market, the next connection epoch and a snapshot with matching
  evidence and canonical levels make the reducer ready on exactly that snapshot.
\<close>

theorem book_recovers:
  assumes "book_reachable s" "bk_pending_external_fault s = None"
    "epoch_guard (bk_connection_epoch s) (ev_connection_epoch ev) \<noteq> None"
    "obs_instrument ob = bk_instrument s" "obs_fingerprint ob = bk_expected_fingerprint s"
    "bk_metadata_revision s < Some (obs_revision ob)" "bk_metadata_receive_ns s \<le> Some (obs_monotonic_receive_ns ob)"
    "validate_observed_contract (bk_expected_contract s) (obs_contract ob) = Ok ()"
    "ev_instrument ev = bk_instrument s" "ev_metadata_revision ev = obs_revision ob"
    "obs_monotonic_receive_ns ob \<le> ev_monotonic_receive_ns ev" "sha1_evidence (ev_venue_hash ev)"
    "bk_last_committed_snapshot_revision s < Some (ev_snapshot_revision ev)"
    "canonical_book (book_tick s) (sort_unstable_by compare_levels (snapshot_levels snapshot))"
  shows "\<exists>s'. s' = book_run s [MetadataInput ob, EpochInput (ev_connection_epoch ev), UpdateInput ev (Snapshot snapshot)]
    \<and> reducer_ready s' \<and> bk_levels s' = sort_unstable_by compare_levels (snapshot_levels snapshot)"
  by (rule recovery [OF assms(2-14)])

theorem book_recovers_witness:
  "\<exists>s'. s' = book_run sample_book_new sample_inputs \<and> reducer_ready s'"
proof -
  have "book_tick sample_book_new = PmTick 10000"
    by (simp add: book_tick_def sample_book_contract_def PmMetadataContract_goal_f_clob_v2_def sample_metadata_def Let_def)
  then show ?thesis
    using book_recovers [OF sample_new_reachable, of sample_evidence sample_observation sample_snapshot]
      sample_contract_ok(2) sample_canonical
    by (simp add: sample_inputs_def epoch_guard_def sample_sorted)
qed

text \<open>
  C19: a stale book does not stay ready.  If a reducer is ready after a freshness check at time
  \<open>now\<close>, its metadata and its book were received at or before \<open>now\<close> and are no older than the
  configured limits.
\<close>

theorem fresh_after_check:
  assumes "book_reachable s" "book_step s (FreshnessInput now) = (s', accepted)" "reducer_ready s'"
  shows "\<exists>m b. bk_metadata_receive_ns s = Some m \<and> bk_book_receive_ns s = Some b \<and> m \<le> b \<and> b \<le> now
    \<and> unat now \<le> unat m + unat (metadata_max_age_ns (bk_freshness s))
    \<and> unat now \<le> unat b + unat (book_max_age_ns (bk_freshness s))"
proof -
  have inv: "book_inv s"
    by (rule reachable_inv [OF assms(1)])
  have "accepted"
    using step_refused_closed [OF inv, of "FreshnessInput now" s'] assms(2,3) by (cases accepted) auto
  then obtain m b where mb: "bk_metadata_receive_ns s = Some m" "bk_book_receive_ns s = Some b" "m \<le> now" "b \<le> now"
    "now - m \<le> metadata_max_age_ns (bk_freshness s)" "now - b \<le> book_max_age_ns (bk_freshness s)"
    using assms(2) by (auto simp: book_step_def map_prod_is_ok check_freshness_Ok)
  have "m \<le> b"
    using inv mb(1,2) by (auto simp: book_inv_def)
  moreover have "unat now \<le> unat m + unat (metadata_max_age_ns (bk_freshness s))"
    "unat now \<le> unat b + unat (book_max_age_ns (bk_freshness s))"
    using mb(3-6) by (simp_all add: word_le_nat_alt unat_sub)
  ultimately show ?thesis
    using mb by blast
qed

theorem fresh_after_check_witness:
  "\<exists>s' accepted. book_step sample_ready (FreshnessInput 30) = (s', accepted) \<and> reducer_ready s'
     \<and> (\<exists>m b. bk_metadata_receive_ns sample_ready = Some m \<and> bk_book_receive_ns sample_ready = Some b \<and> m \<le> b)"
proof -
  have "check_freshness sample_ready 30 = (bump (ctr_freshness_confirmed_update sat_inc)
      (bump (ctr_freshness_checks_update sat_inc) sample_ready), Ok FreshnessConfirmed)"
    using sample_recovery by (simp add: check_freshness_Ok)
  then obtain s' where s': "book_step sample_ready (FreshnessInput 30) = (s', True)" "reducer_ready s'"
    using sample_recovery by (simp add: book_step_def)
  then show ?thesis
    using fresh_after_check [OF sample_ready_reachable s'] by blast
qed

end
