(* ===== verification/Pm_Risk.thy ===== *)
theory Pm_Risk
  imports Pm_Event
begin

text \<open>
  The pre-trade risk gate of \<open>crates/reap-pm-state/src/risk.rs\<close>: limits, the dependency
  freshness checks, the exact prospective exposure, and the latched market, account and
  global halts.

  \<open>PmRiskState_check\<close> returns \<open>None\<close> where the source would panic on its two \<open>expect\<close> calls;
  the properties show that constructed quantities never reach that branch.  The halt scope
  \<open>None\<close> of the source is \<open>HaltNone\<close> here.
\<close>

section \<open>Limits\<close>

datatype PmRiskLimitsError = ZeroExactLimit | ZeroCardinality | ZeroFreshness

definition require_nonzero :: "U256 \<Rightarrow> (unit, PmRiskLimitsError) result" where
  "require_nonzero limit = (if U256_is_zero limit then Err ZeroExactLimit else Ok ())"

record PmOrderRiskLimits =
  max_quantity :: PmQuantity
  max_collateral :: U256

definition PmOrderRiskLimits_new :: "PmQuantity \<Rightarrow> U256 \<Rightarrow> (PmOrderRiskLimits, PmRiskLimitsError) result" where
  "PmOrderRiskLimits_new quantity collateral =
     bind_result (require_nonzero collateral) (\<lambda>_.
       Ok \<lparr>max_quantity = quantity, max_collateral = collateral\<rparr>)"

record PmExposureRiskLimits =
  max_market_inventory :: U256
  max_account_collateral_at_risk :: U256
  max_reserved_collateral :: U256
  max_reserved_token :: U256

definition PmExposureRiskLimits_new ::
    "U256 \<Rightarrow> U256 \<Rightarrow> U256 \<Rightarrow> U256 \<Rightarrow> (PmExposureRiskLimits, PmRiskLimitsError) result" where
  "PmExposureRiskLimits_new inventory collateral reserved token =
     bind_result (require_nonzero inventory) (\<lambda>_.
     bind_result (require_nonzero collateral) (\<lambda>_.
     bind_result (require_nonzero reserved) (\<lambda>_.
     bind_result (require_nonzero token) (\<lambda>_.
       Ok \<lparr>max_market_inventory = inventory, max_account_collateral_at_risk = collateral,
           max_reserved_collateral = reserved, max_reserved_token = token\<rparr>))))"

record PmCardinalityRiskLimits =
  max_live_orders :: u16
  max_unresolved_orders :: u16
  max_unresolved_fills :: u16

definition PmCardinalityRiskLimits_new ::
    "u16 \<Rightarrow> u16 \<Rightarrow> u16 \<Rightarrow> (PmCardinalityRiskLimits, PmRiskLimitsError) result" where
  "PmCardinalityRiskLimits_new live orders fills =
     (if live = 0 \<or> orders = 0 \<or> fills = 0 then Err ZeroCardinality
      else Ok \<lparr>max_live_orders = live, max_unresolved_orders = orders, max_unresolved_fills = fills\<rparr>)"

record PmFreshnessRiskLimits =
  limit_reference_ns :: u64
  limit_book_ns :: u64
  limit_private_ns :: u64
  limit_account_ns :: u64
  limit_order_ns :: u64
  limit_reconciliation_ns :: u64

definition PmFreshnessRiskLimits_new ::
    "u64 \<Rightarrow> u64 \<Rightarrow> u64 \<Rightarrow> u64 \<Rightarrow> u64 \<Rightarrow> u64 \<Rightarrow> (PmFreshnessRiskLimits, PmRiskLimitsError) result" where
  "PmFreshnessRiskLimits_new reference book private account lifecycle reconciliation =
     (if 0 \<in> set [reference, book, private, account, lifecycle, reconciliation] then Err ZeroFreshness
      else Ok \<lparr>limit_reference_ns = reference, limit_book_ns = book, limit_private_ns = private,
               limit_account_ns = account, limit_order_ns = lifecycle, limit_reconciliation_ns = reconciliation\<rparr>)"

record PmRiskLimits =
  limits_order :: PmOrderRiskLimits
  limits_exposure :: PmExposureRiskLimits
  limits_cardinality :: PmCardinalityRiskLimits
  limits_freshness :: PmFreshnessRiskLimits

section \<open>Inputs and decisions\<close>

record PmRiskDependency =
  dep_available :: bool
  dep_observed_monotonic_ns :: "u64 option"

definition PmRiskDependency_available :: "u64 \<Rightarrow> PmRiskDependency" where
  "PmRiskDependency_available observed = \<lparr>dep_available = True, dep_observed_monotonic_ns = Some observed\<rparr>"

definition PmRiskDependency_unavailable :: PmRiskDependency where
  "PmRiskDependency_unavailable = \<lparr>dep_available = False, dep_observed_monotonic_ns = None\<rparr>"

record PmRiskDependencies =
  dep_reference :: PmRiskDependency
  dep_book :: PmRiskDependency
  dep_private :: PmRiskDependency
  dep_account :: PmRiskDependency
  dep_orders :: PmRiskDependency
  dep_reconciliation :: PmRiskDependency

record PmRiskCandidate =
  cand_account :: PmAccountHandle
  cand_instrument :: PmInstrumentHandle
  cand_side :: PmOrderSide
  cand_quantity :: PmQuantity
  cand_collateral_at_risk :: U256
  cand_token_at_risk :: U256

record PmRiskExposure =
  exp_market_inventory :: PmSignedUnits
  exp_account_collateral_at_risk :: U256
  exp_reserved_collateral :: U256
  exp_reserved_token :: U256
  exp_live_orders :: u16
  exp_unresolved_orders :: u16
  exp_unresolved_fills :: u16

record PmRiskInput =
  in_monotonic_now_ns :: u64
  in_candidate :: PmRiskCandidate
  in_exposure :: PmRiskExposure
  in_dependencies :: PmRiskDependencies

datatype PmRiskHaltScope = HaltNone | Market | Account | Global

definition cancel_owned_required :: "PmRiskHaltScope \<Rightarrow> bool" where
  "cancel_owned_required scope \<longleftrightarrow> scope \<noteq> HaltNone"

datatype PmRiskDependencyKind =
    Reference
  | Book
  | PrivateLifecycle
  | AccountSnapshot
  | OrderLifecycle
  | Reconciliation

datatype PmRiskReason =
    GlobalHalt
  | AccountHalt
  | MarketHalt
  | DependencyUnavailable PmRiskDependencyKind
  | DependencyStale PmRiskDependencyKind u64 u64
  | MonotonicClockRegression PmRiskDependencyKind
  | OrderQuantity U256 U256
  | OrderCollateral U256 U256
  | MarketInventory U256 U256
  | AccountCollateralAtRisk U256 U256
  | ReservedCollateral U256 U256
  | ReservedToken U256 U256
  | LiveOrderCount u16 u16
  | UnresolvedOrderCount u16 u16
  | UnresolvedFillCount u16 u16
  | ArithmeticOverflow
  | ScopeMismatch

datatype PmRiskDecision =
    Approved (prospective_market_inventory: U256) (prospective_account_collateral_at_risk: U256)
      (prospective_reserved_collateral: U256) (prospective_reserved_token: U256) (prospective_live_orders: u16)
  | Rejected (rejected_reason: PmRiskReason) (rejected_halt: PmRiskHaltScope)

definition PmRiskDecision_reason :: "PmRiskDecision \<Rightarrow> PmRiskReason option" where
  "PmRiskDecision_reason decision =
     (case decision of Approved _ _ _ _ _ \<Rightarrow> None | Rejected reason _ \<Rightarrow> Some reason)"

definition PmRiskDecision_halt_scope :: "PmRiskDecision \<Rightarrow> PmRiskHaltScope" where
  "PmRiskDecision_halt_scope decision =
     (case decision of Approved _ _ _ _ _ \<Rightarrow> HaltNone | Rejected _ halt \<Rightarrow> halt)"

section \<open>Checks\<close>

text \<open>The loop of \<open>check_dependencies\<close> over its fixed table.\<close>

primrec check_dependency_table ::
    "u64 \<Rightarrow> (PmRiskDependencyKind \<times> PmRiskDependency \<times> u64 \<times> PmRiskHaltScope) list \<Rightarrow> PmRiskDecision option" where
  "check_dependency_table now_ns [] = None"
| "check_dependency_table now_ns (entry # entries) =
     (case entry of (kind, dependency, limit_ns, halt) \<Rightarrow>
        if \<not> dep_available dependency then Some (Rejected (DependencyUnavailable kind) halt)
        else case dep_observed_monotonic_ns dependency of
               None \<Rightarrow> Some (Rejected (DependencyUnavailable kind) halt)
             | Some observed_ns \<Rightarrow>
                 (case checked_sub_word now_ns observed_ns of
                    None \<Rightarrow> Some (Rejected (MonotonicClockRegression kind) Global)
                  | Some age_ns \<Rightarrow>
                      if limit_ns < age_ns then Some (Rejected (DependencyStale kind age_ns limit_ns) halt)
                      else check_dependency_table now_ns entries))"

definition dependency_table ::
    "PmRiskDependencies \<Rightarrow> PmFreshnessRiskLimits
      \<Rightarrow> (PmRiskDependencyKind \<times> PmRiskDependency \<times> u64 \<times> PmRiskHaltScope) list" where
  "dependency_table dependencies limits =
     [(Reference, dep_reference dependencies, limit_reference_ns limits, Market),
      (Book, dep_book dependencies, limit_book_ns limits, Market),
      (PrivateLifecycle, dep_private dependencies, limit_private_ns limits, Account),
      (AccountSnapshot, dep_account dependencies, limit_account_ns limits, Account),
      (OrderLifecycle, dep_orders dependencies, limit_order_ns limits, Account),
      (Reconciliation, dep_reconciliation dependencies, limit_reconciliation_ns limits, Account)]"

definition check_dependencies ::
    "u64 \<Rightarrow> PmRiskDependencies \<Rightarrow> PmFreshnessRiskLimits \<Rightarrow> PmRiskDecision option" where
  "check_dependencies now_ns dependencies limits =
     check_dependency_table now_ns (dependency_table dependencies limits)"

definition check_current_exposure :: "PmRiskExposure \<Rightarrow> PmRiskLimits \<Rightarrow> PmRiskDecision option" where
  "check_current_exposure exposure limits =
     (let e = limits_exposure limits; c = limits_cardinality limits
      in if max_market_inventory e < magnitude (exp_market_inventory exposure) then
           Some (Rejected (MarketInventory (magnitude (exp_market_inventory exposure)) (max_market_inventory e)) Market)
         else if max_account_collateral_at_risk e < exp_account_collateral_at_risk exposure then
           Some (Rejected (AccountCollateralAtRisk (exp_account_collateral_at_risk exposure)
             (max_account_collateral_at_risk e)) Account)
         else if max_reserved_collateral e < exp_reserved_collateral exposure then
           Some (Rejected (ReservedCollateral (exp_reserved_collateral exposure) (max_reserved_collateral e)) Account)
         else if max_reserved_token e < exp_reserved_token exposure then
           Some (Rejected (ReservedToken (exp_reserved_token exposure) (max_reserved_token e)) Market)
         else if max_live_orders c < exp_live_orders exposure then
           Some (Rejected (LiveOrderCount (exp_live_orders exposure) (max_live_orders c)) Account)
         else if max_unresolved_orders c < exp_unresolved_orders exposure then
           Some (Rejected (UnresolvedOrderCount (exp_unresolved_orders exposure) (max_unresolved_orders c)) Account)
         else if max_unresolved_fills c < exp_unresolved_fills exposure then
           Some (Rejected (UnresolvedFillCount (exp_unresolved_fills exposure) (max_unresolved_fills c)) Account)
         else None)"

definition add_signed :: "PmSignedUnits \<Rightarrow> PmSignedUnits \<Rightarrow> (PmSignedUnits, unit) result" where
  "add_signed left right =
     (if sign left = sign right then
        bind_result (map_err (\<lambda>_. ()) (U256_checked_add (magnitude left) (magnitude right))) (\<lambda>m.
          map_err (\<lambda>_. ()) (PmSignedUnits_from_parts (sign left) m))
      else case U256_cmp (magnitude left) (magnitude right) of
             Greater \<Rightarrow>
               bind_result (map_err (\<lambda>_. ()) (U256_checked_sub (magnitude left) (magnitude right))) (\<lambda>m.
                 map_err (\<lambda>_. ()) (PmSignedUnits_from_parts (sign left) m))
           | Less \<Rightarrow>
               bind_result (map_err (\<lambda>_. ()) (U256_checked_sub (magnitude right) (magnitude left))) (\<lambda>m.
                 map_err (\<lambda>_. ()) (PmSignedUnits_from_parts (sign right) m))
           | Equal \<Rightarrow> Ok PmSignedUnits_ZERO)"

section \<open>State\<close>

record PmRiskCounters =
  risk_evaluations :: u64
  risk_approvals :: u64
  risk_rejections :: u64
  risk_market_halts :: u64
  risk_account_halts :: u64
  risk_global_halts :: u64

record PmRiskState =
  rs_account :: PmAccountHandle
  rs_instrument :: PmInstrumentHandle
  rs_limits :: PmRiskLimits
  rs_market_halt :: "PmRiskReason option"
  rs_account_halt :: "PmRiskReason option"
  rs_global_halt :: "PmRiskReason option"
  rs_counters :: PmRiskCounters

definition PmRiskState_new :: "PmAccountHandle \<Rightarrow> PmInstrumentHandle \<Rightarrow> PmRiskLimits \<Rightarrow> PmRiskState" where
  "PmRiskState_new account instrument limits =
     \<lparr>rs_account = account, rs_instrument = instrument, rs_limits = limits, rs_market_halt = None,
      rs_account_halt = None, rs_global_halt = None,
      rs_counters = \<lparr>risk_evaluations = 0, risk_approvals = 0, risk_rejections = 0, risk_market_halts = 0,
                     risk_account_halts = 0, risk_global_halts = 0\<rparr>\<rparr>"

text \<open>The limit comparisons of \<open>check\<close> on the prospective exposure.\<close>

definition check_prospective ::
    "PmRiskLimits \<Rightarrow> PmRiskExposure \<Rightarrow> U256 \<Rightarrow> U256 \<Rightarrow> U256 \<Rightarrow> U256 \<Rightarrow> u16 \<Rightarrow> PmRiskDecision" where
  "check_prospective limits exposure inventory account_collateral reserved_collateral reserved_token live_orders =
     (let e = limits_exposure limits; c = limits_cardinality limits
      in if max_market_inventory e < inventory then
           Rejected (MarketInventory inventory (max_market_inventory e)) Market
         else if max_account_collateral_at_risk e < account_collateral then
           Rejected (AccountCollateralAtRisk account_collateral (max_account_collateral_at_risk e)) Account
         else if max_reserved_collateral e < reserved_collateral then
           Rejected (ReservedCollateral reserved_collateral (max_reserved_collateral e)) Account
         else if max_reserved_token e < reserved_token then
           Rejected (ReservedToken reserved_token (max_reserved_token e)) Market
         else if max_live_orders c < live_orders then
           Rejected (LiveOrderCount live_orders (max_live_orders c)) Account
         else if max_unresolved_orders c < exp_unresolved_orders exposure then
           Rejected (UnresolvedOrderCount (exp_unresolved_orders exposure) (max_unresolved_orders c)) Account
         else if max_unresolved_fills c < exp_unresolved_fills exposure then
           Rejected (UnresolvedFillCount (exp_unresolved_fills exposure) (max_unresolved_fills c)) Account
         else Approved inventory account_collateral reserved_collateral reserved_token live_orders)"

definition candidate_delta :: "PmRiskCandidate \<Rightarrow> PmSignedUnits option" where
  "candidate_delta candidate =
     (case PmSignedUnits_from_parts (case cand_side candidate of Buy \<Rightarrow> Positive | Sell \<Rightarrow> PmSign.Negative)
             (protocol_units (cand_quantity candidate)) of
        Ok delta \<Rightarrow> Some delta
      | Err _ \<Rightarrow> None)"

text \<open>The arithmetic tail of \<open>check\<close>, once the candidate's signed delta is known.\<close>

definition prospective_decision :: "PmRiskLimits \<Rightarrow> PmRiskExposure \<Rightarrow> PmRiskCandidate \<Rightarrow> PmSignedUnits \<Rightarrow> PmRiskDecision" where
  "prospective_decision limits exposure candidate delta =
     (case (add_signed (exp_market_inventory exposure) delta,
            U256_checked_add (exp_account_collateral_at_risk exposure) (cand_collateral_at_risk candidate),
            U256_checked_add (exp_reserved_collateral exposure) (cand_collateral_at_risk candidate),
            U256_checked_add (exp_reserved_token exposure) (cand_token_at_risk candidate),
            checked_add_word (exp_live_orders exposure) 1) of
        (Ok inventory, Ok account_collateral, Ok reserved_collateral, Ok reserved_token, Some live_orders) \<Rightarrow>
          check_prospective limits exposure (magnitude inventory) account_collateral
            reserved_collateral reserved_token live_orders
      | _ \<Rightarrow> Rejected ArithmeticOverflow Global)"

definition PmRiskState_check :: "PmRiskState \<Rightarrow> PmRiskInput \<Rightarrow> PmRiskDecision option" where
  "PmRiskState_check s input =
     (let candidate = in_candidate input; exposure = in_exposure input; limits = rs_limits s
      in if cand_account candidate \<noteq> rs_account s \<or> cand_instrument candidate \<noteq> rs_instrument s then
           Some (Rejected ScopeMismatch Global)
         else case check_dependencies (in_monotonic_now_ns input) (in_dependencies input) (limits_freshness limits) of
                Some decision \<Rightarrow> Some decision
              | None \<Rightarrow>
         if rs_global_halt s \<noteq> None then Some (Rejected GlobalHalt Global)
         else if rs_account_halt s \<noteq> None then Some (Rejected AccountHalt Account)
         else if rs_market_halt s \<noteq> None then Some (Rejected MarketHalt Market)
         else case check_current_exposure exposure limits of
                Some decision \<Rightarrow> Some decision
              | None \<Rightarrow>
         (let candidate_units = protocol_units (cand_quantity candidate);
              order_limit = protocol_units (max_quantity (limits_order limits))
          in if order_limit < candidate_units then Some (Rejected (OrderQuantity candidate_units order_limit) HaltNone)
             else if max_collateral (limits_order limits) < cand_collateral_at_risk candidate then
               Some (Rejected (OrderCollateral (cand_collateral_at_risk candidate)
                 (max_collateral (limits_order limits))) HaltNone)
             else case candidate_delta candidate of
                    None \<Rightarrow> None
                  | Some delta \<Rightarrow> Some (prospective_decision limits exposure candidate delta)))"

definition risk_bump :: "(PmRiskCounters \<Rightarrow> PmRiskCounters) \<Rightarrow> PmRiskState \<Rightarrow> PmRiskState" where
  "risk_bump f s = s\<lparr>rs_counters := f (rs_counters s)\<rparr>"

definition PmRiskState_latch :: "PmRiskState \<Rightarrow> PmRiskHaltScope \<Rightarrow> PmRiskReason \<Rightarrow> PmRiskState" where
  "PmRiskState_latch s halt reason =
     (case halt of
        HaltNone \<Rightarrow> s
      | Market \<Rightarrow>
          if rs_market_halt s = None
          then risk_bump (risk_market_halts_update (\<lambda>n. saturating_add n 1)) (s\<lparr>rs_market_halt := Some reason\<rparr>) else s
      | Account \<Rightarrow>
          if rs_account_halt s = None
          then risk_bump (risk_account_halts_update (\<lambda>n. saturating_add n 1)) (s\<lparr>rs_account_halt := Some reason\<rparr>) else s
      | Global \<Rightarrow>
          if rs_global_halt s = None
          then risk_bump (risk_global_halts_update (\<lambda>n. saturating_add n 1)) (s\<lparr>rs_global_halt := Some reason\<rparr>) else s)"

definition PmRiskState_evaluate :: "PmRiskState \<Rightarrow> PmRiskInput \<Rightarrow> (PmRiskState \<times> PmRiskDecision) option" where
  "PmRiskState_evaluate s input =
     (let s = risk_bump (risk_evaluations_update (\<lambda>n. saturating_add n 1)) s
      in case PmRiskState_check s input of
           None \<Rightarrow> None
         | Some (Approved i a c t l) \<Rightarrow>
             Some (risk_bump (risk_approvals_update (\<lambda>n. saturating_add n 1)) s, Approved i a c t l)
         | Some (Rejected reason halt) \<Rightarrow>
             Some (PmRiskState_latch (risk_bump (risk_rejections_update (\<lambda>n. saturating_add n 1)) s) halt reason,
                   Rejected reason halt))"

definition recover_after_complete_reconciliation :: "PmRiskState \<Rightarrow> PmRiskState" where
  "recover_after_complete_reconciliation s = s\<lparr>rs_market_halt := None, rs_account_halt := None\<rparr>"

section \<open>Signed addition\<close>

definition signed_int :: "PmSignedUnits \<Rightarrow> int" where
  "signed_int x = (case sign x of Positive \<Rightarrow> int (u256_nat (magnitude x)) | PmSign.Negative \<Rightarrow> - int (u256_nat (magnitude x)))"

definition signed_ok :: "PmSignedUnits \<Rightarrow> bool" where
  "signed_ok x \<longleftrightarrow> (u256_nat (magnitude x) = 0 \<longrightarrow> sign x = Positive)"

lemma abs_signed_int [simp]: "\<bar>signed_int x\<bar> = int (u256_nat (magnitude x))"
  by (cases "sign x") (simp_all add: signed_int_def)

lemma signed_from_parts:
  "PmSignedUnits_from_parts s m =
     (if u256_nat m = 0 \<and> s = PmSign.Negative then Err NonCanonicalSignedZero else Ok \<lparr>sign = s, magnitude = m\<rparr>)"
proof -
  have "m = U256_ZERO" if "u256_nat m = 0"
    using that u256_nat_eq_iff [of m U256_ZERO] by simp
  then show ?thesis
    by (cases s) (auto simp: PmSignedUnits_from_parts_def PmSignedUnits_ZERO_def)
qed

lemma signed_sum_same:
  assumes "sign x = sign y"
  shows "nat \<bar>signed_int x + signed_int y\<bar> = u256_nat (magnitude x) + u256_nat (magnitude y)"
  using assms by (cases "sign y") (auto simp: signed_int_def)

lemma add_signed_exact:
  assumes "signed_ok x" "signed_ok y"
  shows "if nat \<bar>signed_int x + signed_int y\<bar> < 2 ^ 256
    then \<exists>r. add_signed x y = Ok r \<and> signed_ok r \<and> signed_int r = signed_int x + signed_int y
    else add_signed x y = Err ()"
proof (cases "sign x = sign y")
  case True
  let ?n = "u256_nat (magnitude x) + u256_nat (magnitude y)"
  show ?thesis
  proof (cases "?n < 2 ^ 256")
    case lt: True
    have pos: "?n = 0 \<Longrightarrow> sign x = Positive"
      using assms(1) by (simp add: signed_ok_def)
    have "add_signed x y = Ok \<lparr>sign = sign x, magnitude = u256_of_nat ?n\<rparr>"
      using True lt pos u256_nat_of_nat [OF lt] by (simp add: add_signed_def U256_checked_add_eq signed_from_parts) auto
    moreover have "signed_int \<lparr>sign = sign x, magnitude = u256_of_nat ?n\<rparr> = signed_int x + signed_int y"
      using True u256_nat_of_nat [OF lt] by (cases "sign y") (simp_all add: signed_int_def)
    moreover have "signed_ok \<lparr>sign = sign x, magnitude = u256_of_nat ?n\<rparr>"
      using pos u256_nat_of_nat [OF lt] by (simp add: signed_ok_def)
    ultimately show ?thesis
      using lt signed_sum_same [OF True] by simp
  next
    case False
    then show ?thesis
      using True signed_sum_same [OF True] by (simp add: add_signed_def U256_checked_add_eq)
  qed
next
  case False
  let ?a = "u256_nat (magnitude x)" and ?b = "u256_nat (magnitude y)"
  have bound: "?a - ?b < 2 ^ 256" "?b - ?a < 2 ^ 256"
    using u256_nat_bound [of "magnitude x"] u256_nat_bound [of "magnitude y"] by linarith+
  have small: "nat \<bar>signed_int x + signed_int y\<bar> = (?a - ?b) + (?b - ?a)"
    using False by (cases "sign x"; cases "sign y") (auto simp: signed_int_def)
  then have lt: "nat \<bar>signed_int x + signed_int y\<bar> < 2 ^ 256"
    using bound by (cases "?a \<le> ?b") simp_all
  have "\<exists>r. add_signed x y = Ok r \<and> signed_ok r \<and> signed_int r = signed_int x + signed_int y"
  proof (cases "?a = ?b")
    case True
    then show ?thesis
      using False by (cases "sign x"; cases "sign y")
        (auto simp: add_signed_def U256_cmp_eq compare_of_def PmSignedUnits_ZERO_def signed_ok_def signed_int_def)
  next
    case ne: False
    then show ?thesis
      using False u256_nat_of_nat [OF bound(1)] u256_nat_of_nat [OF bound(2)]
      by (cases "?a < ?b"; cases "sign x"; cases "sign y")
        (auto simp: add_signed_def U256_cmp_eq compare_of_def U256_checked_sub_eq signed_from_parts signed_ok_def signed_int_def)
  qed
  then show ?thesis
    using lt by simp
qed

section \<open>What approval means\<close>

definition dependency_fresh :: "u64 \<Rightarrow> PmRiskDependency \<Rightarrow> u64 \<Rightarrow> bool" where
  "dependency_fresh now dependency limit \<longleftrightarrow>
     dep_available dependency
     \<and> (\<exists>observed. dep_observed_monotonic_ns dependency = Some observed \<and> observed \<le> now
          \<and> unat now - unat observed \<le> unat limit)"

lemma check_dependency_table_None:
  "check_dependency_table now table = None \<longleftrightarrow>
     (\<forall>(kind, dependency, limit, halt) \<in> set table. dependency_fresh now dependency limit)"
proof (induction table)
  case (Cons entry table)
  obtain kind dependency limit halt where e: "entry = (kind, dependency, limit, halt)"
    by (cases entry)
  have "check_dependency_table now (entry # table) = None \<longleftrightarrow>
      dependency_fresh now dependency limit \<and> check_dependency_table now table = None"
    unfolding e dependency_fresh_def
    by (cases "dep_observed_monotonic_ns dependency")
      (auto simp: checked_sub_word_def word_less_nat_alt unat_sub not_less)
  then show ?case
    using Cons by (simp add: e)
qed simp

lemma check_dependency_table_Rejected:
  "check_dependency_table now table = Some decision \<Longrightarrow> \<exists>reason halt. decision = Rejected reason halt"
  by (induction table) (auto split: option.splits if_splits prod.splits)

definition exposure_within :: "PmRiskLimits \<Rightarrow> PmRiskExposure \<Rightarrow> bool" where
  "exposure_within limits exposure \<longleftrightarrow>
     \<bar>signed_int (exp_market_inventory exposure)\<bar> \<le> int (u256_nat (max_market_inventory (limits_exposure limits)))
     \<and> u256_nat (exp_account_collateral_at_risk exposure) \<le> u256_nat (max_account_collateral_at_risk (limits_exposure limits))
     \<and> u256_nat (exp_reserved_collateral exposure) \<le> u256_nat (max_reserved_collateral (limits_exposure limits))
     \<and> u256_nat (exp_reserved_token exposure) \<le> u256_nat (max_reserved_token (limits_exposure limits))
     \<and> unat (exp_live_orders exposure) \<le> unat (max_live_orders (limits_cardinality limits))
     \<and> unat (exp_unresolved_orders exposure) \<le> unat (max_unresolved_orders (limits_cardinality limits))
     \<and> unat (exp_unresolved_fills exposure) \<le> unat (max_unresolved_fills (limits_cardinality limits))"

lemma check_current_exposure_None: "check_current_exposure exposure limits = None \<longleftrightarrow> exposure_within limits exposure"
  by (simp add: check_current_exposure_def exposure_within_def Let_def u256_less_iff word_less_nat_alt not_less)

definition candidate_int :: "PmRiskCandidate \<Rightarrow> int" where
  "candidate_int candidate =
     (case cand_side candidate of
        Buy \<Rightarrow> int (u256_nat (protocol_units (cand_quantity candidate)))
      | Sell \<Rightarrow> - int (u256_nat (protocol_units (cand_quantity candidate))))"

definition prospective_within :: "PmRiskLimits \<Rightarrow> PmRiskExposure \<Rightarrow> PmRiskCandidate \<Rightarrow> bool" where
  "prospective_within limits exposure candidate \<longleftrightarrow>
     nat \<bar>signed_int (exp_market_inventory exposure) + candidate_int candidate\<bar>
        \<le> u256_nat (max_market_inventory (limits_exposure limits))
     \<and> u256_nat (exp_account_collateral_at_risk exposure) + u256_nat (cand_collateral_at_risk candidate)
        \<le> u256_nat (max_account_collateral_at_risk (limits_exposure limits))
     \<and> u256_nat (exp_reserved_collateral exposure) + u256_nat (cand_collateral_at_risk candidate)
        \<le> u256_nat (max_reserved_collateral (limits_exposure limits))
     \<and> u256_nat (exp_reserved_token exposure) + u256_nat (cand_token_at_risk candidate)
        \<le> u256_nat (max_reserved_token (limits_exposure limits))
     \<and> unat (exp_live_orders exposure) + 1 \<le> unat (max_live_orders (limits_cardinality limits))"

definition risk_admissible :: "PmRiskState \<Rightarrow> PmRiskInput \<Rightarrow> bool" where
  "risk_admissible s input \<longleftrightarrow>
     (let candidate = in_candidate input; limits = rs_limits s
      in cand_account candidate = rs_account s \<and> cand_instrument candidate = rs_instrument s
         \<and> rs_global_halt s = None \<and> rs_account_halt s = None \<and> rs_market_halt s = None
         \<and> (\<forall>(kind, dependency, limit, halt) \<in> set (dependency_table (in_dependencies input) (limits_freshness limits)).
              dependency_fresh (in_monotonic_now_ns input) dependency limit)
         \<and> exposure_within limits (in_exposure input)
         \<and> u256_nat (protocol_units (cand_quantity candidate)) \<le> u256_nat (protocol_units (max_quantity (limits_order limits)))
         \<and> u256_nat (cand_collateral_at_risk candidate) \<le> u256_nat (max_collateral (limits_order limits))
         \<and> prospective_within limits (in_exposure input) candidate)"

lemma candidate_delta_exact:
  assumes "quantity_ok (cand_quantity candidate)"
  shows "\<exists>delta. candidate_delta candidate = Some delta \<and> signed_ok delta \<and> signed_int delta = candidate_int candidate"
  using assms
  by (cases "cand_side candidate")
    (auto simp: candidate_delta_def signed_from_parts quantity_ok_def signed_ok_def signed_int_def candidate_int_def)

lemma check_prospective_Approved:
  assumes "exposure_within limits exposure"
  shows "(\<exists>i a c t l. check_prospective limits exposure inventory account reserved token live = Approved i a c t l) \<longleftrightarrow>
    u256_nat inventory \<le> u256_nat (max_market_inventory (limits_exposure limits))
    \<and> u256_nat account \<le> u256_nat (max_account_collateral_at_risk (limits_exposure limits))
    \<and> u256_nat reserved \<le> u256_nat (max_reserved_collateral (limits_exposure limits))
    \<and> u256_nat token \<le> u256_nat (max_reserved_token (limits_exposure limits))
    \<and> unat live \<le> unat (max_live_orders (limits_cardinality limits))"
  using assms
  by (auto simp: check_prospective_def Let_def u256_less_iff word_less_nat_alt not_less exposure_within_def)

lemma checked_add_le:
  assumes "u256_nat a + u256_nat b \<le> u256_nat limit"
  shows "U256_checked_add a b = Ok (u256_of_nat (u256_nat a + u256_nat b))"
    "u256_nat (u256_of_nat (u256_nat a + u256_nat b)) = u256_nat a + u256_nat b"
proof -
  have "u256_nat a + u256_nat b < 2 ^ 256"
    using assms u256_nat_bound [of limit] by linarith
  then show "U256_checked_add a b = Ok (u256_of_nat (u256_nat a + u256_nat b))"
    "u256_nat (u256_of_nat (u256_nat a + u256_nat b)) = u256_nat a + u256_nat b"
    by (simp_all add: U256_checked_add_eq u256_nat_of_nat)
qed

lemma checked_add_Ok:
  "U256_checked_add a b = Ok r \<Longrightarrow> u256_nat r = u256_nat a + u256_nat b"
  by (auto simp: U256_checked_add_eq u256_nat_of_nat split: if_splits)

lemma unat_u16_bound: "unat (w :: u16) < 65536"
  using unsigned_less [of w, where ?'a = nat] by simp

lemma checked_inc_u16: "checked_add_word (n :: u16) 1 = Some m \<longleftrightarrow> unat m = unat n + 1"
proof -
  have "unat m < 2 ^ 16"
    using unat_u16_bound [of m] by simp
  then show ?thesis
    by (auto simp: checked_add_word_def unat_word_ariths(1) word_unat_eq_iff)
qed

definition prospective_exact :: "PmRiskExposure \<Rightarrow> PmRiskCandidate \<Rightarrow> PmRiskDecision \<Rightarrow> bool" where
  "prospective_exact exposure candidate decision \<longleftrightarrow>
     (\<exists>i a c t l. decision = Approved i a c t l
        \<and> u256_nat i = nat \<bar>signed_int (exp_market_inventory exposure) + candidate_int candidate\<bar>
        \<and> u256_nat a = u256_nat (exp_account_collateral_at_risk exposure) + u256_nat (cand_collateral_at_risk candidate)
        \<and> u256_nat c = u256_nat (exp_reserved_collateral exposure) + u256_nat (cand_collateral_at_risk candidate)
        \<and> u256_nat t = u256_nat (exp_reserved_token exposure) + u256_nat (cand_token_at_risk candidate)
        \<and> unat l = unat (exp_live_orders exposure) + 1)"

lemma check_prospective_values:
  "check_prospective limits exposure inventory account reserved token live = Approved i a c t l
     \<Longrightarrow> i = inventory \<and> a = account \<and> c = reserved \<and> t = token \<and> l = live"
  by (auto simp: check_prospective_def Let_def split: if_splits)

lemma prospective_decision_sound:
  assumes "signed_ok (exp_market_inventory exposure)" "signed_ok delta" "signed_int delta = candidate_int candidate"
    "exposure_within limits exposure" "prospective_decision limits exposure candidate delta = Approved i a c t l"
  shows "prospective_within limits exposure candidate"
    "prospective_exact exposure candidate (Approved i a c t l)"
proof -
  obtain inv ac rc rt live where ok: "add_signed (exp_market_inventory exposure) delta = Ok inv"
      "U256_checked_add (exp_account_collateral_at_risk exposure) (cand_collateral_at_risk candidate) = Ok ac"
      "U256_checked_add (exp_reserved_collateral exposure) (cand_collateral_at_risk candidate) = Ok rc"
      "U256_checked_add (exp_reserved_token exposure) (cand_token_at_risk candidate) = Ok rt"
      "checked_add_word (exp_live_orders exposure) 1 = Some live"
    and p: "check_prospective limits exposure (magnitude inv) ac rc rt live = Approved i a c t l"
    using assms(5) by (auto simp: prospective_decision_def split: result.splits option.splits)
  have "signed_int inv = signed_int (exp_market_inventory exposure) + candidate_int candidate"
    using add_signed_exact [OF assms(1,2)] ok(1) assms(3) by (auto split: if_splits)
  then have inv: "u256_nat (magnitude inv) = nat \<bar>signed_int (exp_market_inventory exposure) + candidate_int candidate\<bar>"
    using abs_signed_int [of inv] by simp
  note vals = inv checked_add_Ok [OF ok(2)] checked_add_Ok [OF ok(3)] checked_add_Ok [OF ok(4)] ok(5) [unfolded checked_inc_u16]
  show "prospective_within limits exposure candidate"
    using check_prospective_Approved [OF assms(4), of "magnitude inv" ac rc rt live] p vals
    by (simp add: prospective_within_def)
  show "prospective_exact exposure candidate (Approved i a c t l)"
    using check_prospective_values [OF p] vals by (simp add: prospective_exact_def)
qed

lemma prospective_decision_complete:
  assumes "signed_ok (exp_market_inventory exposure)" "signed_ok delta" "signed_int delta = candidate_int candidate"
    "exposure_within limits exposure" "prospective_within limits exposure candidate"
  shows "\<exists>i a c t l. prospective_decision limits exposure candidate delta = Approved i a c t l"
proof -
  note w = assms(5) [unfolded prospective_within_def]
  have "nat \<bar>signed_int (exp_market_inventory exposure) + signed_int delta\<bar> < 2 ^ 256"
    using w u256_nat_bound [of "max_market_inventory (limits_exposure limits)"] assms(3) by linarith
  then obtain inv where inv: "add_signed (exp_market_inventory exposure) delta = Ok inv"
      "signed_int inv = signed_int (exp_market_inventory exposure) + candidate_int candidate"
    using add_signed_exact [OF assms(1,2)] assms(3) by auto
  then have mag: "u256_nat (magnitude inv) = nat \<bar>signed_int (exp_market_inventory exposure) + candidate_int candidate\<bar>"
    using abs_signed_int [of inv] by simp
  obtain ac rc rt where sums:
      "U256_checked_add (exp_account_collateral_at_risk exposure) (cand_collateral_at_risk candidate) = Ok ac"
      "U256_checked_add (exp_reserved_collateral exposure) (cand_collateral_at_risk candidate) = Ok rc"
      "U256_checked_add (exp_reserved_token exposure) (cand_token_at_risk candidate) = Ok rt"
    using w checked_add_le(1) by blast
  have "unat (exp_live_orders exposure) + 1 < 2 ^ 16"
    using w unat_u16_bound [of "max_live_orders (limits_cardinality limits)"] by simp
  then obtain live where live: "checked_add_word (exp_live_orders exposure) 1 = Some live"
    by (simp add: checked_add_word_def)
  note vals = mag checked_add_Ok [OF sums(1)] checked_add_Ok [OF sums(2)] checked_add_Ok [OF sums(3)] live [unfolded checked_inc_u16]
  have "\<exists>i a c t l. check_prospective limits exposure (magnitude inv) ac rc rt live = Approved i a c t l"
    using check_prospective_Approved [OF assms(4)] w vals by simp
  then show ?thesis
    using inv(1) sums live by (simp add: prospective_decision_def)
qed

definition approves :: "PmRiskDecision \<Rightarrow> bool" where
  "approves decision \<longleftrightarrow> (\<exists>i a c t l. decision = Approved i a c t l)"

lemma approves_simps [simp]: "approves (Approved i a c t l)" "\<not> approves (Rejected r h)"
  by (simp_all add: approves_def)

lemma check_current_exposure_Rejected:
  "check_current_exposure exposure limits = Some decision \<Longrightarrow> \<not> approves decision"
  by (auto simp: check_current_exposure_def Let_def split: if_splits)

lemma check_dependencies_Rejected: "check_dependencies now deps limits = Some decision \<Longrightarrow> \<not> approves decision"
  by (auto simp: check_dependencies_def dest!: check_dependency_table_Rejected)

lemma check_exact:
  assumes "quantity_ok (cand_quantity (in_candidate input))" "signed_ok (exp_market_inventory (in_exposure input))"
  shows "\<exists>decision. PmRiskState_check s input = Some decision
    \<and> (if risk_admissible s input then prospective_exact (in_exposure input) (in_candidate input) decision
       else \<not> approves decision)"
proof -
  let ?c = "in_candidate input" and ?e = "in_exposure input" and ?l = "rs_limits s"
  obtain delta where d: "candidate_delta ?c = Some delta" "signed_ok delta" "signed_int delta = candidate_int ?c"
    using candidate_delta_exact [OF assms(1)] by blast
  define pre where "pre \<longleftrightarrow> cand_account ?c = rs_account s \<and> cand_instrument ?c = rs_instrument s
    \<and> rs_global_halt s = None \<and> rs_account_halt s = None \<and> rs_market_halt s = None
    \<and> check_dependencies (in_monotonic_now_ns input) (in_dependencies input) (limits_freshness ?l) = None
    \<and> check_current_exposure ?e ?l = None
    \<and> \<not> protocol_units (max_quantity (limits_order ?l)) < protocol_units (cand_quantity ?c)
    \<and> \<not> max_collateral (limits_order ?l) < cand_collateral_at_risk ?c"
  have adm: "risk_admissible s input \<longleftrightarrow> pre \<and> prospective_within ?l ?e ?c"
    by (auto simp: risk_admissible_def pre_def Let_def check_current_exposure_None check_dependencies_def
        check_dependency_table_None u256_less_iff not_less)
  show ?thesis
  proof (cases pre)
    case True
    then have check: "PmRiskState_check s input = Some (prospective_decision ?l ?e ?c delta)"
      using d(1) by (simp add: pre_def PmRiskState_check_def Let_def)
    have within: "exposure_within ?l ?e"
      using True by (simp add: pre_def check_current_exposure_None)
    note sound = prospective_decision_sound [OF assms(2) d(2,3) within]
    show ?thesis
      using check True adm sound prospective_decision_complete [OF assms(2) d(2,3) within]
      by (cases "prospective_within ?l ?e ?c") (auto simp: approves_def)
  next
    case False
    have "\<exists>decision. PmRiskState_check s input = Some decision \<and> \<not> approves decision"
      using False check_current_exposure_Rejected check_dependencies_Rejected
      by (auto simp: pre_def PmRiskState_check_def Let_def split: option.splits)
    then show ?thesis
      using False adm by auto
  qed
qed

section \<open>Halts\<close>

text \<open>Calls on the risk state, as the private reducer makes them.\<close>

datatype risk_call = Evaluate PmRiskInput | Recover

definition risk_call :: "PmRiskState \<Rightarrow> risk_call \<Rightarrow> PmRiskState option" where
  "risk_call s call =
     (case call of
        Evaluate input \<Rightarrow> map_option fst (PmRiskState_evaluate s input)
      | Recover \<Rightarrow> Some (recover_after_complete_reconciliation s))"

primrec risk_calls :: "PmRiskState \<Rightarrow> risk_call list \<Rightarrow> PmRiskState option" where
  "risk_calls s [] = Some s"
| "risk_calls s (call # calls) = (case risk_call s call of None \<Rightarrow> None | Some s' \<Rightarrow> risk_calls s' calls)"

definition halted_by :: "PmRiskHaltScope \<Rightarrow> PmRiskState \<Rightarrow> PmRiskReason option" where
  "halted_by scope s =
     (case scope of HaltNone \<Rightarrow> None | Market \<Rightarrow> rs_market_halt s | Account \<Rightarrow> rs_account_halt s | Global \<Rightarrow> rs_global_halt s)"

lemma halted_by_bump [simp]: "halted_by scope (risk_bump f s) = halted_by scope s"
  by (cases scope) (simp_all add: halted_by_def risk_bump_def)

lemma latch_keeps: "halted_by scope s = Some r \<Longrightarrow> halted_by scope (PmRiskState_latch s halt reason) = Some r"
  by (cases scope; cases halt) (auto simp: PmRiskState_latch_def halted_by_def risk_bump_def)

lemma latch_sets: "halt \<noteq> HaltNone \<Longrightarrow> halted_by halt (PmRiskState_latch s halt reason) \<noteq> None"
  by (cases halt) (auto simp: PmRiskState_latch_def halted_by_def risk_bump_def)

lemma evaluate_cases:
  assumes "PmRiskState_evaluate s input = Some (s', decision)"
  shows "halted_by scope s = Some r \<Longrightarrow> halted_by scope s' = Some r"
    "decision = Rejected reason halt \<Longrightarrow> halt \<noteq> HaltNone \<Longrightarrow> halted_by halt s' \<noteq> None"
  using assms latch_keeps latch_sets
  by (auto simp: PmRiskState_evaluate_def Let_def split: option.splits PmRiskDecision.splits)

lemma evaluate_halted:
  assumes "halted_by scope s \<noteq> None" "PmRiskState_evaluate s input = Some (s', decision)"
  shows "\<not> approves decision"
proof -
  let ?s = "risk_bump (risk_evaluations_update (\<lambda>n. saturating_add n 1)) s"
  have halted: "rs_global_halt ?s \<noteq> None \<or> rs_account_halt ?s \<noteq> None \<or> rs_market_halt ?s \<noteq> None"
    using assms(1) by (cases scope) (auto simp: halted_by_def risk_bump_def)
  have "PmRiskState_check ?s input = Some decision"
    using assms(2) by (auto simp: PmRiskState_evaluate_def Let_def split: option.splits PmRiskDecision.splits)
  then show ?thesis
    using halted check_dependencies_Rejected
    by (auto simp: PmRiskState_check_def Let_def split: if_splits option.splits)
qed

lemma risk_calls_keep:
  assumes "halted_by scope s = Some r" "risk_calls s calls = Some s'" "scope = Global \<or> Recover \<notin> set calls"
  shows "halted_by scope s' = Some r"
  using assms
proof (induction calls arbitrary: s)
  case (Cons call calls)
  obtain t where t: "risk_call s call = Some t" "risk_calls t calls = Some s'"
    using Cons.prems(2) by (auto split: option.splits)
  have "halted_by scope t = Some r"
  proof (cases call)
    case (Evaluate input)
    then show ?thesis
      using Cons.prems(1) t(1) evaluate_cases(1) by (auto simp: risk_call_def)
  next
    case Recover
    then show ?thesis
      using Cons.prems(1,3) t(1) by (auto simp: risk_call_def recover_after_complete_reconciliation_def halted_by_def)
  qed
  then show ?case
    using Cons.IH [OF _ t(2)] Cons.prems(3) by auto
qed simp

section \<open>Sample evaluations\<close>

definition sample_limits :: PmRiskLimits where
  "sample_limits =
     (let big = u256_of_nat 1000 in
      \<lparr>limits_order = \<lparr>max_quantity = PmQuantity big, max_collateral = big\<rparr>,
       limits_exposure = \<lparr>max_market_inventory = big, max_account_collateral_at_risk = big,
         max_reserved_collateral = big, max_reserved_token = big\<rparr>,
       limits_cardinality = \<lparr>max_live_orders = 4, max_unresolved_orders = 4, max_unresolved_fills = 4\<rparr>,
       limits_freshness = \<lparr>limit_reference_ns = 50, limit_book_ns = 50, limit_private_ns = 50,
         limit_account_ns = 50, limit_order_ns = 50, limit_reconciliation_ns = 50\<rparr>\<rparr>)"

definition sample_risk_input :: "PmAccountHandle \<Rightarrow> PmRiskInput" where
  "sample_risk_input account =
     \<lparr>in_monotonic_now_ns = 100,
      in_candidate = \<lparr>cand_account = account, cand_instrument = PmInstrumentHandle 1 2, cand_side = Buy,
        cand_quantity = PmQuantity (u256_of_nat 600), cand_collateral_at_risk = u256_of_nat 300,
        cand_token_at_risk = U256_ZERO\<rparr>,
      in_exposure = \<lparr>exp_market_inventory = \<lparr>sign = Positive, magnitude = u256_of_nat 400\<rparr>,
        exp_account_collateral_at_risk = U256_ZERO, exp_reserved_collateral = U256_ZERO,
        exp_reserved_token = U256_ZERO, exp_live_orders = 0, exp_unresolved_orders = 0, exp_unresolved_fills = 0\<rparr>,
      in_dependencies = (let d = PmRiskDependency_available 80 in
        \<lparr>dep_reference = d, dep_book = d, dep_private = d, dep_account = d, dep_orders = d, dep_reconciliation = d\<rparr>)\<rparr>"

definition sample_risk :: PmRiskState where
  "sample_risk = PmRiskState_new 7 (PmInstrumentHandle 1 2) sample_limits"

lemma sample_nat [simp]:
  "u256_nat (u256_of_nat 1000) = 1000" "u256_nat (u256_of_nat 600) = 600" "u256_nat (u256_of_nat 400) = 400"
  "u256_nat (u256_of_nat 300) = 300"
  by (simp_all add: u256_nat_of_nat)

section \<open>Properties\<close>

text \<open>
  C20: the gate approves exactly the orders that keep every limit.  For a constructed quantity and
  inventory the check never panics; it approves if and only if the candidate is in scope, nothing
  is halted, all six dependencies are available and fresh, the current exposure is within every
  limit, the order is within its own limits, and the exact integer exposure after the order is
  within every limit.  The approved figures are those exact sums, with no wrap-around.
\<close>

theorem risk_approval_exact:
  assumes "quantity_ok (cand_quantity (in_candidate input))" "signed_ok (exp_market_inventory (in_exposure input))"
  shows "\<exists>decision. PmRiskState_check s input = Some decision
    \<and> (if risk_admissible s input then prospective_exact (in_exposure input) (in_candidate input) decision
       else \<not> approves decision)"
  by (rule check_exact [OF assms])

theorem risk_approval_exact_witness:
  "\<exists>decision. PmRiskState_check sample_risk (sample_risk_input 7) = Some decision
     \<and> prospective_exact (in_exposure (sample_risk_input 7)) (in_candidate (sample_risk_input 7)) decision"
proof -
  have "risk_admissible sample_risk (sample_risk_input 7)"
    by (simp add: risk_admissible_def sample_risk_def sample_risk_input_def PmRiskState_new_def sample_limits_def Let_def
        dependency_table_def dependency_fresh_def PmRiskDependency_available_def exposure_within_def signed_int_def
        prospective_within_def candidate_int_def)
  then show ?thesis
    using risk_approval_exact [of "sample_risk_input 7" sample_risk]
    by (simp add: sample_risk_input_def quantity_ok_def signed_ok_def)
qed

text \<open>
  C21: halts latch.  After a decision that halts a scope no later evaluation is approved, whatever
  its input, until a complete reconciliation clears the halt; a global halt is never cleared, so
  after it not even reconciliation allows another approval.
\<close>

theorem risk_halt_blocks:
  assumes "PmRiskState_evaluate s first = Some (s1, Rejected reason halt)" "cancel_owned_required halt"
    and "risk_calls s1 calls = Some s2" "halt = Global \<or> Recover \<notin> set calls"
    and "PmRiskState_evaluate s2 later = Some (s3, decision)"
  shows "\<not> approves decision"
proof -
  obtain r where "halted_by halt s1 = Some r"
    using evaluate_cases(2) [OF assms(1)] assms(2) by (auto simp: cancel_owned_required_def)
  then have "halted_by halt s2 = Some r"
    using risk_calls_keep assms(3,4) by blast
  then show ?thesis
    using evaluate_halted [of halt s2] assms(5) by auto
qed

theorem risk_halt_blocks_witness:
  "\<exists>s1 s2 s3 decision. PmRiskState_evaluate sample_risk (sample_risk_input 8) = Some (s1, Rejected ScopeMismatch Global)
     \<and> risk_calls s1 [Recover] = Some s2 \<and> PmRiskState_evaluate s2 (sample_risk_input 7) = Some (s3, decision)
     \<and> \<not> approves decision"
proof -
  obtain s1 where s1: "PmRiskState_evaluate sample_risk (sample_risk_input 8) = Some (s1, Rejected ScopeMismatch Global)"
    by (simp add: PmRiskState_evaluate_def PmRiskState_check_def sample_risk_def PmRiskState_new_def sample_risk_input_def
        risk_bump_def Let_def)
  obtain s2 where s2: "risk_calls s1 [Recover] = Some s2"
    by (simp add: risk_call_def)
  have "PmRiskState_check (risk_bump (risk_evaluations_update (\<lambda>n. saturating_add n 1)) s2) (sample_risk_input 7) \<noteq> None"
    using check_exact [of "sample_risk_input 7"] by (fastforce simp: sample_risk_input_def quantity_ok_def signed_ok_def)
  then obtain s3 decision where s3: "PmRiskState_evaluate s2 (sample_risk_input 7) = Some (s3, decision)"
    by (fastforce simp: PmRiskState_evaluate_def Let_def split: PmRiskDecision.splits)
  have "\<not> approves decision"
    using risk_halt_blocks [OF s1 _ s2 _ s3] by (simp add: cancel_owned_required_def)
  then show ?thesis
    using s1 s2 s3 by blast
qed

end
