(* ===== verification/Pm_Reconciliation.thy ===== *)
theory Pm_Reconciliation
  imports Pm_Envelope
begin

text \<open>
  The complete reconciliation results of \<open>crates/reap-pm-core/src/reconciliation.rs\<close>: open
  orders, exact order detail, fill queries and account snapshots, each with its request
  boundary and its constructor's checks; and the private-state configuration and occurrences
  of \<open>crates/reap-pm-state/src/private_config.rs\<close> and \<open>private_occurrence.rs\<close> they are
  checked against.
\<close>

section \<open>Scopes and boundaries\<close>

definition MAX_PM_RECONCILIATION_ORDERS :: nat where
  "MAX_PM_RECONCILIATION_ORDERS = 1024"

definition MAX_PM_RECONCILIATION_FILLS :: nat where
  "MAX_PM_RECONCILIATION_FILLS = 8192"

definition MAX_PM_ACCOUNT_EXPECTED_ASSETS :: nat where
  "MAX_PM_ACCOUNT_EXPECTED_ASSETS = MAX_REQUIRED_SPENDERS"

definition MAX_PM_ACCOUNT_EXPECTED_SPENDERS :: nat where
  "MAX_PM_ACCOUNT_EXPECTED_SPENDERS = MAX_REQUIRED_SPENDERS"

definition MAX_PM_ACCOUNT_EXPECTED_INSTRUMENTS :: nat where
  "MAX_PM_ACCOUNT_EXPECTED_INSTRUMENTS = MAX_REQUIRED_SPENDERS"

definition MAX_PM_ACCOUNT_DIAGNOSTIC_EXTRA_ROWS :: nat where
  "MAX_PM_ACCOUNT_DIAGNOSTIC_EXTRA_ROWS = MAX_REQUIRED_SPENDERS"

datatype PmAggregateError =
    ZeroRequestSequence
  | ZeroCompletionSequence
  | CompletionDoesNotFollowRequest
  | WrongSource
  | SourceAccountMismatch
  | TooManyOrders
  | TooManyFills
  | TooManyExpectedAssets
  | TooManyExpectedSpenders
  | TooManyExpectedInstruments
  | TooManyBalanceRows
  | TooManyAllowanceRows
  | TooManyPositionRows
  | RowAccountMismatch
  | RowSourceMismatch
  | RowRevisionMismatch
  | DuplicateOrderKey
  | MissingOpenOrderVenueKey
  | DuplicateFillKey
  | RequestedOrderAccountMismatch
  | MissingOrderDetailVenueKey
  | OrderDetailVenueMismatch
  | CursorAccountScopeMismatch
  | DuplicateExpectedAsset
  | DuplicateExpectedSpender
  | DuplicateExpectedInstrument
  | ExpectedSpenderAccountMismatch
  | ExpectedSpenderChainMismatch
  | ExpectedSpenderAssetNotExpected
  | DuplicateBalanceAsset
  | DuplicateAllowanceSpender
  | DuplicatePositionInstrument
  | AllowanceSpenderChainMismatch

record PmAccountScope =
  scope_environment :: PmEnvironmentId
  scope_chain :: PmChainId
  scope_signer :: EvmAddress
  scope_funder :: EvmAddress
  scope_handle :: PmAccountHandle

record PmReconciliationRequestBoundary =
  request_sequence :: IngressSequence
  completion_sequence :: IngressSequence

definition PmReconciliationRequestBoundary_new ::
    "IngressSequence \<Rightarrow> IngressSequence \<Rightarrow> (PmReconciliationRequestBoundary, PmAggregateError) result" where
  "PmReconciliationRequestBoundary_new request completion =
     (if request = 0 then Err ZeroRequestSequence
      else if completion = 0 then Err ZeroCompletionSequence
      else if completion \<le> request then Err CompletionDoesNotFollowRequest
      else Ok \<lparr>request_sequence = request, completion_sequence = completion\<rparr>)"

section \<open>Row checks\<close>

fun validate_aggregate_source :: "PmProductSource \<Rightarrow> PmAccountScope \<Rightarrow> (unit, PmAggregateError) result" where
  "validate_aggregate_source (PolymarketAccount source account) account_scope =
     (if account = scope_handle account_scope then Ok () else Err PmAggregateError.SourceAccountMismatch)"
| "validate_aggregate_source _ account_scope = Err PmAggregateError.WrongSource"

definition validate_row ::
    "PmProductSource \<Rightarrow> PmAccountScope \<Rightarrow> PmProductSource \<Rightarrow> PmAccountHandle \<Rightarrow> (unit, PmAggregateError) result" where
  "validate_row expected_source account_scope actual_source actual_account =
     (if actual_account \<noteq> scope_handle account_scope then Err RowAccountMismatch
      else if actual_source \<noteq> expected_source then Err RowSourceMismatch
      else Ok ())"

definition validate_row_revision :: "PmSnapshotEvidence \<Rightarrow> PmSnapshotEvidence \<Rightarrow> (unit, PmAggregateError) result" where
  "validate_row_revision expected actual = (if actual = expected then Ok () else Err RowRevisionMismatch)"

text \<open>\<open>sort_unstable\<close> and the scan for equal neighbours.\<close>

definition sorted_has_duplicate :: "'a::linorder list \<Rightarrow> bool" where
  "sorted_has_duplicate keys = adjacent_any (\<lambda>a b. a = b) (sort_unstable_by compare_of keys)"

definition has_overlapping_order_keys :: "PmOrderEvent list \<Rightarrow> bool" where
  "has_overlapping_order_keys orders \<longleftrightarrow>
     sorted_has_duplicate (List.map_filter (\<lambda>order. client_order_key (order_identity order)) orders)
     \<or> sorted_has_duplicate (List.map_filter (\<lambda>order. venue_order_key (order_identity order)) orders)"

text \<open>The derived order of \<open>PmFillKey\<close> compares the venue order and then the fill id.\<close>

definition fill_key_rank :: "PmFillKey \<Rightarrow> PmVenueOrderKey \<times> PmFillId" where
  "fill_key_rank key = (fill_venue_order key, fill_id key)"

definition has_duplicate_fill_keys :: "PmFillEvent list \<Rightarrow> bool" where
  "has_duplicate_fill_keys fills = sorted_has_duplicate (map (\<lambda>fill. fill_key_rank (fill_key fill)) fills)"

text \<open>Whether an element equals an earlier one: \<open>values[..index].contains(value)\<close> for some index.\<close>

fun repeats_in :: "'a list \<Rightarrow> 'a list \<Rightarrow> bool" where
  "repeats_in prior [] = False"
| "repeats_in prior (value # values) = (value \<in> set prior \<or> repeats_in (prior @ [value]) values)"

definition has_duplicate :: "'a list \<Rightarrow> bool" where
  "has_duplicate values = repeats_in [] values"

section \<open>Open orders and order detail\<close>

record PmCompleteOpenOrdersSnapshot =
  open_source :: PmProductSource
  open_account_scope :: PmAccountScope
  open_snapshot :: PmSnapshotEvidence
  open_boundary :: PmReconciliationRequestBoundary
  open_orders :: "PmOrderEvent list"

definition PmOrderEvent_account :: "PmOrderEvent \<Rightarrow> PmAccountHandle" where
  "PmOrderEvent_account order = PmOrderIdentity_account (order_identity order)"

primrec check_open_orders ::
    "PmProductSource \<Rightarrow> PmAccountScope \<Rightarrow> PmOrderEvent list \<Rightarrow> (unit, PmAggregateError) result" where
  "check_open_orders source account_scope [] = Ok ()"
| "check_open_orders source account_scope (order # orders) =
     bind_result (validate_row source account_scope (order_source order) (PmOrderEvent_account order)) (\<lambda>_.
       if venue_order_key (order_identity order) = None then Err MissingOpenOrderVenueKey
       else check_open_orders source account_scope orders)"

definition PmCompleteOpenOrdersSnapshot_new ::
    "PmProductSource \<Rightarrow> PmAccountScope \<Rightarrow> PmSnapshotEvidence \<Rightarrow> PmReconciliationRequestBoundary
      \<Rightarrow> PmOrderEvent list \<Rightarrow> (PmCompleteOpenOrdersSnapshot, PmAggregateError) result" where
  "PmCompleteOpenOrdersSnapshot_new source account_scope snapshot boundary orders =
     bind_result (validate_aggregate_source source account_scope) (\<lambda>_.
       if MAX_PM_RECONCILIATION_ORDERS < length orders then Err TooManyOrders
       else bind_result (check_open_orders source account_scope orders) (\<lambda>_.
         if has_overlapping_order_keys orders then Err DuplicateOrderKey
         else Ok \<lparr>open_source = source, open_account_scope = account_scope, open_snapshot = snapshot,
                  open_boundary = boundary, open_orders = orders\<rparr>))"

record PmExactOrderDetail =
  detail_source :: PmProductSource
  detail_account_scope :: PmAccountScope
  detail_snapshot :: PmSnapshotEvidence
  detail_boundary :: PmReconciliationRequestBoundary
  detail_requested_order :: PmVenueOrderKey
  detail_order :: "PmOrderEvent option"

definition PmExactOrderDetail_new ::
    "PmProductSource \<Rightarrow> PmAccountScope \<Rightarrow> PmSnapshotEvidence \<Rightarrow> PmReconciliationRequestBoundary
      \<Rightarrow> PmVenueOrderKey \<Rightarrow> PmOrderEvent option \<Rightarrow> (PmExactOrderDetail, PmAggregateError) result" where
  "PmExactOrderDetail_new source account_scope snapshot boundary requested_order order =
     bind_result (validate_aggregate_source source account_scope) (\<lambda>_.
       if venue_account requested_order \<noteq> scope_handle account_scope then Err RequestedOrderAccountMismatch
       else bind_result
         (case order of
            None \<Rightarrow> Ok ()
          | Some row \<Rightarrow>
              bind_result (validate_row source account_scope (order_source row) (PmOrderEvent_account row)) (\<lambda>_.
                case venue_order_key (order_identity row) of
                  None \<Rightarrow> Err MissingOrderDetailVenueKey
                | Some observed \<Rightarrow>
                    if observed \<noteq> requested_order then Err OrderDetailVenueMismatch else Ok ()))
         (\<lambda>_. Ok \<lparr>detail_source = source, detail_account_scope = account_scope, detail_snapshot = snapshot,
                  detail_boundary = boundary, detail_requested_order = requested_order, detail_order = order\<rparr>))"

section \<open>Fill queries\<close>

record PmFillQueryCursor =
  cursor_account_scope :: PmAccountScope
  cursor_opaque :: "u8 list"

record PmCompleteFillQuery =
  fq_source :: PmProductSource
  fq_account_scope :: PmAccountScope
  fq_snapshot :: PmSnapshotEvidence
  fq_boundary :: PmReconciliationRequestBoundary
  fq_requested_after :: "PmFillQueryCursor option"
  fq_resulting_watermark :: PmFillQueryCursor
  fq_fills :: "PmFillEvent list"

primrec check_fill_rows ::
    "PmProductSource \<Rightarrow> PmAccountScope \<Rightarrow> PmFillEvent list \<Rightarrow> (unit, PmAggregateError) result" where
  "check_fill_rows source account_scope [] = Ok ()"
| "check_fill_rows source account_scope (fill # fills) =
     bind_result (validate_row source account_scope (fill_source fill) (PmFillKey_account (fill_key fill))) (\<lambda>_.
       check_fill_rows source account_scope fills)"

definition PmCompleteFillQuery_new ::
    "PmProductSource \<Rightarrow> PmAccountScope \<Rightarrow> PmSnapshotEvidence \<Rightarrow> PmReconciliationRequestBoundary
      \<Rightarrow> PmFillQueryCursor option \<Rightarrow> PmFillQueryCursor \<Rightarrow> PmFillEvent list
      \<Rightarrow> (PmCompleteFillQuery, PmAggregateError) result" where
  "PmCompleteFillQuery_new source account_scope snapshot boundary requested_after resulting_watermark fills =
     bind_result (validate_aggregate_source source account_scope) (\<lambda>_.
       if MAX_PM_RECONCILIATION_FILLS < length fills then Err TooManyFills
       else if is_some_and (\<lambda>cursor. cursor_account_scope cursor \<noteq> account_scope) requested_after
               \<or> cursor_account_scope resulting_watermark \<noteq> account_scope
         then Err CursorAccountScopeMismatch
       else bind_result (check_fill_rows source account_scope fills) (\<lambda>_.
         if has_duplicate_fill_keys fills then Err DuplicateFillKey
         else Ok \<lparr>fq_source = source, fq_account_scope = account_scope, fq_snapshot = snapshot,
                  fq_boundary = boundary, fq_requested_after = requested_after,
                  fq_resulting_watermark = resulting_watermark, fq_fills = fills\<rparr>))"

section \<open>Account snapshots\<close>

record PmCompleteAccountSnapshot =
  acct_source :: PmProductSource
  acct_account_scope :: PmAccountScope
  acct_snapshot :: PmSnapshotEvidence
  acct_boundary :: PmReconciliationRequestBoundary
  acct_expected_assets :: "PmAssetId list"
  acct_expected_spenders :: "PmSpenderId list"
  acct_expected_instruments :: "PmInstrumentHandle list"
  acct_balances :: "PmBalanceEvent list"
  acct_allowances :: "PmAllowanceEvent list"
  acct_positions :: "PmPositionEvent list"

primrec check_expected_spenders ::
    "PmAccountScope \<Rightarrow> PmAssetId list \<Rightarrow> PmSpenderId list \<Rightarrow> (unit, PmAggregateError) result" where
  "check_expected_spenders account_scope assets [] = Ok ()"
| "check_expected_spenders account_scope assets (spender # spenders) =
     (if spender_account spender \<noteq> scope_handle account_scope then Err ExpectedSpenderAccountMismatch
      else if req_chain (spender_requirement spender) \<noteq> scope_chain account_scope then Err ExpectedSpenderChainMismatch
      else if req_asset (spender_requirement spender) \<notin> set assets then Err ExpectedSpenderAssetNotExpected
      else check_expected_spenders account_scope assets spenders)"

definition validate_expected_scopes ::
    "PmAccountScope \<Rightarrow> PmAssetId list \<Rightarrow> PmSpenderId list \<Rightarrow> PmInstrumentHandle list
      \<Rightarrow> (unit, PmAggregateError) result" where
  "validate_expected_scopes account_scope assets spenders instruments =
     (if MAX_PM_ACCOUNT_EXPECTED_ASSETS < length assets then Err TooManyExpectedAssets
      else if MAX_PM_ACCOUNT_EXPECTED_SPENDERS < length spenders then Err TooManyExpectedSpenders
      else if MAX_PM_ACCOUNT_EXPECTED_INSTRUMENTS < length instruments then Err TooManyExpectedInstruments
      else if has_duplicate assets then Err DuplicateExpectedAsset
      else if has_duplicate spenders then Err DuplicateExpectedSpender
      else if has_duplicate instruments then Err DuplicateExpectedInstrument
      else check_expected_spenders account_scope assets spenders)"

definition too_many_rows :: "'k list \<Rightarrow> ('r \<Rightarrow> 'k) \<Rightarrow> 'r list \<Rightarrow> bool" where
  "too_many_rows expected key rows \<longleftrightarrow>
     length expected + MAX_PM_ACCOUNT_DIAGNOSTIC_EXTRA_ROWS < length rows
     \<or> MAX_PM_ACCOUNT_DIAGNOSTIC_EXTRA_ROWS < length (filter (\<lambda>row. key row \<notin> set expected) rows)"

text \<open>
  The three row loops have the same shape: each row is checked and then compared with the rows
  before it.
\<close>

primrec check_rows ::
    "('r \<Rightarrow> (unit, PmAggregateError) result) \<Rightarrow> ('r \<Rightarrow> 'k) \<Rightarrow> PmAggregateError \<Rightarrow> 'k list \<Rightarrow> 'r list
      \<Rightarrow> (unit, PmAggregateError) result" where
  "check_rows check key duplicate prior [] = Ok ()"
| "check_rows check key duplicate prior (row # rows) =
     bind_result (check row) (\<lambda>_.
       if key row \<in> set prior then Err duplicate
       else check_rows check key duplicate (prior @ [key row]) rows)"

definition validate_balance_rows ::
    "PmProductSource \<Rightarrow> PmAccountScope \<Rightarrow> PmSnapshotEvidence \<Rightarrow> PmAssetId list \<Rightarrow> PmBalanceEvent list
      \<Rightarrow> (unit, PmAggregateError) result" where
  "validate_balance_rows source account_scope snapshot expected_assets balances =
     (if too_many_rows expected_assets balance_asset balances then Err TooManyBalanceRows
      else check_rows
        (\<lambda>row. bind_result (validate_row source account_scope (balance_source row) (balance_account row)) (\<lambda>_.
           validate_row_revision snapshot (balance_snapshot row)))
        balance_asset DuplicateBalanceAsset [] balances)"

definition validate_allowance_rows ::
    "PmProductSource \<Rightarrow> PmAccountScope \<Rightarrow> PmSnapshotEvidence \<Rightarrow> PmSpenderId list \<Rightarrow> PmAllowanceEvent list
      \<Rightarrow> (unit, PmAggregateError) result" where
  "validate_allowance_rows source account_scope snapshot expected_spenders allowances =
     (if too_many_rows expected_spenders allowance_spender allowances then Err TooManyAllowanceRows
      else check_rows
        (\<lambda>row. bind_result (validate_row source account_scope (allowance_source row)
             (spender_account (allowance_spender row))) (\<lambda>_.
           bind_result (validate_row_revision snapshot (allowance_snapshot row)) (\<lambda>_.
             if req_chain (spender_requirement (allowance_spender row)) \<noteq> scope_chain account_scope
             then Err AllowanceSpenderChainMismatch else Ok ())))
        allowance_spender DuplicateAllowanceSpender [] allowances)"

definition validate_position_rows ::
    "PmProductSource \<Rightarrow> PmAccountScope \<Rightarrow> PmSnapshotEvidence \<Rightarrow> PmInstrumentHandle list \<Rightarrow> PmPositionEvent list
      \<Rightarrow> (unit, PmAggregateError) result" where
  "validate_position_rows source account_scope snapshot expected_instruments positions =
     (if too_many_rows expected_instruments position_instrument positions then Err TooManyPositionRows
      else check_rows
        (\<lambda>row. bind_result (validate_row source account_scope (position_source row) (position_account row)) (\<lambda>_.
           validate_row_revision snapshot (position_snapshot row)))
        position_instrument DuplicatePositionInstrument [] positions)"

definition PmCompleteAccountSnapshot_new ::
    "PmCompleteAccountSnapshot \<Rightarrow> (PmCompleteAccountSnapshot, PmAggregateError) result" where
  "PmCompleteAccountSnapshot_new raw =
     (let source = acct_source raw; account_scope = acct_account_scope raw; snapshot = acct_snapshot raw
      in bind_result (validate_aggregate_source source account_scope) (\<lambda>_.
         bind_result (validate_expected_scopes account_scope (acct_expected_assets raw)
           (acct_expected_spenders raw) (acct_expected_instruments raw)) (\<lambda>_.
         bind_result (validate_balance_rows source account_scope snapshot (acct_expected_assets raw)
           (acct_balances raw)) (\<lambda>_.
         bind_result (validate_allowance_rows source account_scope snapshot (acct_expected_spenders raw)
           (acct_allowances raw)) (\<lambda>_.
         bind_result (validate_position_rows source account_scope snapshot (acct_expected_instruments raw)
           (acct_positions raw)) (\<lambda>_. Ok raw))))))"

text \<open>\<open>None\<close>: not configured; \<open>Some None\<close>: configured and explicitly absent.\<close>

definition expected_balance :: "PmCompleteAccountSnapshot \<Rightarrow> PmAssetId \<Rightarrow> PmBalanceEvent option option" where
  "expected_balance snapshot asset =
     (if asset \<in> set (acct_expected_assets snapshot)
      then Some (find (\<lambda>row. balance_asset row = asset) (acct_balances snapshot)) else None)"

definition expected_allowance :: "PmCompleteAccountSnapshot \<Rightarrow> PmSpenderId \<Rightarrow> PmAllowanceEvent option option" where
  "expected_allowance snapshot spender =
     (if spender \<in> set (acct_expected_spenders snapshot)
      then Some (find (\<lambda>row. allowance_spender row = spender) (acct_allowances snapshot)) else None)"

definition expected_position :: "PmCompleteAccountSnapshot \<Rightarrow> PmInstrumentHandle \<Rightarrow> PmPositionEvent option option" where
  "expected_position snapshot instrument =
     (if instrument \<in> set (acct_expected_instruments snapshot)
      then Some (find (\<lambda>row. position_instrument row = instrument) (acct_positions snapshot)) else None)"

section \<open>Private-state configuration\<close>

datatype PmPrivateOccurrence = PmPrivateOccurrence (occ_epoch: ConnectionEpoch) (occ_ingress: IngressSequence)

instantiation PmPrivateOccurrence :: linorder
begin

definition less_eq_PmPrivateOccurrence :: "PmPrivateOccurrence \<Rightarrow> PmPrivateOccurrence \<Rightarrow> bool" where
  "less_eq_PmPrivateOccurrence a b \<longleftrightarrow> (occ_epoch a, occ_ingress a) \<le> (occ_epoch b, occ_ingress b)"

definition less_PmPrivateOccurrence :: "PmPrivateOccurrence \<Rightarrow> PmPrivateOccurrence \<Rightarrow> bool" where
  "less_PmPrivateOccurrence a b \<longleftrightarrow> (occ_epoch a, occ_ingress a) < (occ_epoch b, occ_ingress b)"

instance
  by standard
    (auto simp: less_eq_PmPrivateOccurrence_def less_PmPrivateOccurrence_def intro: PmPrivateOccurrence.expand)

end

datatype PmPrivateConfigError = SourceMismatch | TradingDomainChainMismatch | TradingDomain PmMetadataError

record PmPrivateStateConfig =
  cfg_source :: PmProductSource
  cfg_account_scope :: PmAccountScope
  cfg_instrument :: PmInstrumentHandle
  cfg_metadata :: PmMarketMetadata
  cfg_trading_domain :: PmGoalFTradingDomain
  cfg_required_spenders :: "PmSpenderId list"

definition cfg_account :: "PmPrivateStateConfig \<Rightarrow> PmAccountHandle" where
  "cfg_account config = scope_handle (cfg_account_scope config)"

fun validate_config_source :: "PmProductSource \<Rightarrow> PmAccountScope \<Rightarrow> (unit, PmPrivateConfigError) result" where
  "validate_config_source (PolymarketAccount source account) account_scope =
     (if account = scope_handle account_scope then Ok () else Err SourceMismatch)"
| "validate_config_source _ account_scope = Err SourceMismatch"

text \<open>\<open>None\<close> is the panic of the frozen addresses in \<open>PmGoalFTradingDomain::from_metadata\<close>.\<close>

definition PmPrivateStateConfig_new ::
    "PmProductSource \<Rightarrow> PmAccountScope \<Rightarrow> PmInstrumentHandle \<Rightarrow> PmMarketMetadata
      \<Rightarrow> (PmPrivateStateConfig, PmPrivateConfigError) result option" where
  "PmPrivateStateConfig_new source account_scope instrument metadata =
     (case validate_config_source source account_scope of
        Err e \<Rightarrow> Some (Err e)
      | Ok _ \<Rightarrow>
          (case PmGoalFTradingDomain_from_metadata metadata of
             None \<Rightarrow> None
           | Some (Err e) \<Rightarrow> Some (Err (TradingDomain e))
           | Some (Ok trading_domain) \<Rightarrow>
               Some (if gf_chain trading_domain \<noteq> scope_chain account_scope then Err TradingDomainChainMismatch
                 else Ok \<lparr>cfg_source = source, cfg_account_scope = account_scope, cfg_instrument = instrument,
                          cfg_metadata = metadata, cfg_trading_domain = trading_domain,
                          cfg_required_spenders =
                            sort_unstable_by (\<lambda>a b. compare_of (spender_account a, spender_requirement a)
                                (spender_account b, spender_requirement b))
                              (map (\<lambda>r. \<lparr>spender_account = scope_handle account_scope, spender_requirement = r\<rparr>)
                                (gf_required_spenders trading_domain))\<rparr>)))"

definition expected_assets_match :: "PmPrivateStateConfig \<Rightarrow> PmAssetId list \<Rightarrow> bool" where
  "expected_assets_match config actual \<longleftrightarrow>
     length actual = 2 \<and> gf_collateral (cfg_trading_domain config) \<in> set actual
     \<and> gf_outcome (cfg_trading_domain config) \<in> set actual"

definition expected_spenders_match :: "PmPrivateStateConfig \<Rightarrow> PmSpenderId list \<Rightarrow> bool" where
  "expected_spenders_match config actual \<longleftrightarrow>
     length actual = length (cfg_required_spenders config)
     \<and> list_all (\<lambda>spender. spender \<in> set actual) (cfg_required_spenders config)"

definition expected_instruments_match :: "PmPrivateStateConfig \<Rightarrow> PmInstrumentHandle list \<Rightarrow> bool" where
  "expected_instruments_match config actual \<longleftrightarrow> actual = [cfg_instrument config]"

section \<open>Duplicate checks\<close>

text \<open>A weakly sorted vector with two equal elements has them side by side.\<close>

interpretation sorted_keys: keyed_order "compare_of :: 'a::linorder \<Rightarrow> 'a \<Rightarrow> ordering" "\<lambda>k. k"
  by unfold_locales

lemma adjacent_equal_repeats: "adjacent_any (\<lambda>a b. a = b) xs \<Longrightarrow> \<not> distinct xs"
  by (induction xs rule: induct_list012) auto

lemma distinct_insort_by: "distinct (insort_by cmp x xs) \<longleftrightarrow> x \<notin> set xs \<and> distinct xs"
  by (induction xs) auto

lemma distinct_sort_unstable_by [simp]: "distinct (sort_unstable_by cmp xs) \<longleftrightarrow> distinct xs"
proof -
  have "set (foldr (insort_by cmp) xs []) = set xs \<and> (distinct (foldr (insort_by cmp) xs []) \<longleftrightarrow> distinct xs)"
    by (induction xs) (simp_all add: distinct_insort_by)
  then show ?thesis by (simp add: sort_unstable_by_def)
qed

lemma sorted_has_duplicate_iff [simp]: "sorted_has_duplicate keys \<longleftrightarrow> \<not> distinct keys"
proof -
  let ?s = "sort_unstable_by compare_of keys"
  have "\<not> adjacent_any (\<lambda>a b. a = b) ?s \<Longrightarrow> distinct ?s"
    using sorted_keys.sorted_by_key_distinct [OF sorted_keys.sort_no_duplicate_sorted, of keys] by simp
  then have "adjacent_any (\<lambda>a b. a = b) ?s \<longleftrightarrow> \<not> distinct ?s"
    using adjacent_equal_repeats by blast
  then show ?thesis by (simp add: sorted_has_duplicate_def)
qed

lemma repeats_in_iff: "repeats_in prior values \<longleftrightarrow> set prior \<inter> set values \<noteq> {} \<or> \<not> distinct values"
  by (induction prior "values" rule: repeats_in.induct) auto

lemma has_duplicate_iff [simp]: "has_duplicate values \<longleftrightarrow> \<not> distinct values"
  by (simp add: has_duplicate_def repeats_in_iff)

lemma has_duplicate_fill_keys_iff: "has_duplicate_fill_keys fills \<longleftrightarrow> \<not> distinct (map fill_key fills)"
proof -
  have "inj fill_key_rank" by (auto simp: inj_def fill_key_rank_def intro: PmFillKey.equality)
  then have "distinct (map fill_key_rank (map fill_key fills)) \<longleftrightarrow> distinct (map fill_key fills)"
    by (simp add: distinct_map inj_on_def inj_def del: map_map)
  then show ?thesis by (simp add: has_duplicate_fill_keys_def comp_def)
qed

section \<open>What the constructors accept\<close>

lemma validate_aggregate_source_Ok:
  "validate_aggregate_source source scope = Ok u \<longleftrightarrow> (\<exists>handle. source = PolymarketAccount handle (scope_handle scope))"
  by (cases source) auto

lemma validate_row_Ok:
  "validate_row source scope actual account = Ok u \<longleftrightarrow> account = scope_handle scope \<and> actual = source"
  by (auto simp: validate_row_def)

lemma validate_row_revision_Ok: "validate_row_revision expected actual = Ok u \<longleftrightarrow> actual = expected"
  by (simp add: validate_row_revision_def)

lemmas row_checks = validate_aggregate_source_Ok validate_row_Ok validate_row_revision_Ok

lemma check_open_orders_Ok:
  "check_open_orders source scope orders = Ok u \<longleftrightarrow>
     (\<forall>order\<in>set orders. PmOrderEvent_account order = scope_handle scope \<and> order_source order = source
        \<and> venue_order_key (order_identity order) \<noteq> None)"
  by (induction orders) (auto simp: row_checks)

lemma check_fill_rows_Ok:
  "check_fill_rows source scope fills = Ok u \<longleftrightarrow>
     (\<forall>fill\<in>set fills. PmFillKey_account (fill_key fill) = scope_handle scope \<and> fill_source fill = source)"
  by (induction fills) (auto simp: row_checks)

lemma check_expected_spenders_Ok:
  "check_expected_spenders scope assets spenders = Ok u \<longleftrightarrow>
     (\<forall>spender\<in>set spenders. spender_account spender = scope_handle scope
        \<and> req_chain (spender_requirement spender) = scope_chain scope
        \<and> req_asset (spender_requirement spender) \<in> set assets)"
  by (induction spenders) auto

lemma check_rows_Ok:
  "check_rows check key duplicate prior rows = Ok u \<longleftrightarrow>
     (\<forall>row\<in>set rows. check row = Ok ()) \<and> distinct (map key rows) \<and> set prior \<inter> key ` set rows = {}"
  by (induction rows arbitrary: prior) auto

definition rows_fit :: "'k list \<Rightarrow> ('r \<Rightarrow> 'k) \<Rightarrow> 'r list \<Rightarrow> bool" where
  "rows_fit expected key rows \<longleftrightarrow>
     distinct (map key rows) \<and> length rows \<le> length expected + 8
     \<and> length (filter (\<lambda>row. key row \<notin> set expected) rows) \<le> 8"

lemma open_orders_snapshot_Ok:
  "PmCompleteOpenOrdersSnapshot_new source scope snapshot boundary orders = Ok s \<longleftrightarrow>
     s = \<lparr>open_source = source, open_account_scope = scope, open_snapshot = snapshot,
          open_boundary = boundary, open_orders = orders\<rparr>
     \<and> (\<exists>handle. source = PolymarketAccount handle (scope_handle scope))
     \<and> length orders \<le> 1024
     \<and> (\<forall>order\<in>set orders. PmOrderEvent_account order = scope_handle scope \<and> order_source order = source
          \<and> venue_order_key (order_identity order) \<noteq> None)
     \<and> distinct (List.map_filter (\<lambda>order. venue_order_key (order_identity order)) orders)
     \<and> distinct (List.map_filter (\<lambda>order. client_order_key (order_identity order)) orders)"
  by (auto simp: PmCompleteOpenOrdersSnapshot_new_def check_open_orders_Ok row_checks
      has_overlapping_order_keys_def MAX_PM_RECONCILIATION_ORDERS_def not_less)

lemma fill_query_Ok:
  "PmCompleteFillQuery_new source scope snapshot boundary after mark fills = Ok q \<longleftrightarrow>
     q = \<lparr>fq_source = source, fq_account_scope = scope, fq_snapshot = snapshot, fq_boundary = boundary,
          fq_requested_after = after, fq_resulting_watermark = mark, fq_fills = fills\<rparr>
     \<and> (\<exists>handle. source = PolymarketAccount handle (scope_handle scope))
     \<and> length fills \<le> 8192
     \<and> (\<forall>cursor. after = Some cursor \<longrightarrow> cursor_account_scope cursor = scope)
     \<and> cursor_account_scope mark = scope
     \<and> (\<forall>fill\<in>set fills. PmFillKey_account (fill_key fill) = scope_handle scope \<and> fill_source fill = source)
     \<and> distinct (map fill_key fills)"
  by (auto simp: PmCompleteFillQuery_new_def check_fill_rows_Ok row_checks has_duplicate_fill_keys_iff
      MAX_PM_RECONCILIATION_FILLS_def not_less is_some_and_iff)

lemma account_snapshot_Ok:
  "PmCompleteAccountSnapshot_new raw = Ok s \<longleftrightarrow>
     s = raw
     \<and> (\<exists>handle. acct_source raw = PolymarketAccount handle (scope_handle (acct_account_scope raw)))
     \<and> length (acct_expected_assets raw) \<le> 8 \<and> distinct (acct_expected_assets raw)
     \<and> length (acct_expected_spenders raw) \<le> 8 \<and> distinct (acct_expected_spenders raw)
     \<and> length (acct_expected_instruments raw) \<le> 8 \<and> distinct (acct_expected_instruments raw)
     \<and> (\<forall>spender\<in>set (acct_expected_spenders raw).
          spender_account spender = scope_handle (acct_account_scope raw)
          \<and> req_chain (spender_requirement spender) = scope_chain (acct_account_scope raw)
          \<and> req_asset (spender_requirement spender) \<in> set (acct_expected_assets raw))
     \<and> rows_fit (acct_expected_assets raw) balance_asset (acct_balances raw)
     \<and> (\<forall>row\<in>set (acct_balances raw). balance_account row = scope_handle (acct_account_scope raw)
          \<and> balance_source row = acct_source raw \<and> balance_snapshot row = acct_snapshot raw)
     \<and> rows_fit (acct_expected_spenders raw) allowance_spender (acct_allowances raw)
     \<and> (\<forall>row\<in>set (acct_allowances raw).
          spender_account (allowance_spender row) = scope_handle (acct_account_scope raw)
          \<and> allowance_source row = acct_source raw \<and> allowance_snapshot row = acct_snapshot raw
          \<and> req_chain (spender_requirement (allowance_spender row)) = scope_chain (acct_account_scope raw))
     \<and> rows_fit (acct_expected_instruments raw) position_instrument (acct_positions raw)
     \<and> (\<forall>row\<in>set (acct_positions raw). position_account row = scope_handle (acct_account_scope raw)
          \<and> position_source row = acct_source raw \<and> position_snapshot row = acct_snapshot raw)"
  unfolding PmCompleteAccountSnapshot_new_def Let_def validate_expected_scopes_def
    validate_balance_rows_def validate_allowance_rows_def validate_position_rows_def
  by (simp add: check_rows_Ok check_expected_spenders_Ok row_checks too_many_rows_def rows_fit_def not_less not_le
      MAX_PM_ACCOUNT_EXPECTED_ASSETS_def MAX_PM_ACCOUNT_EXPECTED_SPENDERS_def
      MAX_PM_ACCOUNT_EXPECTED_INSTRUMENTS_def MAX_PM_ACCOUNT_DIAGNOSTIC_EXTRA_ROWS_def MAX_REQUIRED_SPENDERS_def)
    (auto simp: conj_ac)

interpretation open_orders_bound: source_bound open_source
  "\<lambda>s. \<exists>source scope snapshot boundary orders.
     PmCompleteOpenOrdersSnapshot_new source scope snapshot boundary orders = Ok s" Polymarket
  by unfold_locales (auto simp: open_orders_snapshot_Ok)

lemma order_detail_Ok:
  "PmExactOrderDetail_new source scope snapshot boundary requested order = Ok d \<longleftrightarrow>
     d = \<lparr>detail_source = source, detail_account_scope = scope, detail_snapshot = snapshot,
          detail_boundary = boundary, detail_requested_order = requested, detail_order = order\<rparr>
     \<and> (\<exists>handle. source = PolymarketAccount handle (scope_handle scope))
     \<and> venue_account requested = scope_handle scope
     \<and> (\<forall>row. order = Some row \<longrightarrow> PmOrderEvent_account row = scope_handle scope
          \<and> order_source row = source \<and> venue_order_key (order_identity row) = Some requested)"
proof (cases order)
  case (Some row)
  then show ?thesis
    by (cases "venue_order_key (order_identity row)") (auto simp: PmExactOrderDetail_new_def row_checks)
qed (auto simp: PmExactOrderDetail_new_def row_checks)

interpretation order_detail_bound: source_bound detail_source
  "\<lambda>s. \<exists>source scope snapshot boundary requested order.
     PmExactOrderDetail_new source scope snapshot boundary requested order = Ok s" Polymarket
  by unfold_locales (auto simp: order_detail_Ok)

interpretation fill_query_bound: source_bound fq_source
  "\<lambda>q. \<exists>source scope snapshot boundary after mark fills.
     PmCompleteFillQuery_new source scope snapshot boundary after mark fills = Ok q" Polymarket
  by unfold_locales (auto simp: fill_query_Ok)

interpretation account_snapshot_bound: source_bound acct_source
  "\<lambda>s. \<exists>raw. PmCompleteAccountSnapshot_new raw = Ok s" Polymarket
  by unfold_locales (auto simp: account_snapshot_Ok)

section \<open>Lookups in complete snapshots\<close>

lemma find_unique_key:
  assumes "distinct (map key rows)"
  shows "find (\<lambda>row. key row = k) rows = Some row \<longleftrightarrow> row \<in> set rows \<and> key row = k"
  using assms by (induction rows) (auto simp: image_iff)

lemma expected_balance_iff:
  "PmCompleteAccountSnapshot_new raw = Ok s \<Longrightarrow> asset \<in> set (acct_expected_assets s) \<Longrightarrow>
     \<exists>found. expected_balance s asset = Some found
       \<and> (\<forall>row. found = Some row \<longleftrightarrow> row \<in> set (acct_balances s) \<and> balance_asset row = asset)"
  by (auto simp: expected_balance_def account_snapshot_Ok rows_fit_def find_unique_key)

lemma expected_allowance_iff:
  "PmCompleteAccountSnapshot_new raw = Ok s \<Longrightarrow> spender \<in> set (acct_expected_spenders s) \<Longrightarrow>
     \<exists>found. expected_allowance s spender = Some found
       \<and> (\<forall>row. found = Some row \<longleftrightarrow> row \<in> set (acct_allowances s) \<and> allowance_spender row = spender)"
  by (auto simp: expected_allowance_def account_snapshot_Ok rows_fit_def find_unique_key)

lemma expected_position_iff:
  "PmCompleteAccountSnapshot_new raw = Ok s \<Longrightarrow> instrument \<in> set (acct_expected_instruments s) \<Longrightarrow>
     \<exists>found. expected_position s instrument = Some found
       \<and> (\<forall>row. found = Some row \<longleftrightarrow> row \<in> set (acct_positions s) \<and> position_instrument row = instrument)"
  by (auto simp: expected_position_def account_snapshot_Ok rows_fit_def find_unique_key)

section \<open>The configured scope\<close>

lemma private_config_total:
  "\<exists>r. PmPrivateStateConfig_new source scope instrument md = Some r"
proof -
  obtain r where "PmGoalFTradingDomain_from_metadata md = Some r" using from_metadata_total by blast
  then show ?thesis by (cases r) (simp_all add: PmPrivateStateConfig_new_def split: result.splits)
qed

lemma private_config_Ok:
  assumes "PmPrivateStateConfig_new source scope instrument md = Some (Ok config)"
  obtains domain where "PmGoalFTradingDomain_from_metadata md = Some (Ok domain)"
    "\<exists>handle. source = PolymarketAccount handle (scope_handle scope)"
    "cfg_source config = source" "cfg_account_scope config = scope" "cfg_instrument config = instrument"
    "cfg_metadata config = md" "cfg_trading_domain config = domain" "gf_chain domain = scope_chain scope"
    "set (cfg_required_spenders config)
       = (\<lambda>r. \<lparr>spender_account = scope_handle scope, spender_requirement = r\<rparr>) ` set (gf_required_spenders domain)"
    "distinct (cfg_required_spenders config)" "length (cfg_required_spenders config) = 2"
proof -
  obtain handle domain where src: "source = PolymarketAccount handle (scope_handle scope)"
    and dom: "PmGoalFTradingDomain_from_metadata md = Some (Ok domain)"
    using assms by (cases source)
      (auto simp: PmPrivateStateConfig_new_def split: result.splits option.splits if_splits)
  note d = from_metadata_Ok [OF dom]
  show thesis
    using assms src dom d(7)
    by (intro that [of domain])
      (auto simp: PmPrivateStateConfig_new_def distinct_map inj_on_def d(6) split: if_splits)
qed

lemma expected_assets_match_iff:
  assumes "gf_collateral (cfg_trading_domain config) \<noteq> gf_outcome (cfg_trading_domain config)"
  shows "expected_assets_match config actual \<longleftrightarrow>
    distinct actual \<and> set actual = {gf_collateral (cfg_trading_domain config), gf_outcome (cfg_trading_domain config)}"
proof -
  have "length actual = 2 \<longleftrightarrow> (\<exists>a b. actual = [a, b])" by (auto simp: numeral_2_eq_2 length_Suc_conv)
  moreover have "distinct actual \<and> set actual = {a, b} \<Longrightarrow> a \<noteq> b \<Longrightarrow> length actual = 2" for a b
    by (metis distinct_card card_2_iff)
  ultimately show ?thesis using assms unfolding expected_assets_match_def by auto
qed

lemma same_length_subset:
  assumes "distinct xs" "length ys = length xs" "set xs \<subseteq> set ys"
  shows "distinct ys \<and> set ys = set xs"
proof -
  have "card (set ys) \<le> card (set xs)" using assms(1,2) card_length [of ys] by (simp add: distinct_card)
  then have "set xs = set ys" using assms(3) by (intro card_seteq) auto
  with assms(1,2) show ?thesis by (metis card_distinct distinct_card)
qed

lemma expected_spenders_match_iff:
  assumes "distinct (cfg_required_spenders config)"
  shows "expected_spenders_match config actual \<longleftrightarrow>
    distinct actual \<and> set actual = set (cfg_required_spenders config)"
  using same_length_subset [OF assms, of actual] assms
  by (auto simp: expected_spenders_match_def list_all_iff subset_iff) (metis distinct_card)

lemma configured_snapshot_scope:
  assumes "PmPrivateStateConfig_new source scope instrument md = Some (Ok config)"
    and "PmCompleteAccountSnapshot_new raw = Ok s"
    and "expected_assets_match config (acct_expected_assets s)"
    and "expected_spenders_match config (acct_expected_spenders s)"
    and "expected_instruments_match config (acct_expected_instruments s)"
  shows "set (acct_expected_assets s)
      = {gf_collateral (cfg_trading_domain config), gf_outcome (cfg_trading_domain config)}"
    "set (acct_expected_spenders s) = set (cfg_required_spenders config)"
    "acct_expected_instruments s = [instrument]"
proof -
  obtain domain where d: "PmGoalFTradingDomain_from_metadata md = Some (Ok domain)"
    and c: "cfg_trading_domain config = domain" "cfg_instrument config = instrument"
      "distinct (cfg_required_spenders config)"
    by (rule private_config_Ok [OF assms(1)]) blast
  show "set (acct_expected_assets s)
      = {gf_collateral (cfg_trading_domain config), gf_outcome (cfg_trading_domain config)}"
    using expected_assets_match_iff [of config "acct_expected_assets s"] assms(3) from_metadata_Ok(7) [OF d] c(1)
    by simp
  show "set (acct_expected_spenders s) = set (cfg_required_spenders config)"
    using expected_spenders_match_iff [OF c(3)] assms(4) by blast
  show "acct_expected_instruments s = [instrument]"
    using assms(5) c(2) by (simp add: expected_instruments_match_def)
qed

definition sample_scope :: PmAccountScope where
  "sample_scope = \<lparr>scope_environment = BoundedAscii 1 (101 # replicate 31 0), scope_chain = PmChainId 137,
     scope_signer = 1 # replicate 19 0, scope_funder = 2 # replicate 19 0, scope_handle = 3\<rparr>"

definition sample_instrument :: PmInstrumentHandle where
  "sample_instrument = PmInstrumentHandle 1 2"

definition sample_config :: PmPrivateStateConfig where
  "sample_config =
     (let exchange = md_exchange sample_metadata;
          collateral = Collateral [192, 17, 167, 225, 42, 25, 247, 177, 246, 112, 212, 111, 3, 176, 63, 51, 66, 232, 45, 251];
          outcome = Outcome [77, 151, 220, 217, 126, 201, 69, 244, 12, 246, 95, 135, 9, 122, 206, 94, 160, 71, 96, 69]
            (PmTokenId (U256 7 0 0 0));
          required = [PmSpenderRequirement (PmChainId 137) exchange Standard collateral,
                      PmSpenderRequirement (PmChainId 137) exchange Standard outcome]
      in \<lparr>cfg_source = PolymarketAccount 9 3, cfg_account_scope = sample_scope, cfg_instrument = sample_instrument,
          cfg_metadata = sample_metadata,
          cfg_trading_domain = \<lparr>gf_instrument = \<lparr>instrument_market = 2 # replicate 31 0, instrument_token = PmTokenId (U256 7 0 0 0)\<rparr>,
            gf_chain = PmChainId 137, gf_collateral = collateral, gf_outcome = outcome, gf_exchange = exchange,
            gf_spender_domain = Standard, gf_required_spenders = required\<rparr>,
          cfg_required_spenders = map (\<lambda>r. \<lparr>spender_account = 3, spender_requirement = r\<rparr>) required\<rparr>)"

lemma sample_config_new:
  "PmPrivateStateConfig_new (PolymarketAccount 9 3) sample_scope sample_instrument sample_metadata = Some (Ok sample_config)"
  by (simp add: PmPrivateStateConfig_new_def sample_scope_def sample_instrument_def sample_config_def sample_metadata_def
      PmGoalFTradingDomain_from_metadata_def goal_f_addresses Let_def GOAL_F_POLYGON_CHAIN_ID_def
      required_spenders_def spender_domain_of_def map_filter_def sort_unstable_by_def compare_of_def
      less_PmSpenderRequirement_def requirement_rank_def)

definition sample_account_snapshot :: PmCompleteAccountSnapshot where
  "sample_account_snapshot =
     (let domain = cfg_trading_domain sample_config
      in \<lparr>acct_source = PolymarketAccount 9 3, acct_account_scope = sample_scope, acct_snapshot = 4,
          acct_boundary = \<lparr>request_sequence = 1, completion_sequence = 2\<rparr>,
          acct_expected_assets = [gf_outcome domain, gf_collateral domain],
          acct_expected_spenders = cfg_required_spenders sample_config,
          acct_expected_instruments = [sample_instrument],
          acct_balances = [\<lparr>balance_source = PolymarketAccount 9 3, balance_account = 3,
            balance_asset = gf_collateral domain, balance_units = U256 5 0 0 0, balance_snapshot = 4\<rparr>],
          acct_allowances = [], acct_positions = []\<rparr>)"

lemma sample_account_snapshot_new:
  "PmCompleteAccountSnapshot_new sample_account_snapshot = Ok sample_account_snapshot"
  by (simp add: account_snapshot_Ok sample_account_snapshot_def sample_config_def sample_scope_def Let_def rows_fit_def)

section \<open>Properties\<close>

text \<open>
  C23: an open-order snapshot is accepted exactly when its source is the account's own, it has at
  most 1,024 rows, every row carries that source, that account and a venue order key, and no
  two rows share a venue key or a client key; the accepted snapshot holds the rows as given.
\<close>

theorem open_orders_snapshot_exact:
  "PmCompleteOpenOrdersSnapshot_new source scope snapshot boundary orders = Ok s \<longleftrightarrow>
     s = \<lparr>open_source = source, open_account_scope = scope, open_snapshot = snapshot,
          open_boundary = boundary, open_orders = orders\<rparr>
     \<and> (\<exists>handle. source = PolymarketAccount handle (scope_handle scope))
     \<and> length orders \<le> 1024
     \<and> (\<forall>order\<in>set orders. PmOrderEvent_account order = scope_handle scope \<and> order_source order = source
          \<and> venue_order_key (order_identity order) \<noteq> None)
     \<and> distinct (List.map_filter (\<lambda>order. venue_order_key (order_identity order)) orders)
     \<and> distinct (List.map_filter (\<lambda>order. client_order_key (order_identity order)) orders)"
  by (rule open_orders_snapshot_Ok)

theorem open_orders_snapshot_exact_witness:
  "PmCompleteOpenOrdersSnapshot_new (PolymarketAccount 9 3) sample_scope 4
     \<lparr>request_sequence = 1, completion_sequence = 2\<rparr> []
   = Ok \<lparr>open_source = PolymarketAccount 9 3, open_account_scope = sample_scope, open_snapshot = 4,
         open_boundary = \<lparr>request_sequence = 1, completion_sequence = 2\<rparr>, open_orders = []\<rparr>"
  unfolding open_orders_snapshot_exact by (simp add: sample_scope_def map_filter_def)

text \<open>
  C22: an account snapshot whose declared scopes match the private-state configuration answers
  for the configured assets, spenders and instrument and for nothing else.  For each of them the
  lookup returns the one row of the snapshot with that key or says that there is none, and every
  balance, allowance and position row of the snapshot carries its account, source and revision.
\<close>

theorem configured_account_rows:
  assumes "PmPrivateStateConfig_new source scope instrument md = Some (Ok config)"
    and "PmCompleteAccountSnapshot_new raw = Ok s"
    and "expected_assets_match config (acct_expected_assets s)"
    and "expected_spenders_match config (acct_expected_spenders s)"
    and "expected_instruments_match config (acct_expected_instruments s)"
  shows "(asset \<in> {gf_collateral (cfg_trading_domain config), gf_outcome (cfg_trading_domain config)} \<longrightarrow>
      (\<exists>found. expected_balance s asset = Some found
        \<and> (\<forall>row. found = Some row \<longleftrightarrow> row \<in> set (acct_balances s) \<and> balance_asset row = asset)))
    \<and> (spender \<in> set (cfg_required_spenders config) \<longrightarrow>
      (\<exists>found. expected_allowance s spender = Some found
        \<and> (\<forall>row. found = Some row \<longleftrightarrow> row \<in> set (acct_allowances s) \<and> allowance_spender row = spender)))
    \<and> (\<exists>found. expected_position s instrument = Some found
        \<and> (\<forall>row. found = Some row \<longleftrightarrow> row \<in> set (acct_positions s) \<and> position_instrument row = instrument))
    \<and> (asset \<notin> {gf_collateral (cfg_trading_domain config), gf_outcome (cfg_trading_domain config)} \<longrightarrow>
      expected_balance s asset = None)
    \<and> (spender \<notin> set (cfg_required_spenders config) \<longrightarrow> expected_allowance s spender = None)
    \<and> (other \<noteq> instrument \<longrightarrow> expected_position s other = None)
    \<and> (balance \<in> set (acct_balances s) \<longrightarrow> balance_account balance = scope_handle (acct_account_scope s)
       \<and> balance_source balance = acct_source s \<and> balance_snapshot balance = acct_snapshot s)
    \<and> (allowance \<in> set (acct_allowances s) \<longrightarrow>
       spender_account (allowance_spender allowance) = scope_handle (acct_account_scope s)
       \<and> allowance_source allowance = acct_source s \<and> allowance_snapshot allowance = acct_snapshot s)
    \<and> (position \<in> set (acct_positions s) \<longrightarrow> position_account position = scope_handle (acct_account_scope s)
       \<and> position_source position = acct_source s \<and> position_snapshot position = acct_snapshot s)"
  using expected_balance_iff [OF assms(2), of asset] expected_allowance_iff [OF assms(2), of spender]
    expected_position_iff [OF assms(2), of instrument] configured_snapshot_scope [OF assms]
    assms(2) [unfolded account_snapshot_Ok]
  by (intro conjI impI) (simp_all add: expected_balance_def expected_allowance_def expected_position_def)

theorem configured_account_rows_witness:
  "\<exists>found. expected_balance sample_account_snapshot (gf_collateral (cfg_trading_domain sample_config)) = Some found
     \<and> (\<forall>row. found = Some row \<longleftrightarrow> row \<in> set (acct_balances sample_account_snapshot)
          \<and> balance_asset row = gf_collateral (cfg_trading_domain sample_config))"
  using configured_account_rows [OF sample_config_new sample_account_snapshot_new,
      of "gf_collateral (cfg_trading_domain sample_config)"]
  by (simp add: expected_assets_match_def expected_spenders_match_def expected_instruments_match_def
      sample_account_snapshot_def sample_config_def Let_def)

end
