(* ===== verification/Reap_Slots.thy ===== *)
theory Reap_Slots
  imports Reap_Prelude "HOL-Library.Multiset"
begin

text \<open>
  Dense storage with sorted slot indexes.  A reducer keeps its rows in a vector in arrival
  order, and beside it vectors of \<open>u16\<close> slots sorted by a key of the rows they point to; a row
  is removed by swapping the last row into its place and redirecting that row's slot.  The
  theory has the operations of the Rust vectors involved, with a panic as \<open>None\<close>, the contract
  of such an index, and the lemmas that searching, inserting, replacing and removing keep it.
\<close>

section \<open>Computations that may panic\<close>

type_synonym ('s, 'a, 'e) outcome = "('s \<times> ('a, 'e) result) option"

text \<open>
  The \<open>?\<close> operator on a method that may also panic: a panic ends the computation, an error
  returns early with the mutated state.
\<close>

definition and_then :: "('s, 'a, 'e) outcome \<Rightarrow> ('s \<Rightarrow> 'a \<Rightarrow> ('s, 'b, 'e) outcome) \<Rightarrow> ('s, 'b, 'e) outcome" where
  "and_then r k =
     (case r of None \<Rightarrow> None | Some (s, Ok a) \<Rightarrow> k s a | Some (s, Err e) \<Rightarrow> Some (s, Err e))"

text \<open>A plain result inside such a method.\<close>

definition try_result :: "'s \<Rightarrow> ('a, 'e) result \<Rightarrow> ('a \<Rightarrow> ('s, 'b, 'e) outcome) \<Rightarrow> ('s, 'b, 'e) outcome" where
  "try_result s r k = (case r of Ok a \<Rightarrow> k a | Err e \<Rightarrow> Some (s, Err e))"

text \<open>A check that may itself panic, outside and inside such a method.\<close>

definition try_opt :: "('a, 'e) result option \<Rightarrow> ('a \<Rightarrow> ('b, 'e) result option) \<Rightarrow> ('b, 'e) result option" where
  "try_opt r k = (case r of None \<Rightarrow> None | Some (Ok a) \<Rightarrow> k a | Some (Err e) \<Rightarrow> Some (Err e))"

definition try_check :: "'s \<Rightarrow> ('a, 'e) result option \<Rightarrow> ('a \<Rightarrow> ('s, 'b, 'e) outcome) \<Rightarrow> ('s, 'b, 'e) outcome" where
  "try_check s r k = (case r of None \<Rightarrow> None | Some (Ok a) \<Rightarrow> k a | Some (Err e) \<Rightarrow> Some (s, Err e))"

text \<open>\<open>expect\<close>: the value of an option, or a panic.\<close>

definition expect :: "'a option \<Rightarrow> ('a \<Rightarrow> 'b option) \<Rightarrow> 'b option" where
  "expect x k = (case x of None \<Rightarrow> None | Some a \<Rightarrow> k a)"

definition expect_ok :: "('a, 'e) result \<Rightarrow> 'a option" where
  "expect_ok r = (case r of Ok a \<Rightarrow> Some a | Err e \<Rightarrow> None)"

lemma panic_simps [simp]:
  "and_then None k = None" "and_then (Some (s, Ok a)) k = k s a" "and_then (Some (s, Err e)) k' = Some (s, Err e)"
  "try_result s (Ok a) h = h a" "try_result s (Err e) h' = Some (s, Err e)"
  "try_opt None p = None" "try_opt (Some (Ok a)) p = p a" "try_opt (Some (Err e)) p' = Some (Err e)"
  "try_check s None f = None" "try_check s (Some (Ok a)) f = f a" "try_check s (Some (Err e)) f' = Some (s, Err e)"
  "expect None g = None" "expect (Some a) g = g a" "expect_ok (Ok a) = Some a" "expect_ok (Err e) = None"
  by (simp_all add: and_then_def try_result_def try_opt_def try_check_def expect_def expect_ok_def)

lemma and_then_Some:
  "and_then r k = Some (t, q) \<longleftrightarrow>
     (\<exists>s a. r = Some (s, Ok a) \<and> k s a = Some (t, q)) \<or> (\<exists>e. r = Some (t, Err e) \<and> q = Err e)"
  by (auto simp: and_then_def split: option.splits prod.splits result.splits)

lemma try_result_Some:
  "try_result s r k = Some (t, q) \<longleftrightarrow>
     (\<exists>a. r = Ok a \<and> k a = Some (t, q)) \<or> (\<exists>e. r = Err e \<and> t = s \<and> q = Err e)"
  by (auto simp: try_result_def split: result.splits)

lemma try_opt_Some:
  "try_opt r k = Some q \<longleftrightarrow> (\<exists>a. r = Some (Ok a) \<and> k a = Some q) \<or> (\<exists>e. r = Some (Err e) \<and> q = Err e)"
  by (auto simp: try_opt_def split: option.splits result.splits)

lemma try_check_Some:
  "try_check s r k = Some (t, q) \<longleftrightarrow>
     (\<exists>a. r = Some (Ok a) \<and> k a = Some (t, q)) \<or> (\<exists>e. r = Some (Err e) \<and> t = s \<and> q = Err e)"
  by (auto simp: try_check_def split: option.splits result.splits)

lemma expect_Some: "expect x k = Some y \<longleftrightarrow> (\<exists>a. x = Some a \<and> k a = Some y)"
  by (cases x) simp_all

section \<open>Vectors\<close>

text \<open>\<open>self.entries[usize::from(slot)]\<close> and \<open>u16::try_from(index).expect(..)\<close>.\<close>

definition slot_entry :: "'e list \<Rightarrow> u16 \<Rightarrow> 'e option" where
  "slot_entry es slot = (if unat slot < length es then Some (es ! unat slot) else None)"

definition nth_entry :: "'e list \<Rightarrow> nat \<Rightarrow> 'e option" where
  "nth_entry es i = (if i < length es then Some (es ! i) else None)"

definition slot_of :: "nat \<Rightarrow> u16 option" where
  "slot_of i = (if i < 65536 then Some (of_nat i) else None)"

text \<open>\<open>Vec::insert\<close> and \<open>Vec::remove\<close>, which panic out of range, \<open>Iterator::position\<close> and \<open>Vec::swap_remove\<close>.\<close>

definition insert_slot :: "nat \<Rightarrow> 'a \<Rightarrow> 'a list \<Rightarrow> 'a list option" where
  "insert_slot p x xs = (if p \<le> length xs then Some (vec_insert p x xs) else None)"

definition remove_slot :: "nat \<Rightarrow> 'a list \<Rightarrow> 'a list option" where
  "remove_slot p xs = (if p < length xs then Some (vec_remove p xs) else None)"

primrec position_of :: "('a \<Rightarrow> bool) \<Rightarrow> 'a list \<Rightarrow> nat option" where
  "position_of p [] = None"
| "position_of p (x # xs) = (if p x then Some 0 else map_option Suc (position_of p xs))"

definition swap_remove :: "nat \<Rightarrow> 'a list \<Rightarrow> 'a list" where
  "swap_remove i xs = (butlast xs)[i := last xs]"

text \<open>Binary search with a comparison that may panic.\<close>

function bsearch_try :: "('a \<Rightarrow> ordering option) \<Rightarrow> 'a list \<Rightarrow> nat \<Rightarrow> nat \<Rightarrow> nat option" where
  "bsearch_try f xs n base =
     (if 1 < n then
        (let half = n div 2; mid = base + half
         in case f (xs ! mid) of
              None \<Rightarrow> None
            | Some c \<Rightarrow> bsearch_try f xs (n - half) (if c = Greater then base else mid))
      else Some base)"
  by pat_completeness auto
termination
  by (relation "measure (\<lambda>(f, xs, n, base). n)") auto

declare bsearch_try.simps [simp del]

definition binary_search_try :: "('a \<Rightarrow> ordering option) \<Rightarrow> 'a list \<Rightarrow> (nat, nat) result option" where
  "binary_search_try f xs =
     (if xs = [] then Some (Err 0)
      else case bsearch_try f xs (length xs) 0 of
             None \<Rightarrow> None
           | Some base \<Rightarrow>
               (case f (xs ! base) of
                  None \<Rightarrow> None
                | Some Equal \<Rightarrow> Some (Ok base)
                | Some Less \<Rightarrow> Some (Err (base + 1))
                | Some Greater \<Rightarrow> Some (Err base)))"

lemma bsearch_try_total:
  "base + n \<le> length xs \<Longrightarrow> \<forall>x\<in>set xs. f x = Some (g (h x)) \<Longrightarrow>
     bsearch_try f xs n base = Some (bsearch_loop g (map h xs) n base)"
proof (induction n arbitrary: base rule: less_induct)
  case (less n)
  show ?case
  proof (cases "1 < n")
    case True
    let ?mid = "base + n div 2"
    have mid: "?mid < length xs" using True less.prems(1) by linarith
    then have f: "f (xs ! ?mid) = Some (g (h (xs ! ?mid)))" using less.prems(2) by simp
    have IH: "bsearch_try f xs (n - n div 2) b = Some (bsearch_loop g (map h xs) (n - n div 2) b)"
      if "b + (n - n div 2) \<le> length xs" for b
      using True that less.prems(2) by (intro less.IH) auto
    have "bsearch_try f xs n base
        = bsearch_try f xs (n - n div 2) (if g (h (xs ! ?mid)) = Greater then base else ?mid)"
      using True f by (subst bsearch_try.simps) (simp add: Let_def)
    also have "\<dots> = Some (bsearch_loop g (map h xs) (n - n div 2) (if g (h (xs ! ?mid)) = Greater then base else ?mid))"
      using less.prems(1) True by (intro IH) auto
    also have "\<dots> = Some (bsearch_loop g (map h xs) n base)"
      using True mid by (subst (2) bsearch_loop.simps) (simp add: Let_def)
    finally show ?thesis .
  next
    case False
    then show ?thesis by (simp add: bsearch_try.simps [of f xs n] bsearch_loop.simps [of g _ n])
  qed
qed

lemma binary_search_try_total:
  assumes "\<forall>x\<in>set xs. f x = Some (g (h x))"
  shows "binary_search_try f xs = Some (binary_search_by g (map h xs))"
proof (cases "xs = []")
  case False
  let ?b = "bsearch_loop g (map h xs) (length xs) 0"
  have b: "?b < length xs" using bsearch_loop_bounds [of "length xs" 0 g "map h xs"] False by simp
  then have "f (xs ! ?b) = Some (g (h (xs ! ?b)))" using assms by simp
  moreover have "bsearch_try f xs (length xs) 0 = Some ?b"
    using bsearch_try_total [of 0 "length xs" xs f g h] assms by simp
  ultimately show ?thesis
    using b False by (simp add: binary_search_try_def binary_search_by_def Let_def split: ordering.split)
qed (simp add: binary_search_try_def binary_search_by_def)

lemma position_of_Some:
  "position_of p xs = Some i \<Longrightarrow> i < length xs \<and> p (xs ! i)"
  by (induction xs arbitrary: i) (auto split: if_splits)

lemma position_of_exists: "x \<in> set xs \<Longrightarrow> p x \<Longrightarrow> \<exists>i. position_of p xs = Some i"
  by (induction xs) auto

lemma position_of_None: "position_of p xs = None \<longleftrightarrow> (\<forall>x\<in>set xs. \<not> p x)"
  by (induction xs) auto

lemma length_swap_remove [simp]: "length (swap_remove i xs) = length xs - 1"
  by (simp add: swap_remove_def)

lemma swap_remove_nth:
  assumes "i < length xs" "j < length xs - 1"
  shows "swap_remove i xs ! j = (if j = i then xs ! (length xs - 1) else xs ! j)"
proof -
  have "xs \<noteq> []" using assms(1) by auto
  with assms show ?thesis by (simp add: swap_remove_def nth_butlast last_conv_nth nth_list_update)
qed

lemma mset_list_remove:
  assumes "i < length xs" shows "mset xs = add_mset (xs ! i) (mset (vec_remove i xs))"
  using assms by (subst id_take_nth_drop [of i xs]) (simp_all add: vec_remove_def)

lemma mset_swap_remove:
  assumes "i < length xs" shows "mset xs = add_mset (xs ! i) (mset (swap_remove i xs))"
proof -
  obtain ys y where xs: "xs = ys @ [y]" using assms by (cases xs rule: rev_exhaust) auto
  show ?thesis
  proof (cases "i = length ys")
    case True then show ?thesis by (simp add: xs swap_remove_def list_update_beyond)
  next
    case False
    with assms have i: "i < length ys" by (simp add: xs)
    then show ?thesis using mset_update [OF i, of y] nth_mem_mset [OF i]
      by (simp add: xs swap_remove_def nth_append)
  qed
qed

section \<open>Sorted slot indexes\<close>

text \<open>
  \<open>view\<close> reads the rows an index points to.  \<open>index_ok\<close> is the contract of an index on a partial
  key: it lists exactly the slots of the rows that have a key, once each, in strictly ascending
  key order.
\<close>

definition view :: "'e list \<Rightarrow> u16 list \<Rightarrow> 'e list" where
  "view es ix = map (\<lambda>slot. es ! unat slot) ix"

definition index_ok :: "('e \<Rightarrow> 'k::linorder option) \<Rightarrow> 'e list \<Rightarrow> u16 list \<Rightarrow> bool" where
  "index_ok key es ix \<longleftrightarrow>
     distinct ix \<and> unat ` set ix = {i. i < length es \<and> key (es ! i) \<noteq> None}
     \<and> sorted_by_key compare_of (\<lambda>e. the (key e)) (view es ix)"

definition index_search :: "('e \<Rightarrow> 'k::linorder option) \<Rightarrow> 'e list \<Rightarrow> u16 list \<Rightarrow> 'k \<Rightarrow> (nat, nat) result option" where
  "index_search key es ix k =
     binary_search_try (\<lambda>slot. expect (slot_entry es slot) (\<lambda>e. expect (key e) (\<lambda>k'. Some (compare_of k' k)))) ix"

text \<open>Where a new key belongs: the insertion position a failed search reports.\<close>

definition insertion_point :: "('e \<Rightarrow> 'k::linorder option) \<Rightarrow> 'e list \<Rightarrow> u16 list \<Rightarrow> 'k \<Rightarrow> nat \<Rightarrow> bool" where
  "insertion_point key es ix k p \<longleftrightarrow>
     p \<le> length ix \<and> (\<forall>e\<in>set es. key e \<noteq> Some k)
     \<and> (\<forall>e\<in>set (take p (view es ix)). the (key e) < k) \<and> (\<forall>e\<in>set (drop p (view es ix)). k < the (key e))"

interpretation key_index: keyed_order compare_of f for f :: "'e \<Rightarrow> 'k::linorder"
  by unfold_locales

lemma length_view [simp]: "length (view es ix) = length ix"
  by (simp add: view_def)

lemma index_ok_slot:
  assumes "index_ok key es ix" "slot \<in> set ix"
  shows "unat slot < length es" "key (es ! unat slot) \<noteq> None"
  using assms unfolding index_ok_def by (metis (mono_tags, lifting) image_eqI mem_Collect_eq)+

lemma index_ok_covers:
  assumes "index_ok key es ix" "i < length es" "key (es ! i) \<noteq> None"
  obtains p where "p < length ix" "unat (ix ! p) = i"
proof -
  have "i \<in> unat ` set ix" using assms by (simp add: index_ok_def)
  then show thesis using that by (auto simp: in_set_conv_nth)
qed

lemma index_ok_nil [simp]: "index_ok key [] []"
  by (simp add: index_ok_def view_def sorted_by_key_def)

lemma set_view:
  assumes "index_ok key es ix" shows "set (view es ix) = {e \<in> set es. key e \<noteq> None}"
proof -
  have "set (view es ix) = (!) es ` (unat ` set ix)" by (simp add: view_def image_image)
  also have "\<dots> = (!) es ` {i. i < length es \<and> key (es ! i) \<noteq> None}" using assms by (simp add: index_ok_def)
  also have "\<dots> = {e \<in> set es. key e \<noteq> None}" by (auto simp: in_set_conv_nth image_iff)
  finally show ?thesis .
qed

lemma index_search_view:
  assumes "index_ok key es ix"
  shows "index_search key es ix k = Some (binary_search_by (\<lambda>e. compare_of (the (key e)) k) (view es ix))"
  unfolding index_search_def view_def
  by (rule binary_search_try_total) (use index_ok_slot [OF assms] in \<open>fastforce simp: slot_entry_def\<close>)

lemma index_search_cases:
  assumes ok: "index_ok key es ix"
  obtains (found) p where "index_search key es ix k = Some (Ok p)" "p < length ix"
      "unat (ix ! p) < length es" "key (es ! unat (ix ! p)) = Some k"
  | (absent) p where "index_search key es ix k = Some (Err p)" "insertion_point key es ix k p"
proof -
  have sorted: "sorted_by_key compare_of (\<lambda>e. the (key e)) (view es ix)" using ok by (simp add: index_ok_def)
  show thesis
  proof (cases "binary_search_by (\<lambda>e. compare_of (the (key e)) k) (view es ix)")
    case (Ok p)
    then have "p < length ix" "the (key (es ! unat (ix ! p))) = k"
      using key_index.search_Ok [OF sorted Ok] by (auto simp: view_def)
    with index_ok_slot [OF ok, of "ix ! p"] show thesis
      by (intro found [of p]) (auto simp: index_search_view [OF ok] Ok)
  next
    case (Err p)
    have p: "p \<le> length ix" "\<forall>e\<in>set (take p (view es ix)). the (key e) < k"
      "\<forall>e\<in>set (drop p (view es ix)). k < the (key e)"
      using key_index.search_Err [OF sorted Err] by simp_all
    have "k \<notin> (\<lambda>e. the (key e)) ` {e \<in> set es. key e \<noteq> None}"
      using key_index.search_Err_absent [OF sorted Err] by (simp add: set_view [OF ok])
    then have "\<forall>e\<in>set es. key e \<noteq> Some k" by (force simp: image_iff)
    with p show thesis
      by (intro absent [of p]) (simp_all add: index_search_view [OF ok] Err insertion_point_def)
  qed
qed

lemma index_ok_unique:
  assumes ok: "index_ok key es ix" and i: "i < length es" "j < length es"
    and k: "key (es ! i) = key (es ! j)" "key (es ! i) \<noteq> None"
  shows "i = j"
proof -
  obtain p q where p: "p < length ix" "unat (ix ! p) = i" and q: "q < length ix" "unat (ix ! q) = j"
    using index_ok_covers [OF ok i(1) k(2)] index_ok_covers [OF ok i(2)] k by metis
  have "distinct (map (\<lambda>e. the (key e)) (view es ix))"
    using ok by (simp add: index_ok_def key_index.sorted_by_key_distinct)
  moreover have "map (\<lambda>e. the (key e)) (view es ix) ! p = map (\<lambda>e. the (key e)) (view es ix) ! q"
    using p q k by (simp add: view_def)
  ultimately show ?thesis using p q by (metis length_map length_view nth_eq_iff_index_eq)
qed

lemma index_search_slot:
  assumes "index_ok key es ix" "i < length es" "key (es ! i) = Some k"
  obtains p where "index_search key es ix k = Some (Ok p)" "p < length ix" "unat (ix ! p) = i"
  using assms(1)
proof (cases rule: index_search_cases [where k = k])
  case (found p)
  then show thesis using that [of p] index_ok_unique [OF assms(1) _ assms(2), of "unat (ix ! p)"] assms(3) by simp
next
  case (absent p)
  then show thesis using assms(2,3) by (auto simp: insertion_point_def)
qed

section \<open>Keeping an index\<close>

lemma view_vec_insert: "view es (vec_insert p s ix) = vec_insert p (es ! unat s) (view es ix)"
  by (simp add: view_def vec_insert_def take_map drop_map)

lemma view_vec_remove: "view es (vec_remove p ix) = vec_remove p (view es ix)"
  by (simp add: view_def vec_remove_def take_map drop_map)

lemma vec_remove_at [simp]: "vec_remove (length ys) (ys @ x # zs) = ys @ zs"
  by (simp add: vec_remove_def)

lemma vec_insert_at [simp]: "vec_insert (length ys) x (ys @ zs) = ys @ x # zs"
  by (simp add: vec_insert_def)

lemma nth_split:
  assumes "p < length xs" obtains ys x zs where "xs = ys @ x # zs" "p = length ys" "xs ! p = x"
  using that [of "take p xs" "xs ! p" "drop (Suc p) xs"] assms by (simp add: id_take_nth_drop [symmetric])

lemma vec_remove_distinct:
  assumes "distinct xs" "p < length xs"
  shows "set (vec_remove p xs) = set xs - {xs ! p}" "distinct (vec_remove p xs)"
  using assms(1) by (rule_tac nth_split [OF assms(2)], auto)+

lemma distinct_vec_insert: "distinct xs \<Longrightarrow> x \<notin> set xs \<Longrightarrow> distinct (vec_insert p x xs)"
  unfolding vec_insert_def using distinct_append [of "take p xs" "drop p xs"]
  by (auto dest: in_set_takeD in_set_dropD)

lemma sorted_insertion:
  assumes "sorted_by_key compare_of f xs"
    and "\<forall>e\<in>set (take p xs). f e < f x" "\<forall>e\<in>set (drop p xs). f x < f e"
  shows "sorted_by_key compare_of f (vec_insert p x xs)"
  using key_index.sorted_by_key_split [OF assms(1), where i = p] assms(2,3)
  by (simp add: vec_insert_def key_index.sorted_by_key_append key_index.sorted_by_key_Cons)

text \<open>A row pushed at the end of the storage.\<close>

lemma view_push: "\<forall>s\<in>set ix. unat s < length es \<Longrightarrow> view (es @ [e]) ix = view es ix"
  by (simp add: view_def nth_append)

lemma unat_slot: "i < 65536 \<Longrightarrow> unat (of_nat i :: u16) = i"
  by (simp add: unat_of_nat take_bit_eq_mod)

lemma index_ok_push_keyed:
  assumes ok: "index_ok key es ix" and at: "insertion_point key es ix k p" and k: "key e = Some k"
    and len: "length es < 65536"
  shows "index_ok key (es @ [e]) (vec_insert p (of_nat (length es)) ix)"
proof -
  let ?s = "of_nat (length es) :: u16"
  have s: "unat ?s = length es" using len by (rule unat_slot)
  have slots: "\<forall>s\<in>set ix. unat s < length es" using index_ok_slot [OF ok] by blast
  then have fresh: "?s \<notin> set ix" using s by force
  have "distinct (vec_insert p ?s ix)"
    using ok fresh by (simp add: index_ok_def distinct_vec_insert)
  moreover have "unat ` set (vec_insert p ?s ix) = {i. i < length (es @ [e]) \<and> key ((es @ [e]) ! i) \<noteq> None}"
    using ok k by (auto simp: index_ok_def s nth_append less_Suc_eq)
  moreover have "sorted_by_key compare_of (\<lambda>e. the (key e)) (view (es @ [e]) (vec_insert p ?s ix))"
    using ok at k unfolding view_vec_insert view_push [OF slots] s
    by (simp add: sorted_insertion index_ok_def insertion_point_def)
  ultimately show ?thesis by (simp add: index_ok_def)
qed

lemma index_ok_push_unkeyed:
  assumes ok: "index_ok key es ix" and "key e = None"
  shows "index_ok key (es @ [e]) ix"
proof -
  have slots: "\<forall>s\<in>set ix. unat s < length es" using index_ok_slot [OF ok] by blast
  have "unat ` set ix = {i. i < length (es @ [e]) \<and> key ((es @ [e]) ! i) \<noteq> None}"
    using ok assms(2) by (auto simp: index_ok_def nth_append less_Suc_eq)
  with ok show ?thesis by (simp add: index_ok_def view_push [OF slots])
qed

text \<open>A row replaced in place, with and without a change of its key.\<close>

lemma slot_eq_iff: "unat (s :: u16) = unat t \<longleftrightarrow> s = t"
  by (simp add: word_eq_iff_unsigned [where ?'a = nat])

lemma view_update_at:
  assumes "distinct ix" "p < length ix" "unat (ix ! p) = i" "i < length es"
  shows "view (es[i := e]) ix = (view es ix)[p := e]"
  using assms
  by (intro nth_equalityI) (auto simp: view_def nth_list_update slot_eq_iff nth_eq_iff_index_eq)

lemma view_update_other: "i \<notin> unat ` set ix \<Longrightarrow> view (es[i := e]) ix = view es ix"
  by (auto simp: view_def intro!: nth_list_update_neq)

lemma index_ok_replace_same:
  assumes ok: "index_ok key es ix" and i: "i < length es" and k: "key e = key (es ! i)"
  shows "index_ok key (es[i := e]) ix"
proof -
  have "map (\<lambda>e. the (key e)) (view (es[i := e]) ix) = map (\<lambda>e. the (key e)) (view es ix)"
    using i k by (auto simp: view_def nth_list_update)
  moreover have "{j. j < length es \<and> key (es[i := e] ! j) \<noteq> None} = {j. j < length es \<and> key (es ! j) \<noteq> None}"
    using i k by (auto simp: nth_list_update)
  ultimately show ?thesis
    using ok unfolding index_ok_def key_index.sorted_by_key_map by simp
qed

text \<open>A key that appears, disappears or moves.  \<open>moved\<close> is the position after the old slot is taken out.\<close>

definition moved :: "nat \<Rightarrow> nat \<Rightarrow> nat" where
  "moved p q = (if p < q then q - 1 else q)"

lemma set_take_moved: "p < length xs \<Longrightarrow> set (take (moved p q) (vec_remove p xs)) \<subseteq> set (take q xs)"
  by (erule nth_split) (auto simp: moved_def take_Cons' split: if_splits dest: in_set_takeD)

lemma set_drop_moved: "p < length xs \<Longrightarrow> set (drop (moved p q) (vec_remove p xs)) \<subseteq> set (drop q xs)"
  by (erule nth_split) (auto simp: moved_def drop_Cons' split: if_splits dest: in_set_dropD)

lemma index_without:
  assumes ok: "index_ok key es ix" and p: "p < length ix"
  shows "distinct (vec_remove p ix)" "sorted_by_key compare_of (\<lambda>e. the (key e)) (view es (vec_remove p ix))"
    "unat ` set (vec_remove p ix) = {j. j < length es \<and> key (es ! j) \<noteq> None \<and> j \<noteq> unat (ix ! p)}"
proof -
  have d: "distinct ix" using ok by (simp add: index_ok_def)
  show "distinct (vec_remove p ix)" by (rule vec_remove_distinct(2) [OF d p])
  show "sorted_by_key compare_of (\<lambda>e. the (key e)) (view es (vec_remove p ix))"
    using ok p by (simp add: index_ok_def view_vec_remove key_index.sorted_remove)
  have "unat ` set (vec_remove p ix) = unat ` set ix - {unat (ix ! p)}"
    unfolding vec_remove_distinct(1) [OF d p] by (auto simp: slot_eq_iff)
  then show "unat ` set (vec_remove p ix) = {j. j < length es \<and> key (es ! j) \<noteq> None \<and> j \<noteq> unat (ix ! p)}"
    using ok by (auto simp: index_ok_def)
qed

lemma index_ok_unkey:
  assumes ok: "index_ok key es ix" and p: "p < length ix" "unat (ix ! p) = i" and k: "key e = None"
  shows "index_ok key (es[i := e]) (vec_remove p ix)"
proof -
  have i: "i < length es" using index_ok_slot [OF ok] p by auto
  have "view (es[i := e]) (vec_remove p ix) = view es (vec_remove p ix)"
    by (rule view_update_other) (simp add: index_without(3) [OF ok p(1)] p(2))
  with index_without [OF ok p(1)] p(2) k i show ?thesis
    by (auto simp: index_ok_def nth_list_update)
qed

lemma index_ok_rekey:
  assumes ok: "index_ok key es ix" and p: "p < length ix" "unat (ix ! p) = i"
    and k: "key e = Some k" and q: "insertion_point key es ix k q"
  shows "index_ok key (es[i := e]) (vec_insert (moved p q) (ix ! p) (vec_remove p ix))"
proof -
  have i: "i < length es" using index_ok_slot [OF ok] p by auto
  note w = index_without [OF ok p(1)]
  have v: "view (es[i := e]) (vec_remove p ix) = vec_remove p (view es ix)"
    by (subst view_update_other) (simp_all add: w(3) p(2) view_vec_remove)
  have fresh: "ix ! p \<notin> set (vec_remove p ix)"
    using ok p(1) by (simp add: vec_remove_distinct index_ok_def)
  have "distinct (vec_insert (moved p q) (ix ! p) (vec_remove p ix))"
    by (rule distinct_vec_insert [OF w(1) fresh])
  moreover have "unat ` set (vec_insert (moved p q) (ix ! p) (vec_remove p ix))
      = {j. j < length (es[i := e]) \<and> key (es[i := e] ! j) \<noteq> None}"
    using w(3) i k p(2) by (auto simp: nth_list_update)
  moreover have "sorted_by_key compare_of (\<lambda>e. the (key e))
      (view (es[i := e]) (vec_insert (moved p q) (ix ! p) (vec_remove p ix)))"
    unfolding view_vec_insert v p(2)
  proof (rule sorted_insertion)
    show "sorted_by_key compare_of (\<lambda>e. the (key e)) (vec_remove p (view es ix))"
      using w(2) by (simp add: view_vec_remove)
  qed (use q i k p(1) set_take_moved [of p "view es ix" q] set_drop_moved [of p "view es ix" q]
      in \<open>auto simp: insertion_point_def\<close>)
  ultimately show ?thesis by (simp add: index_ok_def)
qed

lemma index_ok_newkey:
  assumes ok: "index_ok key es ix" and i: "i < length es" "i < 65536" "key (es ! i) = None"
    and k: "key e = Some k" and q: "insertion_point key es ix k q"
  shows "index_ok key (es[i := e]) (vec_insert q (of_nat i) ix)"
proof -
  have notin: "i \<notin> unat ` set ix" using ok i by (simp add: index_ok_def)
  then have v: "view (es[i := e]) ix = view es ix" by (rule view_update_other)
  have s: "unat (of_nat i :: u16) = i" using i(2) by (rule unat_slot)
  have fresh: "(of_nat i :: u16) \<notin> set ix" using notin s by force
  have "distinct (vec_insert q (of_nat i) ix)"
    using ok fresh by (simp add: distinct_vec_insert index_ok_def)
  moreover have "unat ` set (vec_insert q (of_nat i) ix) = {j. j < length (es[i := e]) \<and> key (es[i := e] ! j) \<noteq> None}"
    using ok i k s by (auto simp: index_ok_def nth_list_update)
  moreover have "sorted_by_key compare_of (\<lambda>e. the (key e)) (view (es[i := e]) (vec_insert q (of_nat i) ix))"
    unfolding view_vec_insert v s
    by (rule sorted_insertion) (use ok q k i(1) in \<open>auto simp: index_ok_def insertion_point_def\<close>)
  ultimately show ?thesis by (simp add: index_ok_def)
qed

text \<open>A row removed by swapping the last row into its slot.\<close>

definition redirect :: "nat \<Rightarrow> nat \<Rightarrow> u16 list \<Rightarrow> u16 list option" where
  "redirect old new ix =
     expect (position_of (\<lambda>slot. unat slot = old) ix) (\<lambda>q. expect (slot_of new) (\<lambda>slot. Some (ix[q := slot])))"

lemma index_swap_kept:
  assumes d: "distinct ix" and cov: "unat ` set ix = {j. j < length es \<and> key (es ! j) \<noteq> None \<and> j \<noteq> i}"
    and srt: "sorted_by_key compare_of (\<lambda>e. the (key e)) (view es ix)" and i: "i < length es"
    and kept: "i = length es - 1 \<or> key (es ! (length es - 1)) = None"
  shows "index_ok key (swap_remove i es) ix"
proof -
  have slot: "unat s < length es - 1" "unat s \<noteq> i" if "s \<in> set ix" for s
  proof -
    have "unat s \<in> {j. j < length es \<and> key (es ! j) \<noteq> None \<and> j \<noteq> i}" using that cov by blast
    with kept show "unat s < length es - 1" "unat s \<noteq> i" by (cases "unat s = length es - 1"; auto)+
  qed
  then have "view (swap_remove i es) ix = view es ix"
    using i by (simp add: view_def swap_remove_nth)
  moreover have "unat ` set ix = {j. j < length (swap_remove i es) \<and> key (swap_remove i es ! j) \<noteq> None}"
    unfolding cov
  proof (rule Collect_cong)
    fix j
    show "j < length es \<and> key (es ! j) \<noteq> None \<and> j \<noteq> i
        \<longleftrightarrow> j < length (swap_remove i es) \<and> key (swap_remove i es ! j) \<noteq> None"
    proof (cases "j < length es - 1")
      case True
      with i kept show ?thesis by (cases "j = i") (auto simp: swap_remove_nth)
    next
      case False
      then have "j < length es \<Longrightarrow> j = length es - 1" by simp
      with False i kept show ?thesis by auto
    qed
  qed
  ultimately show ?thesis using d srt by (simp add: index_ok_def)
qed

lemma index_swap_moved:
  assumes d: "distinct ix" and cov: "unat ` set ix = {j. j < length es \<and> key (es ! j) \<noteq> None \<and> j \<noteq> i}"
    and srt: "sorted_by_key compare_of (\<lambda>e. the (key e)) (view es ix)" and i: "i < length es" "length es \<le> 65536"
    and moves: "i \<noteq> length es - 1" "key (es ! (length es - 1)) \<noteq> None"
  obtains ix' where "redirect (length es - 1) i ix = Some ix'" "index_ok key (swap_remove i es) ix'"
proof -
  let ?L = "length es - 1" and ?i = "of_nat i :: u16"
  have "?L \<in> unat ` set ix" unfolding cov using i moves by auto
  then obtain s where "s \<in> set ix" "unat s = ?L" by auto
  then obtain q where q: "position_of (\<lambda>slot. unat slot = ?L) ix = Some q"
    using position_of_exists [of s ix "\<lambda>slot. unat slot = ?L"] by blast
  then have qb: "q < length ix" "unat (ix ! q) = ?L" by (auto dest: position_of_Some)
  have ui: "unat ?i = i" using i by (intro unat_slot) simp
  have notin: "?i \<notin> set ix" using cov ui by force
  let ?ix = "ix[q := ?i]"
  have others: "unat (ix ! j) < ?L \<and> unat (ix ! j) \<noteq> i" if "j < length ix" "j \<noteq> q" for j
  proof -
    have "unat (ix ! j) \<in> {j. j < length es \<and> key (es ! j) \<noteq> None \<and> j \<noteq> i}" using that(1) cov by auto
    moreover have "unat (ix ! j) \<noteq> ?L"
      using that qb d by (metis nth_eq_iff_index_eq slot_eq_iff)
    ultimately show ?thesis by auto
  qed
  have v: "view (swap_remove i es) ?ix = view es ix"
  proof (rule nth_equalityI)
    fix j assume "j < length (view (swap_remove i es) ?ix)"
    then show "view (swap_remove i es) ?ix ! j = view es ix ! j"
      using others [of j] qb ui i moves by (cases "j = q") (auto simp: view_def swap_remove_nth)
  qed simp
  have "set ?ix = insert ?i (set ix - {ix ! q})"
    using d qb(1) by (simp add: set_update_distinct)
  then have "unat ` set ?ix = insert i (unat ` set ix - {?L})"
    using qb(2) ui by (auto simp: slot_eq_iff) (metis qb(2) slot_eq_iff)
  also have "\<dots> = {j. j < length (swap_remove i es) \<and> key (swap_remove i es ! j) \<noteq> None}"
    unfolding cov using i moves by (auto simp: swap_remove_nth split: if_splits)
  finally have "index_ok key (swap_remove i es) ?ix"
    using d srt notin by (simp add: index_ok_def v distinct_list_update)
  moreover have "redirect ?L i ix = Some ?ix"
    using q i by (simp add: redirect_def slot_of_def)
  ultimately show thesis using that by blast
qed

lemma index_ok_canonical_perm:
  assumes ok: "index_ok key es ix" and all: "\<forall>e\<in>set es. key e \<noteq> None"
  shows "mset (view es ix) = mset es"
proof -
  have "unat ` set ix = {..<length es}" using ok all by (auto simp: index_ok_def)
  moreover have "distinct (map unat ix)"
    using ok by (auto simp: index_ok_def distinct_map inj_on_def slot_eq_iff)
  ultimately have "mset (map unat ix) = mset [0..<length es]"
    by (intro set_eq_iff_mset_eq_distinct [THEN iffD1]) auto
  then have "mset (map ((!) es) (map unat ix)) = mset (map ((!) es) [0..<length es])"
    by (simp only: mset_map)
  then show ?thesis by (simp add: view_def map_nth comp_def)
qed

end
