(* ===== verification/Pm_Order_Entry.thy ===== *)
theory Pm_Order_Entry
  imports Pm_Reconciliation Reap_Slots
begin

text \<open>
  The rows of the private order table of \<open>crates/reap-pm-state/src/order_state.rs\<close>: reservations,
  ownership, registrations and entries, with the free functions of that file that check an
  observation and merge two rows that turn out to be the same order.
\<close>

section \<open>Types\<close>

definition MAX_PM_PRIVATE_ORDERS :: nat where
  "MAX_PM_PRIVATE_ORDERS = MAX_PM_RECONCILIATION_ORDERS"

datatype PmReservationBasis = PolicyApprovedWorstCase | AuthoritativeSellRemaining

record PmExactReservation =
  res_collateral :: U256
  res_outcome :: U256
  res_basis :: PmReservationBasis

datatype PmReservationKnowledge = Known PmExactReservation | Unknown

datatype PmRemoteOrderKnowledge = Unmanaged PmReservationKnowledge | Ambiguous

datatype PmOrderOwnership = ProvenOwned | Unmanaged | Ambiguous

datatype OwnershipState = ProvenOwned | Unmanaged | Ambiguous

datatype PmOrderStateError =
    ZeroReservation
  | OwnedReservationRequiresPolicy
  | ScopeMismatch
  | MarketContractMismatch
  | ReservationScopeMismatch
  | ReservationUnderstatesBase
  | InvalidAuthoritativeReservation
  | OwnershipRegisteredTooLate
  | IdentityConflict
  | ObservationConflict
  | LifecycleRegression
  | TerminalOrderInOpenSnapshot
  | Capacity
  | EnvelopeRevisionMismatch
  | CompletionSequenceMismatch
  | ReservationCompanionMismatch

datatype PmReservationTotalsError = Unknown PmOrderIdentity | Overflow

record PmOwnedOrderRegistration =
  reg_client_order :: PmClientOrderKey
  reg_instrument :: PmInstrumentHandle
  reg_side :: PmOrderSide
  reg_price :: PmPrice
  reg_quantity :: PmQuantity
  reg_reservation :: PmExactReservation

record PmOpenOrderReservation =
  companion_venue_order :: PmVenueOrderKey
  companion_reservation :: PmReservationKnowledge

record PmOrderProjection =
  pj_identity :: PmOrderIdentity
  pj_instrument :: PmInstrumentHandle
  pj_status :: "PmOrderStatus option"
  pj_ownership :: PmOrderOwnership
  pj_reservation :: "PmReservationKnowledge option"
  pj_missing_from_complete_open_snapshot :: bool
  pj_terminal_by_detail_absence :: bool
  pj_last_occurrence :: "PmPrivateOccurrence option"

record OrderEntry =
  oe_identity :: PmOrderIdentity
  oe_instrument :: PmInstrumentHandle
  oe_event :: "PmOrderEvent option"
  oe_ownership :: OwnershipState
  oe_registered_terms :: "(PmOrderSide \<times> PmPrice \<times> PmQuantity) option"
  oe_reservation :: "PmReservationKnowledge option"
  oe_missing_from_complete_open_snapshot :: bool
  oe_terminal_by_detail_absence :: bool
  oe_last_occurrence :: "PmPrivateOccurrence option"

primrec public_ownership :: "OwnershipState \<Rightarrow> PmOrderOwnership" where
  "public_ownership ProvenOwned = PmOrderOwnership.ProvenOwned"
| "public_ownership Unmanaged = PmOrderOwnership.Unmanaged"
| "public_ownership Ambiguous = PmOrderOwnership.Ambiguous"

definition order_status :: "PmOrderEvent \<Rightarrow> PmOrderStatus" where
  "order_status event = status (order_progress event)"

definition terminal_event :: "PmOrderEvent \<Rightarrow> bool" where
  "terminal_event event = PmOrderStatus_is_terminal (order_status event)"

definition OrderEntry_projection :: "OrderEntry \<Rightarrow> PmOrderProjection" where
  "OrderEntry_projection entry =
     \<lparr>pj_identity = oe_identity entry, pj_instrument = oe_instrument entry,
      pj_status = map_option order_status (oe_event entry),
      pj_ownership = public_ownership (oe_ownership entry),
      pj_reservation = oe_reservation entry,
      pj_missing_from_complete_open_snapshot = oe_missing_from_complete_open_snapshot entry,
      pj_terminal_by_detail_absence = oe_terminal_by_detail_absence entry,
      pj_last_occurrence = oe_last_occurrence entry\<rparr>"

definition is_live :: "OrderEntry \<Rightarrow> bool" where
  "is_live entry \<longleftrightarrow>
     \<not> oe_terminal_by_detail_absence entry
     \<and> (case oe_event entry of None \<Rightarrow> True | Some event \<Rightarrow> \<not> terminal_event event)"

section \<open>Reservations and registrations\<close>

definition reservation_checked ::
    "U256 \<Rightarrow> U256 \<Rightarrow> PmReservationBasis \<Rightarrow> (PmExactReservation, PmOrderStateError) result" where
  "reservation_checked collateral outcome basis =
     (if U256_is_zero collateral \<and> U256_is_zero outcome then Err ZeroReservation
      else Ok \<lparr>res_collateral = collateral, res_outcome = outcome, res_basis = basis\<rparr>)"

definition policy_approved :: "U256 \<Rightarrow> U256 \<Rightarrow> (PmExactReservation, PmOrderStateError) result" where
  "policy_approved collateral outcome = reservation_checked collateral outcome PolicyApprovedWorstCase"

definition authoritative_sell_remaining :: "U256 \<Rightarrow> (PmExactReservation, PmOrderStateError) result" where
  "authoritative_sell_remaining outcome = reservation_checked U256_ZERO outcome AuthoritativeSellRemaining"

definition validate_requirement ::
    "PmOrderSide \<Rightarrow> PmPrice \<Rightarrow> U256 \<Rightarrow> PmExactReservation \<Rightarrow> (unit, PmOrderStateError) result" where
  "validate_requirement side price remaining reservation =
     bind_result (map_err (\<lambda>_. ZeroReservation) (PmQuantity_from_protocol_units remaining)) (\<lambda>quantity.
     bind_result (map_err (\<lambda>_. ReservationUnderstatesBase) (exact_order_amounts side price quantity)) (\<lambda>amounts.
       let (base_collateral, base_outcome) =
             (case side of Buy \<Rightarrow> (maker amounts, U256_ZERO) | Sell \<Rightarrow> (U256_ZERO, remaining))
       in if res_collateral reservation < base_collateral \<or> res_outcome reservation < base_outcome
            then Err ReservationUnderstatesBase
          else if res_basis reservation = AuthoritativeSellRemaining
                  \<and> (side \<noteq> Sell \<or> \<not> U256_is_zero (res_collateral reservation) \<or> res_outcome reservation \<noteq> remaining)
            then Err InvalidAuthoritativeReservation
          else Ok ()))"

definition reservation_validate_for ::
    "PmExactReservation \<Rightarrow> PmOrderSide \<Rightarrow> PmPrice \<Rightarrow> PmQuantity \<Rightarrow> (PmExactReservation, PmOrderStateError) result" where
  "reservation_validate_for reservation side price quantity =
     bind_result (validate_requirement side price (protocol_units quantity) reservation) (\<lambda>_. Ok reservation)"

definition PmOwnedOrderRegistration_new ::
    "PmClientOrderKey \<Rightarrow> PmInstrumentHandle \<Rightarrow> PmOrderSide \<Rightarrow> PmPrice \<Rightarrow> PmQuantity \<Rightarrow> PmExactReservation
      \<Rightarrow> (PmOwnedOrderRegistration, PmOrderStateError) result" where
  "PmOwnedOrderRegistration_new client_order instrument side price quantity reservation =
     (if res_basis reservation \<noteq> PolicyApprovedWorstCase then Err OwnedReservationRequiresPolicy
      else bind_result (validate_requirement side price (protocol_units quantity) reservation) (\<lambda>_.
        Ok \<lparr>reg_client_order = client_order, reg_instrument = instrument, reg_side = side, reg_price = price,
            reg_quantity = quantity, reg_reservation = reservation\<rparr>))"

definition validate_registration ::
    "PmOwnedOrderRegistration \<Rightarrow> PmPrivateStateConfig \<Rightarrow> (unit, PmOrderStateError) result" where
  "validate_registration registration config =
     (if client_account (reg_client_order registration) \<noteq> cfg_account config
         \<or> reg_instrument registration \<noteq> cfg_instrument config
      then Err ScopeMismatch else Ok ())"

section \<open>Observations\<close>

definition validate_event ::
    "PmOrderEvent \<Rightarrow> PmProductSource \<Rightarrow> PmPrivateStateConfig \<Rightarrow> (unit, PmOrderStateError) result" where
  "validate_event event source config =
     (if source \<noteq> cfg_source config \<or> order_source event \<noteq> cfg_source config
         \<or> PmOrderEvent_account event \<noteq> cfg_account config \<or> order_instrument event \<noteq> cfg_instrument config
      then Err ScopeMismatch
      else bind_result
        (map_err (\<lambda>_. MarketContractMismatch)
          (bind_result (PmPrice_validate_tick (order_price event) (md_tick (cfg_metadata config))) (\<lambda>_.
             PmQuantity_validate_order (original_quantity (order_progress event))
               (md_minimum_order_size (cfg_metadata config)))))
        (\<lambda>_. Ok ()))"

text \<open>\<open>None\<close> is the panic of \<open>remaining_quantity_units\<close>.\<close>

definition validate_reservation ::
    "PmOrderEvent \<Rightarrow> PmReservationKnowledge \<Rightarrow> (unit, PmOrderStateError) result option" where
  "validate_reservation event knowledge =
     (case knowledge of
        PmReservationKnowledge.Unknown \<Rightarrow> Some (Ok ())
      | Known reservation \<Rightarrow>
          if terminal_event event then Some (Ok ())
          else expect (remaining_quantity_units (order_progress event)) (\<lambda>remaining.
            Some (validate_requirement (order_side event) (order_price event) remaining reservation)))"

definition validate_remote_knowledge ::
    "PmOrderEvent \<Rightarrow> PmRemoteOrderKnowledge \<Rightarrow> (PmReservationKnowledge, PmOrderStateError) result option" where
  "validate_remote_knowledge event knowledge =
     (case knowledge of
        PmRemoteOrderKnowledge.Ambiguous \<Rightarrow> Some (Ok PmReservationKnowledge.Unknown)
      | PmRemoteOrderKnowledge.Unmanaged reservation \<Rightarrow>
          try_opt (validate_reservation event reservation) (\<lambda>_. Some (Ok reservation)))"

primrec ownership_from_remote :: "PmRemoteOrderKnowledge \<Rightarrow> OwnershipState" where
  "ownership_from_remote (PmRemoteOrderKnowledge.Unmanaged reservation) = Unmanaged"
| "ownership_from_remote PmRemoteOrderKnowledge.Ambiguous = Ambiguous"

definition merge_remote_ownership :: "OwnershipState \<Rightarrow> PmRemoteOrderKnowledge \<Rightarrow> OwnershipState" where
  "merge_remote_ownership current observed =
     (case (current, observed) of
        (ProvenOwned, _) \<Rightarrow> ProvenOwned
      | (Ambiguous, _) \<Rightarrow> Ambiguous
      | (_, PmRemoteOrderKnowledge.Ambiguous) \<Rightarrow> Ambiguous
      | (Unmanaged, PmRemoteOrderKnowledge.Unmanaged _) \<Rightarrow> Unmanaged)"

definition live_reservation :: "PmOrderEvent \<Rightarrow> PmReservationKnowledge \<Rightarrow> PmReservationKnowledge option" where
  "live_reservation event reservation = (if \<not> terminal_event event then Some reservation else None)"

section \<open>Identities\<close>

definition identities_overlap :: "PmOrderIdentity \<Rightarrow> PmOrderIdentity \<Rightarrow> bool" where
  "identities_overlap left right \<longleftrightarrow>
     (case (client_order_key left, client_order_key right) of (Some l, Some r) \<Rightarrow> l = r | _ \<Rightarrow> False)
     \<or> (case (venue_order_key left, venue_order_key right) of (Some l, Some r) \<Rightarrow> l = r | _ \<Rightarrow> False)"

definition ensure_identity_merge :: "PmOrderIdentity \<Rightarrow> PmOrderIdentity \<Rightarrow> (unit, PmOrderStateError) result" where
  "ensure_identity_merge left right =
     (if (case (client_order_key left, client_order_key right) of (Some l, Some r) \<Rightarrow> l \<noteq> r | _ \<Rightarrow> False)
        then Err IdentityConflict
      else if (case (venue_order_key left, venue_order_key right) of (Some l, Some r) \<Rightarrow> l \<noteq> r | _ \<Rightarrow> False)
        then Err IdentityConflict
      else Ok ())"

definition option_or :: "'a option \<Rightarrow> 'a option \<Rightarrow> 'a option" where
  "option_or a b = (case a of None \<Rightarrow> b | Some x \<Rightarrow> Some x)"

text \<open>\<open>None\<close> is the panic on identities of different accounts.\<close>

definition merge_identity :: "PmOrderIdentity \<Rightarrow> PmOrderIdentity \<Rightarrow> PmOrderIdentity option" where
  "merge_identity left right =
     expect_ok (PmOrderIdentity_new
       (option_or (client_order_key left) (client_order_key right))
       (option_or (venue_order_key left) (venue_order_key right)))"

definition ordering_then :: "ordering \<Rightarrow> ordering \<Rightarrow> ordering" where
  "ordering_then a b = (if a = Equal then b else a)"

definition compare_entries :: "OrderEntry \<Rightarrow> OrderEntry \<Rightarrow> ordering" where
  "compare_entries left right =
     ordering_then (compare_of (venue_order_key (oe_identity left)) (venue_order_key (oe_identity right)))
       (compare_of (client_order_key (oe_identity left)) (client_order_key (oe_identity right)))"

section \<open>Merging rows\<close>

definition validate_order_lifecycle :: "PmOrderEvent \<Rightarrow> PmOrderEvent \<Rightarrow> (unit, PmOrderStateError) result" where
  "validate_order_lifecycle previous next_event =
     (if order_source previous \<noteq> order_source next_event
         \<or> order_instrument previous \<noteq> order_instrument next_event
         \<or> order_side previous \<noteq> order_side next_event
         \<or> order_price previous \<noteq> order_price next_event
         \<or> original_quantity (order_progress previous) \<noteq> original_quantity (order_progress next_event)
         \<or> cumulative_filled (order_progress next_event) < cumulative_filled (order_progress previous)
         \<or> (terminal_event previous \<and> order_progress previous \<noteq> order_progress next_event)
      then Err LifecycleRegression else Ok ())"

definition merge_entry_ownership :: "OwnershipState \<Rightarrow> OwnershipState \<Rightarrow> OwnershipState" where
  "merge_entry_ownership left right =
     (if left = ProvenOwned \<or> right = ProvenOwned then ProvenOwned
      else if left = Ambiguous \<or> right = Ambiguous then Ambiguous
      else Unmanaged)"

text \<open>\<open>None\<close> is the \<open>unreachable!\<close> branch.\<close>

definition merge_owned_reservation ::
    "OrderEntry \<Rightarrow> OrderEntry \<Rightarrow> (PmReservationKnowledge option, PmOrderStateError) result option" where
  "merge_owned_reservation left right =
     (case (if oe_ownership left = ProvenOwned then Some (oe_reservation left) else None,
            if oe_ownership right = ProvenOwned then Some (oe_reservation right) else None) of
        (Some l, Some r) \<Rightarrow> if l \<noteq> r then Some (Err IdentityConflict) else Some (Ok l)
      | (Some l, None) \<Rightarrow> Some (Ok l)
      | (None, Some r) \<Rightarrow> Some (Ok r)
      | (None, None) \<Rightarrow> None)"

definition merge_registered_terms ::
    "'t option \<Rightarrow> 't option \<Rightarrow> ('t option, PmOrderStateError) result" where
  "merge_registered_terms left right =
     (case (left, right) of
        (Some l, Some r) \<Rightarrow> if l \<noteq> r then Err ObservationConflict else Ok (Some l)
      | (Some l, None) \<Rightarrow> Ok (Some l)
      | (None, r) \<Rightarrow> Ok r)"

definition merge_lifecycle ::
    "ordering \<Rightarrow> PmOrderEvent option \<Rightarrow> PmOrderEvent option \<Rightarrow> (unit, PmOrderStateError) result" where
  "merge_lifecycle occurrence_order left right =
     (case (left, right) of
        (Some left_event, Some right_event) \<Rightarrow>
          (case occurrence_order of
             Less \<Rightarrow> validate_order_lifecycle left_event right_event
           | Greater \<Rightarrow> validate_order_lifecycle right_event left_event
           | Equal \<Rightarrow> if left_event \<noteq> right_event then Err ObservationConflict else Ok ())
      | _ \<Rightarrow> Ok ())"

definition merge_selected :: "ordering \<Rightarrow> OrderEntry \<Rightarrow> OrderEntry \<Rightarrow> OrderEntry" where
  "merge_selected occurrence_order left right =
     (case occurrence_order of
        Less \<Rightarrow> right
      | Greater \<Rightarrow> left
      | Equal \<Rightarrow> if oe_event right \<noteq> None \<and> oe_event left = None then right else left)"

definition merge_entries :: "OrderEntry \<Rightarrow> OrderEntry \<Rightarrow> (OrderEntry, PmOrderStateError) result option" where
  "merge_entries left right =
     (if oe_instrument left \<noteq> oe_instrument right then Some (Err IdentityConflict)
      else try_opt (Some (ensure_identity_merge (oe_identity left) (oe_identity right))) (\<lambda>_.
        try_opt (Some (merge_registered_terms (oe_registered_terms left) (oe_registered_terms right))) (\<lambda>registered_terms.
        let ownership = merge_entry_ownership (oe_ownership left) (oe_ownership right);
            occurrence_order = compare_of (oe_last_occurrence left) (oe_last_occurrence right)
        in try_opt (Some (merge_lifecycle occurrence_order (oe_event left) (oe_event right))) (\<lambda>_.
          let selected = merge_selected occurrence_order left right
          in try_opt (if ownership = ProvenOwned then merge_owned_reservation left right
                      else if occurrence_order = Equal \<and> oe_reservation left \<noteq> oe_reservation right
                        then Some (Ok (Some PmReservationKnowledge.Unknown))
                      else Some (Ok (oe_reservation selected))) (\<lambda>reservation.
            expect (merge_identity (oe_identity left) (oe_identity right)) (\<lambda>identity.
              Some (Ok \<lparr>oe_identity = identity, oe_instrument = oe_instrument left, oe_event = oe_event selected,
                oe_ownership = ownership, oe_registered_terms = registered_terms, oe_reservation = reservation,
                oe_missing_from_complete_open_snapshot = oe_missing_from_complete_open_snapshot selected,
                oe_terminal_by_detail_absence = oe_terminal_by_detail_absence selected,
                oe_last_occurrence = oe_last_occurrence selected\<rparr>)))))))"

definition terms_differ :: "PmOrderEvent \<Rightarrow> (PmOrderSide \<times> PmPrice \<times> PmQuantity) option \<Rightarrow> bool" where
  "terms_differ event terms =
     is_some_and (\<lambda>(side, price, quantity).
       order_side event \<noteq> side \<or> order_price event \<noteq> price
       \<or> original_quantity (order_progress event) \<noteq> quantity) terms"

definition preflight_existing_update ::
    "OrderEntry \<Rightarrow> PmOrderEvent \<Rightarrow> PmPrivateOccurrence \<Rightarrow> (unit, PmOrderStateError) result" where
  "preflight_existing_update prior event occurrence =
     (if is_some_and (\<lambda>prior_occurrence. occurrence < prior_occurrence) (oe_last_occurrence prior)
         \<or> (oe_last_occurrence prior = Some occurrence \<and> oe_event prior = Some event) then Ok ()
      else if oe_last_occurrence prior = Some occurrence then Err ObservationConflict
      else bind_result (ensure_identity_merge (oe_identity prior) (order_identity event)) (\<lambda>_.
        bind_result
          (case oe_event prior of None \<Rightarrow> Ok () | Some previous \<Rightarrow> validate_order_lifecycle previous event)
          (\<lambda>_. if terms_differ event (oe_registered_terms prior) then Err ObservationConflict else Ok ())))"

section \<open>Complete results\<close>

definition companion_knowledge :: "PmOrderEvent \<Rightarrow> PmOpenOrderReservation list \<Rightarrow> PmReservationKnowledge" where
  "companion_knowledge event reservations =
     (case venue_order_key (order_identity event) of
        None \<Rightarrow> PmReservationKnowledge.Unknown
      | Some venue \<Rightarrow>
          (case find (\<lambda>entry. companion_venue_order entry = venue) reservations of
             None \<Rightarrow> PmReservationKnowledge.Unknown
           | Some entry \<Rightarrow> companion_reservation entry))"

primrec check_companions ::
    "PmCompleteOpenOrdersSnapshot \<Rightarrow> PmOpenOrderReservation list \<Rightarrow> PmOpenOrderReservation list \<Rightarrow> bool" where
  "check_companions snapshot prior [] = True"
| "check_companions snapshot prior (reservation # rest) =
     (\<not> list_ex (\<lambda>p. companion_venue_order p = companion_venue_order reservation) prior
      \<and> list_ex (\<lambda>event. venue_order_key (order_identity event) = Some (companion_venue_order reservation))
          (open_orders snapshot)
      \<and> check_companions snapshot (prior @ [reservation]) rest)"

primrec check_snapshot_rows ::
    "PmProductSource \<Rightarrow> PmOpenOrderReservation list \<Rightarrow> PmPrivateStateConfig \<Rightarrow> PmOrderEvent list
      \<Rightarrow> (unit, PmOrderStateError) result option" where
  "check_snapshot_rows source reservations config [] = Some (Ok ())"
| "check_snapshot_rows source reservations config (event # events) =
     (if terminal_event event then Some (Err TerminalOrderInOpenSnapshot)
      else try_opt (Some (validate_event event source config)) (\<lambda>_.
        try_opt (validate_reservation event (companion_knowledge event reservations)) (\<lambda>_.
          check_snapshot_rows source reservations config events)))"

definition validate_open_snapshot ::
    "PmCompleteOpenOrdersSnapshot EventEnvelope \<Rightarrow> PmOpenOrderReservation list \<Rightarrow> PmPrivateStateConfig
      \<Rightarrow> (unit, PmOrderStateError) result option" where
  "validate_open_snapshot envelope reservations config =
     (let snapshot = env_payload envelope
      in if env_source envelope \<noteq> cfg_source config \<or> open_account_scope snapshot \<noteq> cfg_account_scope config
           then Some (Err ScopeMismatch)
         else if snapshot_revision (env_ordering envelope) \<noteq> Some (open_snapshot snapshot)
           then Some (Err EnvelopeRevisionMismatch)
         else if local_ingress_sequence (env_ordering envelope) \<noteq> completion_sequence (open_boundary snapshot)
           then Some (Err CompletionSequenceMismatch)
         else if \<not> check_companions snapshot [] reservations then Some (Err ReservationCompanionMismatch)
         else check_snapshot_rows (env_source envelope) reservations config (open_orders snapshot))"

definition validate_detail ::
    "PmExactOrderDetail EventEnvelope \<Rightarrow> PmPrivateStateConfig \<Rightarrow> (unit, PmOrderStateError) result" where
  "validate_detail envelope config =
     (let detail = env_payload envelope
      in if env_source envelope \<noteq> cfg_source config \<or> detail_account_scope detail \<noteq> cfg_account_scope config
           then Err ScopeMismatch
         else if snapshot_revision (env_ordering envelope) \<noteq> Some (detail_snapshot detail)
           then Err EnvelopeRevisionMismatch
         else if local_ingress_sequence (env_ordering envelope) \<noteq> completion_sequence (detail_boundary detail)
           then Err CompletionSequenceMismatch
         else Ok ())"

end
