(* ===== verification/Pm_Order_Index.thy ===== *)
theory Pm_Order_Index
  imports Pm_Order_Entry
begin

text \<open>
  The order table's storage, \<open>crates/reap-pm-state/src/order_state/dense_index.rs\<close>: rows in
  arrival order with a canonical index, sorted by venue and client key, and an index of the rows
  that carry a client key.  Every operation is modelled with its panics; the invariant rules them
  out and shows that the indexes find exactly what a search of the rows would find.
\<close>

section \<open>The state and its index operations\<close>

record PmOrderCounters =
  oc_registrations :: u64
  oc_observations :: u64
  oc_duplicates :: u64
  oc_stale :: u64
  oc_terminal_releases :: u64
  oc_retained_missing :: u64
  oc_unmanaged :: u64
  oc_ambiguous :: u64
  oc_capacity_failures :: u64
  oc_contract_violations :: u64

record PmOrderState =
  os_entries :: "OrderEntry list"
  os_canonical_index :: "u16 list"
  os_client_index :: "u16 list"
  os_live_count :: u16
  os_latest_snapshot_revision :: "SnapshotRevision option"
  os_latest_snapshot_completion :: "PmPrivateOccurrence option"
  os_observed_monotonic_ns :: "u64 option"
  os_counters :: PmOrderCounters

definition PmOrderState_new :: PmOrderState where
  "PmOrderState_new =
     \<lparr>os_entries = [], os_canonical_index = [], os_client_index = [], os_live_count = 0,
      os_latest_snapshot_revision = None, os_latest_snapshot_completion = None,
      os_observed_monotonic_ns = None,
      os_counters = \<lparr>oc_registrations = 0, oc_observations = 0, oc_duplicates = 0, oc_stale = 0,
        oc_terminal_releases = 0, oc_retained_missing = 0, oc_unmanaged = 0, oc_ambiguous = 0,
        oc_capacity_failures = 0, oc_contract_violations = 0\<rparr>\<rparr>"

datatype OrderOverlap = NoOverlap | One nat | Bridge nat nat

primrec slot_entries :: "'e list \<Rightarrow> u16 list \<Rightarrow> 'e list option" where
  "slot_entries es [] = Some []"
| "slot_entries es (slot # ix) =
     expect (slot_entry es slot) (\<lambda>e. expect (slot_entries es ix) (\<lambda>rest. Some (e # rest)))"

definition canonical_entries :: "PmOrderState \<Rightarrow> OrderEntry list option" where
  "canonical_entries s = slot_entries (os_entries s) (os_canonical_index s)"

definition canonical_insertion_position ::
    "PmOrderState \<Rightarrow> OrderEntry \<Rightarrow> (nat, PmOrderStateError) result option" where
  "canonical_insertion_position s entry =
     expect (binary_search_try (\<lambda>slot. expect (slot_entry (os_entries s) slot) (\<lambda>e. Some (compare_entries e entry)))
         (os_canonical_index s)) (\<lambda>r.
       case r of Ok _ \<Rightarrow> Some (Err IdentityConflict) | Err position \<Rightarrow> Some (Ok position))"

definition entry_client :: "OrderEntry \<Rightarrow> PmClientOrderKey option" where
  "entry_client e = client_order_key (oe_identity e)"

definition entry_venue :: "OrderEntry \<Rightarrow> PmVenueOrderKey option" where
  "entry_venue e = venue_order_key (oe_identity e)"

definition client_search :: "PmOrderState \<Rightarrow> PmClientOrderKey \<Rightarrow> (nat \<times> nat, nat) result option" where
  "client_search s client =
     expect (index_search entry_client (os_entries s) (os_client_index s) client) (\<lambda>r.
       case r of
         Ok position \<Rightarrow>
           expect (nth_entry (os_client_index s) position) (\<lambda>slot. Some (Ok (position, unat slot)))
       | Err position \<Rightarrow> Some (Err position))"

definition client_insertion_position ::
    "PmOrderState \<Rightarrow> OrderEntry \<Rightarrow> (nat option, PmOrderStateError) result option" where
  "client_insertion_position s entry =
     (case entry_client entry of
        None \<Rightarrow> Some (Ok None)
      | Some client \<Rightarrow>
          expect (client_search s client) (\<lambda>r.
            case r of Ok _ \<Rightarrow> Some (Err IdentityConflict) | Err position \<Rightarrow> Some (Ok (Some position))))"

definition insert_at_index_positions ::
    "PmOrderState \<Rightarrow> nat \<Rightarrow> nat option \<Rightarrow> OrderEntry \<Rightarrow> PmOrderState option" where
  "insert_at_index_positions s canonical_position client_position entry =
     expect (slot_of (length (os_entries s))) (\<lambda>dense_slot.
     expect (if is_live entry then checked_add_word (os_live_count s) 1 else Some (os_live_count s)) (\<lambda>live.
     expect (insert_slot canonical_position dense_slot (os_canonical_index s)) (\<lambda>canonical.
     expect (case client_position of
               None \<Rightarrow> Some (os_client_index s)
             | Some position \<Rightarrow> insert_slot position dense_slot (os_client_index s)) (\<lambda>client.
       Some (s\<lparr>os_entries := os_entries s @ [entry], os_canonical_index := canonical,
               os_client_index := client, os_live_count := live\<rparr>)))))"

definition insert_ordered :: "PmOrderState \<Rightarrow> OrderEntry \<Rightarrow> (PmOrderState, unit, PmOrderStateError) outcome" where
  "insert_ordered s entry =
     try_check s (canonical_insertion_position s entry) (\<lambda>canonical_position.
     try_check s (client_insertion_position s entry) (\<lambda>client_position.
     expect (insert_at_index_positions s canonical_position client_position entry) (\<lambda>s. Some (s, Ok ()))))"

definition live_transition :: "bool \<Rightarrow> bool \<Rightarrow> u16 \<Rightarrow> u16 option" where
  "live_transition was_live now_live live_count =
     (case (was_live, now_live) of
        (False, True) \<Rightarrow> checked_add_word live_count 1
      | (True, False) \<Rightarrow> checked_sub_word live_count 1
      | _ \<Rightarrow> Some live_count)"

text \<open>The client index after a replacement: the old slot taken out, the new one put in.\<close>

definition move_client_slot :: "nat \<Rightarrow> nat option \<Rightarrow> nat option \<Rightarrow> u16 list \<Rightarrow> u16 list option" where
  "move_client_slot dense_slot old_position new_position ix =
     (case old_position of
        None \<Rightarrow>
          (case new_position of
             None \<Rightarrow> Some ix
           | Some position \<Rightarrow> expect (slot_of dense_slot) (\<lambda>slot. insert_slot position slot ix))
      | Some old \<Rightarrow>
          expect (nth_entry ix old) (\<lambda>slot. expect (remove_slot old ix) (\<lambda>ix.
            case new_position of None \<Rightarrow> Some ix | Some position \<Rightarrow> insert_slot position slot ix)))"

definition replacement_client_position ::
    "PmOrderState \<Rightarrow> nat option \<Rightarrow> PmClientOrderKey option \<Rightarrow> PmClientOrderKey option
      \<Rightarrow> (nat option, PmOrderStateError) result option" where
  "replacement_client_position s old_position current replacement =
     (if current = replacement then Some (Ok old_position)
      else case replacement of
             None \<Rightarrow> Some (Ok None)
           | Some client \<Rightarrow>
               expect (client_search s client) (\<lambda>r.
                 case r of
                   Ok _ \<Rightarrow> Some (Err IdentityConflict)
                 | Err position \<Rightarrow>
                     Some (Ok (Some (if is_some_and (\<lambda>old. old < position) old_position
                                     then position - 1 else position)))))"

definition owned_client_position :: "PmOrderState \<Rightarrow> PmClientOrderKey option \<Rightarrow> nat option option" where
  "owned_client_position s client =
     (case client of
        None \<Rightarrow> Some None
      | Some c \<Rightarrow> expect (client_search s c) (\<lambda>r. expect (expect_ok r) (\<lambda>(position, indexed_slot). Some (Some position))))"

definition replace_ordered ::
    "PmOrderState \<Rightarrow> nat \<Rightarrow> OrderEntry \<Rightarrow> (PmOrderState, unit, PmOrderStateError) outcome" where
  "replace_ordered s dense_slot replacement =
     expect (nth_entry (os_entries s) dense_slot) (\<lambda>current.
     expect (position_of (\<lambda>slot. unat slot = dense_slot) (os_canonical_index s)) (\<lambda>old_canonical_position.
     let canonical_key_changed = compare_entries current replacement \<noteq> Equal;
         client_key_changed = entry_client current \<noteq> entry_client replacement
     in
     try_check s
       (if canonical_key_changed then
          try_opt (canonical_insertion_position s replacement) (\<lambda>position.
            Some (Ok (if old_canonical_position < position then position - 1 else position)))
        else Some (Ok old_canonical_position)) (\<lambda>new_canonical_position.
     expect (owned_client_position s (entry_client current)) (\<lambda>old_client_position.
     try_check s
       (replacement_client_position s old_client_position (entry_client current) (entry_client replacement))
       (\<lambda>new_client_position.
     expect (live_transition (is_live current) (is_live replacement) (os_live_count s)) (\<lambda>live.
     expect
       (if canonical_key_changed \<and> new_canonical_position \<noteq> old_canonical_position then
          expect (nth_entry (os_canonical_index s) old_canonical_position) (\<lambda>slot.
          expect (remove_slot old_canonical_position (os_canonical_index s)) (\<lambda>ix.
            insert_slot new_canonical_position slot ix))
        else Some (os_canonical_index s)) (\<lambda>canonical.
     expect
       (if client_key_changed then
          move_client_slot dense_slot old_client_position new_client_position (os_client_index s)
        else Some (os_client_index s)) (\<lambda>client.
       Some (s\<lparr>os_entries := (os_entries s)[dense_slot := replacement], os_canonical_index := canonical,
               os_client_index := client, os_live_count := live\<rparr>, Ok ())))))))))"

definition remove_dense :: "PmOrderState \<Rightarrow> nat \<Rightarrow> (PmOrderState \<times> OrderEntry) option" where
  "remove_dense s dense_slot =
     expect (nth_entry (os_entries s) dense_slot) (\<lambda>removed_entry.
     expect (position_of (\<lambda>slot. unat slot = dense_slot) (os_canonical_index s)) (\<lambda>canonical_position.
     expect (owned_client_position s (entry_client removed_entry)) (\<lambda>client_position.
     expect (remove_slot canonical_position (os_canonical_index s)) (\<lambda>canonical.
     expect (case client_position of
               None \<Rightarrow> Some (os_client_index s)
             | Some position \<Rightarrow> remove_slot position (os_client_index s)) (\<lambda>client.
     let old_last = length (os_entries s) - 1;
         entries = swap_remove dense_slot (os_entries s)
     in
     expect (if is_live removed_entry then checked_sub_word (os_live_count s) 1 else Some (os_live_count s)) (\<lambda>live.
     expect (if dense_slot \<noteq> old_last then redirect old_last dense_slot canonical else Some canonical) (\<lambda>canonical.
     expect (if dense_slot \<noteq> old_last then
               expect (nth_entry entries dense_slot) (\<lambda>moved_entry.
                 if entry_client moved_entry \<noteq> None then redirect old_last dense_slot client else Some client)
             else Some client) (\<lambda>client.
       Some (s\<lparr>os_entries := entries, os_canonical_index := canonical, os_client_index := client,
               os_live_count := live\<rparr>, removed_entry)))))))))"

primrec find_venue_slot :: "OrderEntry list \<Rightarrow> PmVenueOrderKey \<Rightarrow> u16 list \<Rightarrow> nat option option" where
  "find_venue_slot es venue [] = Some None"
| "find_venue_slot es venue (slot # ix) =
     expect (slot_entry es slot) (\<lambda>e.
       if entry_venue e = Some venue then Some (Some (unat slot)) else find_venue_slot es venue ix)"

definition find_venue :: "PmOrderState \<Rightarrow> PmVenueOrderKey option \<Rightarrow> nat option option" where
  "find_venue s venue =
     (case venue of
        None \<Rightarrow> Some None
      | Some key \<Rightarrow> find_venue_slot (os_entries s) key (os_canonical_index s))"

definition find_order :: "PmOrderState \<Rightarrow> PmOrderIdentity \<Rightarrow> nat option option" where
  "find_order s identity =
     (case client_order_key identity of
        None \<Rightarrow> find_venue s (venue_order_key identity)
      | Some client \<Rightarrow>
          expect (client_search s client) (\<lambda>r.
            case r of
              Ok (position, dense_slot) \<Rightarrow> Some (Some dense_slot)
            | Err position \<Rightarrow> find_venue s (venue_order_key identity)))"

primrec overlap_loop ::
    "OrderEntry list \<Rightarrow> PmOrderIdentity \<Rightarrow> nat option \<Rightarrow> nat option \<Rightarrow> u16 list
      \<Rightarrow> (nat option \<times> nat option, PmOrderStateError) result option" where
  "overlap_loop es identity first second [] = Some (Ok (first, second))"
| "overlap_loop es identity first second (slot # ix) =
     expect (slot_entry es slot) (\<lambda>e.
       if \<not> identities_overlap (oe_identity e) identity then overlap_loop es identity first second ix
       else if first = None then overlap_loop es identity (Some (unat slot)) second ix
       else if second = None then overlap_loop es identity first (Some (unat slot)) ix
       else Some (Err IdentityConflict))"

text \<open>\<open>None\<close> also covers the \<open>unreachable!\<close> branch: a second overlap without a first.\<close>

definition overlaps :: "PmOrderState \<Rightarrow> PmOrderIdentity \<Rightarrow> (OrderOverlap, PmOrderStateError) result option" where
  "overlaps s identity =
     try_opt (overlap_loop (os_entries s) identity None None (os_canonical_index s)) (\<lambda>found.
       case found of
         (None, None) \<Rightarrow> Some (Ok NoOverlap)
       | (Some index, None) \<Rightarrow> Some (Ok (One index))
       | (Some first, Some second) \<Rightarrow> Some (Ok (Bridge first second))
       | (None, Some _) \<Rightarrow> None)"

end
