(* ===== verification/Pm_Order_Index_Laws.thy ===== *)
theory Pm_Order_Index_Laws
  imports Pm_Order_Index
begin

text \<open>
  The invariant of the order table's storage and the laws of its operations: both indexes list
  exactly the rows they should in key order, no two rows share a client key or a venue key, the
  live count is exact, and under it every search finds what a scan of the rows finds, every
  insertion, replacement and removal keeps it, and no operation panics.
\<close>

section \<open>The invariant\<close>

definition entry_rank :: "OrderEntry \<Rightarrow> PmVenueOrderKey option \<times> PmClientOrderKey option" where
  "entry_rank e = (entry_venue e, entry_client e)"

definition unique_keys :: "('e \<Rightarrow> 'k option) \<Rightarrow> 'e multiset \<Rightarrow> bool" where
  "unique_keys key M \<longleftrightarrow> (\<forall>k. size {#e \<in># M. key e = Some k#} \<le> 1)"

definition identity_in :: "PmAccountHandle \<Rightarrow> PmOrderIdentity \<Rightarrow> bool" where
  "identity_in account identity \<longleftrightarrow>
     (client_order_key identity \<noteq> None \<or> venue_order_key identity \<noteq> None)
     \<and> (\<forall>c. client_order_key identity = Some c \<longrightarrow> client_account c = account)
     \<and> (\<forall>v. venue_order_key identity = Some v \<longrightarrow> venue_account v = account)"

definition order_inv :: "PmAccountHandle \<Rightarrow> PmOrderState \<Rightarrow> bool" where
  "order_inv account s \<longleftrightarrow>
     index_ok (\<lambda>e. Some (entry_rank e)) (os_entries s) (os_canonical_index s)
     \<and> index_ok entry_client (os_entries s) (os_client_index s)
     \<and> unique_keys entry_venue (mset (os_entries s))
     \<and> unat (os_live_count s) = length (filter is_live (os_entries s))
     \<and> length (os_entries s) \<le> MAX_PM_PRIVATE_ORDERS
     \<and> (\<forall>e\<in>set (os_entries s). identity_in account (oe_identity e))"

text \<open>The fields the index operations leave alone.\<close>

definition os_rest where
  "os_rest s = (os_latest_snapshot_revision s, os_latest_snapshot_completion s, os_observed_monotonic_ns s, os_counters s)"

lemma identities_overlap_iff:
  "identities_overlap l r \<longleftrightarrow>
     (\<exists>c. client_order_key l = Some c \<and> client_order_key r = Some c)
     \<or> (\<exists>v. venue_order_key l = Some v \<and> venue_order_key r = Some v)"
  by (auto simp: identities_overlap_def split: option.splits)

lemma compare_entries_rank: "compare_entries a b = compare_of (entry_rank a) (entry_rank b)"
  by (auto simp: compare_entries_def ordering_then_def compare_of_def entry_rank_def entry_venue_def entry_client_def)

lemma unique_keys_add:
  "unique_keys key (add_mset e M) \<longleftrightarrow>
     unique_keys key M \<and> (\<forall>k. key e = Some k \<longrightarrow> (\<forall>e'\<in>#M. key e' \<noteq> Some k))"
proof -
  have none: "size {#e' \<in># M. key e' = Some k#} = 0 \<longleftrightarrow> (\<forall>e'\<in>#M. key e' \<noteq> Some k)" for k
    by (induction M) auto
  have "unique_keys key (add_mset e M) \<longleftrightarrow>
      (\<forall>k. size {#e' \<in># M. key e' = Some k#} \<le> 1 \<and> (key e = Some k \<longrightarrow> size {#e' \<in># M. key e' = Some k#} = 0))"
    unfolding unique_keys_def
  proof (intro all_cong1)
    fix k
    define n where "n = size {#e' \<in># M. key e' = Some k#}"
    have "size {#e' \<in># add_mset e M. key e' = Some k#} = (if key e = Some k then Suc n else n)"
      by (simp add: n_def)
    then show "size {#e' \<in># add_mset e M. key e' = Some k#} \<le> 1 \<longleftrightarrow>
        size {#e' \<in># M. key e' = Some k#} \<le> 1 \<and> (key e = Some k \<longrightarrow> size {#e' \<in># M. key e' = Some k#} = 0)"
      unfolding n_def [symmetric] by auto
  qed
  then show ?thesis unfolding none unique_keys_def by blast
qed

lemma index_ok_unique_keys:
  assumes "index_ok key es ix" shows "unique_keys key (mset es)"
  unfolding unique_keys_def
proof
  fix k
  have "card {i. i < length es \<and> key (es ! i) = Some k} \<le> 1"
    by (rule card_le_Suc0_iff_eq [THEN iffD2, unfolded One_nat_def [symmetric]])
      (use index_ok_unique [OF assms] in auto)
  then show "size {#e \<in># mset es. key e = Some k#} \<le> 1"
    by (simp add: mset_filter [symmetric] length_filter_conv_card del: mset_filter)
qed

lemma unique_keys_nth:
  assumes "unique_keys key (mset es)" "i < length es" "j < length es" "key (es ! i) = Some k" "key (es ! j) = Some k"
  shows "i = j"
proof (rule ccontr)
  assume "i \<noteq> j"
  then have "{i, j} \<subseteq> {n. n < length es \<and> key (es ! n) = Some k}" "card {i, j} = 2" using assms by auto
  then have "2 \<le> length (filter (\<lambda>e. key e = Some k) es)"
    using card_mono [of "{n. n < length es \<and> key (es ! n) = Some k}" "{i, j}"]
    by (simp add: length_filter_conv_card)
  moreover have "length (filter (\<lambda>e. key e = Some k) es) \<le> 1"
    using assms(1) unfolding unique_keys_def by (metis mset_filter size_mset)
  ultimately show False by simp
qed


section \<open>Searching\<close>

lemma canonical_insertion_position_eq:
  "canonical_insertion_position s entry =
     expect (index_search (\<lambda>e. Some (entry_rank e)) (os_entries s) (os_canonical_index s) (entry_rank entry)) (\<lambda>r.
       case r of Ok _ \<Rightarrow> Some (Err IdentityConflict) | Err position \<Rightarrow> Some (Ok position))"
  by (simp add: canonical_insertion_position_def index_search_def compare_entries_rank)

lemma order_inv_canonical: "order_inv account s \<Longrightarrow> index_ok (\<lambda>e. Some (entry_rank e)) (os_entries s) (os_canonical_index s)"
  and order_inv_client: "order_inv account s \<Longrightarrow> index_ok entry_client (os_entries s) (os_client_index s)"
  by (simp_all add: order_inv_def)

lemma order_inv_small: "order_inv account s \<Longrightarrow> length (os_entries s) < 65536"
  by (simp add: order_inv_def MAX_PM_PRIVATE_ORDERS_def MAX_PM_RECONCILIATION_ORDERS_def)

lemma order_inv_unique:
  assumes "order_inv account s"
  shows "unique_keys entry_client (mset (os_entries s))" "unique_keys entry_venue (mset (os_entries s))"
  using assms index_ok_unique_keys [OF order_inv_client] by (simp_all add: order_inv_def)

lemma client_search_cases:
  assumes "order_inv account s"
  obtains (found) p i where "client_search s c = Some (Ok (p, i))" "i < length (os_entries s)"
      "entry_client (os_entries s ! i) = Some c" "p < length (os_client_index s)" "unat (os_client_index s ! p) = i"
  | (absent) p where "client_search s c = Some (Err p)" "insertion_point entry_client (os_entries s) (os_client_index s) c p"
  using order_inv_client [OF assms]
proof (cases rule: index_search_cases [where k = c])
  case (found p)
  then show thesis
    by (intro that(1) [of p "unat (os_client_index s ! p)"]) (simp_all add: client_search_def nth_entry_def)
next
  case (absent p)
  then show thesis by (intro that(2) [of p]) (simp_all add: client_search_def)
qed

lemma client_search_slot:
  assumes "order_inv account s" "i < length (os_entries s)" "entry_client (os_entries s ! i) = Some c"
  obtains p where "client_search s c = Some (Ok (p, i))" "p < length (os_client_index s)" "unat (os_client_index s ! p) = i"
  by (rule index_search_slot [OF order_inv_client [OF assms(1)] assms(2,3)])
    (use that in \<open>simp add: client_search_def nth_entry_def\<close>)

lemma owned_client_position_eq:
  assumes "order_inv account s" "i < length (os_entries s)"
  obtains "entry_client (os_entries s ! i) = None" "owned_client_position s (entry_client (os_entries s ! i)) = Some None"
  | c p where "entry_client (os_entries s ! i) = Some c"
      "owned_client_position s (entry_client (os_entries s ! i)) = Some (Some p)"
      "p < length (os_client_index s)" "unat (os_client_index s ! p) = i"
proof (cases "entry_client (os_entries s ! i)")
  case None
  then show thesis using that(1) by (simp add: owned_client_position_def)
next
  case (Some c)
  obtain p where "client_search s c = Some (Ok (p, i))" "p < length (os_client_index s)" "unat (os_client_index s ! p) = i"
    by (rule client_search_slot [OF assms Some])
  with Some show thesis using that(2) [of c p] by (simp add: owned_client_position_def)
qed

text \<open>A new identity belongs somewhere in both indexes.\<close>

definition fresh_identity :: "OrderEntry list \<Rightarrow> PmOrderIdentity \<Rightarrow> bool" where
  "fresh_identity es identity \<longleftrightarrow> (\<forall>e\<in>set es. \<not> identities_overlap (oe_identity e) identity)"

lemma fresh_keys:
  assumes "\<not> identities_overlap (oe_identity e) (oe_identity r)"
  shows "entry_client r = Some c \<Longrightarrow> entry_client e \<noteq> Some c" "entry_venue r = Some v \<Longrightarrow> entry_venue e \<noteq> Some v"
    "identity_in account (oe_identity r) \<Longrightarrow> entry_rank e \<noteq> entry_rank r"
  using assms by (auto simp: identities_overlap_iff entry_client_def entry_venue_def entry_rank_def identity_in_def)

lemma canonical_position_fresh:
  assumes "order_inv account s" "\<forall>e\<in>set (os_entries s). entry_rank e \<noteq> entry_rank r"
  obtains p where "canonical_insertion_position s r = Some (Ok p)"
    "insertion_point (\<lambda>e. Some (entry_rank e)) (os_entries s) (os_canonical_index s) (entry_rank r) p"
  using order_inv_canonical [OF assms(1)]
proof (cases rule: index_search_cases [where k = "entry_rank r"])
  case (found p)
  then show thesis using assms(2) by auto
next
  case (absent p)
  then show thesis using that [of p] by (simp add: canonical_insertion_position_eq)
qed

lemma client_search_fresh:
  assumes "order_inv account s" "\<forall>e\<in>set (os_entries s). entry_client e \<noteq> Some c"
  obtains p where "client_search s c = Some (Err p)"
    "insertion_point entry_client (os_entries s) (os_client_index s) c p"
  using assms(1)
proof (cases rule: client_search_cases [where c = c])
  case (found p i)
  then show thesis using assms(2) by auto
qed (rule that)

section \<open>Insertion\<close>

lemma length_filter_snoc: "length (filter P (xs @ [x])) = length (filter P xs) + (if P x then 1 else 0)"
  by simp

lemma checked_inc_live:
  assumes "unat (n :: u16) = m" "m < 65535"
  shows "checked_add_word n 1 = Some (n + 1)" "unat (n + 1) = Suc m"
proof -
  have "unat n + 1 < 2 ^ LENGTH(16)" using assms by simp
  then show "checked_add_word n 1 = Some (n + 1)" "unat (n + 1) = Suc m"
    using assms by (simp_all add: checked_add_word_def unat_word_ariths)
qed

lemma insert_ordered_ok:
  assumes inv: "order_inv account s" and room: "length (os_entries s) < MAX_PM_PRIVATE_ORDERS"
    and id: "identity_in account (oe_identity r)" and new: "fresh_identity (os_entries s) (oe_identity r)"
  obtains s' where "insert_ordered s r = Some (s', Ok ())" "order_inv account s'"
    "os_entries s' = os_entries s @ [r]" "os_rest s' = os_rest s"
proof -
  let ?es = "os_entries s"
  have keys: "\<forall>e\<in>set ?es. \<not> identities_overlap (oe_identity e) (oe_identity r)"
    using new by (simp add: fresh_identity_def)
  have small: "length ?es < 65536" using inv by (rule order_inv_small)
  obtain p where p: "canonical_insertion_position s r = Some (Ok p)"
    "insertion_point (\<lambda>e. Some (entry_rank e)) ?es (os_canonical_index s) (entry_rank r) p"
    by (rule canonical_position_fresh [OF inv, of r]) (use keys fresh_keys(3) id in blast)+
  have canonical: "index_ok (\<lambda>e. Some (entry_rank e)) (?es @ [r]) (vec_insert p (of_nat (length ?es)) (os_canonical_index s))"
    by (rule index_ok_push_keyed [OF order_inv_canonical [OF inv] p(2) _ small]) simp
  have live: "length (filter is_live ?es) < 65535"
    by (rule le_less_trans [OF length_filter_le])
      (use room in \<open>simp add: MAX_PM_PRIVATE_ORDERS_def MAX_PM_RECONCILIATION_ORDERS_def\<close>)
  let ?live = "if is_live r then os_live_count s + 1 else os_live_count s"
  have n: "unat (os_live_count s) = length (filter is_live ?es)" using inv by (simp add: order_inv_def)
  have count: "(if is_live r then checked_add_word (os_live_count s) 1 else Some (os_live_count s)) = Some ?live"
    "unat ?live = length (filter is_live (?es @ [r]))"
    using checked_inc_live [OF n live] n by auto
  have venue: "unique_keys entry_venue (mset (?es @ [r]))"
    using order_inv_unique(2) [OF inv] keys fresh_keys(2) by (fastforce simp: unique_keys_add)
  obtain q ki where q: "client_insertion_position s r = Some (Ok q)"
    "(case q of None \<Rightarrow> Some (os_client_index s)
      | Some position \<Rightarrow> insert_slot position (of_nat (length ?es)) (os_client_index s)) = Some ki"
    "index_ok entry_client (?es @ [r]) ki"
  proof (cases "entry_client r")
    case None
    then show thesis
      using that [of None] index_ok_push_unkeyed [OF order_inv_client [OF inv] None]
      by (simp add: client_insertion_position_def)
  next
    case (Some c)
    obtain q where q: "client_search s c = Some (Err q)" "insertion_point entry_client ?es (os_client_index s) c q"
      by (rule client_search_fresh [OF inv, of c]) (use keys fresh_keys(1) Some in blast)+
    then show thesis
      using that [of "Some q"] index_ok_push_keyed [OF order_inv_client [OF inv] q(2) Some small] Some
      by (simp add: client_insertion_position_def insert_slot_def insertion_point_def)
  qed
  let ?s = "s\<lparr>os_entries := ?es @ [r], os_canonical_index := vec_insert p (of_nat (length ?es)) (os_canonical_index s),
    os_client_index := ki, os_live_count := ?live\<rparr>"
  have "insert_at_index_positions s p q r = Some ?s"
    using p(2) q(2) count(1) small
    by (simp add: insert_at_index_positions_def slot_of_def insert_slot_def [of p] insertion_point_def)
  then have "insert_ordered s r = Some (?s, Ok ())" using p(1) q(1) by (simp add: insert_ordered_def)
  moreover have "order_inv account ?s"
    using inv canonical q(3) venue count(2) room id by (simp add: order_inv_def)
  ultimately show thesis using that [of ?s] by (simp add: os_rest_def)
qed

section \<open>Replacement\<close>

lemma vec_reinsert: "p < length xs \<Longrightarrow> vec_insert p (xs ! p) (vec_remove p xs) = xs"
  by (erule nth_split) simp

lemma moved_bound: "p < n \<Longrightarrow> q \<le> n \<Longrightarrow> moved p q \<le> n - 1"
  by (auto simp: moved_def)

lemma move_slot:
  assumes "p < length ix" "q \<le> length ix"
  shows "expect (nth_entry ix p) (\<lambda>slot. expect (remove_slot p ix) (\<lambda>ix'. insert_slot (moved p q) slot ix'))
    = Some (vec_insert (moved p q) (ix ! p) (vec_remove p ix))"
  using assms moved_bound [OF assms] by (simp add: nth_entry_def remove_slot_def insert_slot_def)

lemma index_position:
  assumes "index_ok key es ix" "i < length es" "key (es ! i) \<noteq> None"
  obtains p where "position_of (\<lambda>slot. unat slot = i) ix = Some p" "p < length ix" "unat (ix ! p) = i"
proof -
  obtain q where "q < length ix" "unat (ix ! q) = i" by (rule index_ok_covers [OF assms])
  then obtain p where p: "position_of (\<lambda>slot. unat slot = i) ix = Some p"
    using position_of_exists [of "ix ! q" ix "\<lambda>slot. unat slot = i"] by auto
  then show thesis using that [of p] position_of_Some [OF p] by simp
qed

lemma replace_canonical:
  assumes inv: "order_inv account s" and i: "i < length (os_entries s)"
    and others: "\<forall>j<length (os_entries s). j \<noteq> i \<longrightarrow> entry_rank (os_entries s ! j) \<noteq> entry_rank r"
    and cp: "cp < length (os_canonical_index s)" "unat (os_canonical_index s ! cp) = i"
  obtains p ci where
    "(if compare_entries (os_entries s ! i) r \<noteq> Equal then
        try_opt (canonical_insertion_position s r) (\<lambda>position. Some (Ok (if cp < position then position - 1 else position)))
      else Some (Ok cp)) = Some (Ok p)"
    "(if compare_entries (os_entries s ! i) r \<noteq> Equal \<and> p \<noteq> cp then
        expect (nth_entry (os_canonical_index s) cp) (\<lambda>slot.
        expect (remove_slot cp (os_canonical_index s)) (\<lambda>ix. insert_slot p slot ix))
      else Some (os_canonical_index s)) = Some ci"
    "index_ok (\<lambda>e. Some (entry_rank e)) ((os_entries s)[i := r]) ci"
proof (cases "compare_entries (os_entries s ! i) r = Equal")
  case True
  then have "entry_rank r = entry_rank (os_entries s ! i)" by (simp add: compare_entries_rank)
  then have "index_ok (\<lambda>e. Some (entry_rank e)) ((os_entries s)[i := r]) (os_canonical_index s)"
    by (intro index_ok_replace_same [OF order_inv_canonical [OF inv] i]) simp
  then show thesis using True that [of cp "os_canonical_index s"] by simp
next
  case False
  have "\<forall>e\<in>set (os_entries s). entry_rank e \<noteq> entry_rank r"
    unfolding all_set_conv_all_nth using others False by (metis compare_entries_rank compare_of_simps(2))
  then obtain q where q: "canonical_insertion_position s r = Some (Ok q)"
    "insertion_point (\<lambda>e. Some (entry_rank e)) (os_entries s) (os_canonical_index s) (entry_rank r) q"
    by (rule canonical_position_fresh [OF inv])
  let ?ci = "vec_insert (moved cp q) (os_canonical_index s ! cp) (vec_remove cp (os_canonical_index s))"
  have "index_ok (\<lambda>e. Some (entry_rank e)) ((os_entries s)[i := r]) ?ci"
    by (rule index_ok_rekey [OF order_inv_canonical [OF inv] cp _ q(2)]) simp
  moreover have "q \<le> length (os_canonical_index s)" using q(2) by (simp add: insertion_point_def)
  ultimately show thesis
    using False q(1) that [of "moved cp q" ?ci] move_slot [OF cp(1), of q] vec_reinsert [OF cp(1)]
    by (simp add: moved_def [symmetric])
qed

lemma replace_client:
  assumes inv: "order_inv account s" and i: "i < length (os_entries s)"
    and others: "\<forall>j<length (os_entries s). j \<noteq> i \<longrightarrow> (\<forall>c. entry_client r = Some c \<longrightarrow> entry_client (os_entries s ! j) \<noteq> Some c)"
  obtains old p ki where "owned_client_position s (entry_client (os_entries s ! i)) = Some old"
    "replacement_client_position s old (entry_client (os_entries s ! i)) (entry_client r) = Some (Ok p)"
    "(if entry_client (os_entries s ! i) \<noteq> entry_client r then move_client_slot i old p (os_client_index s)
      else Some (os_client_index s)) = Some ki"
    "index_ok entry_client ((os_entries s)[i := r]) ki"
proof -
  note ok = order_inv_client [OF inv]
  have small: "i < 65536" using i order_inv_small [OF inv] by simp
  obtain old where old: "owned_client_position s (entry_client (os_entries s ! i)) = Some old"
    "old = None \<Longrightarrow> entry_client (os_entries s ! i) = None"
    "\<And>p. old = Some p \<Longrightarrow> p < length (os_client_index s) \<and> unat (os_client_index s ! p) = i"
    by (rule owned_client_position_eq [OF inv i]) auto
  show thesis
  proof (cases "entry_client (os_entries s ! i) = entry_client r")
    case True
    then show thesis
      using that [OF old(1)] index_ok_replace_same [OF ok i] by (simp add: replacement_client_position_def)
  next
    case changed: False
    show thesis
    proof (cases "entry_client r")
      case None
      with changed obtain p where p: "old = Some p" using old(2) by (cases old) auto
      then have "index_ok entry_client ((os_entries s)[i := r]) (vec_remove p (os_client_index s))"
        using old(3) None by (intro index_ok_unkey [OF ok]) auto
      then show thesis
        using that [OF old(1), of None] changed None p old(3) [OF p]
        by (simp add: replacement_client_position_def move_client_slot_def nth_entry_def remove_slot_def)
    next
      case (Some c)
      have "\<forall>e\<in>set (os_entries s). entry_client e \<noteq> Some c"
        unfolding all_set_conv_all_nth using others changed Some by metis
      then obtain q where q: "client_search s c = Some (Err q)"
        "insertion_point entry_client (os_entries s) (os_client_index s) c q"
        by (rule client_search_fresh [OF inv])
      have qb: "q \<le> length (os_client_index s)" using q(2) by (simp add: insertion_point_def)
      show thesis
      proof (cases old)
        case None
        then have "index_ok entry_client ((os_entries s)[i := r]) (vec_insert q (of_nat i) (os_client_index s))"
          by (intro index_ok_newkey [OF ok i small old(2) Some q(2)])
        then show thesis
          using that [OF old(1), of "Some q"] changed Some None q(1) qb small
          by (simp add: replacement_client_position_def move_client_slot_def slot_of_def insert_slot_def)
      next
        case p: (Some p)
        have pb: "p < length (os_client_index s)" "unat (os_client_index s ! p) = i" using old(3) [OF p] by auto
        have "index_ok entry_client ((os_entries s)[i := r])
            (vec_insert (moved p q) (os_client_index s ! p) (vec_remove p (os_client_index s)))"
          by (rule index_ok_rekey [OF ok pb Some q(2)])
        then show thesis
          using that [OF old(1), of "Some (moved p q)"] changed Some p q(1) move_slot [OF pb(1) qb]
          by (simp add: replacement_client_position_def move_client_slot_def moved_def)
      qed
    qed
  qed
qed

lemma update_split:
  assumes "i < length xs"
  obtains R where "mset xs = add_mset (xs ! i) R" "\<And>x. mset (xs[i := x]) = add_mset x R"
    "\<forall>e\<in>#R. \<exists>j<length xs. j \<noteq> i \<and> e = xs ! j"
proof (rule nth_split [OF assms])
  fix ys y zs assume xs: "xs = ys @ y # zs" "i = length ys" "xs ! i = y"
  have "\<exists>j<length xs. j \<noteq> i \<and> e = xs ! j" if "e \<in># mset (ys @ zs)" for e
  proof -
    have "e \<in> set ys \<or> e \<in> set zs" using that by simp
    then show ?thesis
    proof
      assume "e \<in> set ys"
      then obtain j where "j < length ys" "e = ys ! j" by (auto simp: in_set_conv_nth)
      then show ?thesis using xs by (intro exI [of _ j]) (simp add: nth_append)
    next
      assume "e \<in> set zs"
      then obtain j where "j < length zs" "e = zs ! j" by (auto simp: in_set_conv_nth)
      then show ?thesis using xs by (intro exI [of _ "Suc (length ys + j)"]) (simp add: nth_append)
    qed
  qed
  then show thesis using xs by (intro that [of "mset (ys @ zs)"]) (auto simp: list_update_append)
qed

lemma length_filter_mset: "length (filter P xs) = size (filter_mset P (mset xs))"
  by (metis mset_filter size_mset)

lemma live_transition_ok:
  assumes n: "unat (n :: u16) = a + (if before then 1 else 0)" and "a < 65535"
  obtains m where "live_transition before after n = Some m" "unat m = a + (if after then 1 else 0)"
proof (cases "before = after")
  case True
  then show thesis using that [of n] n by (simp add: live_transition_def split: bool.splits)
next
  case False
  show thesis
  proof (cases after)
    case True
    with False n assms(2) have "unat n = a" "a < 65535" by simp_all
    note inc = checked_inc_live [OF this]
    with True False show thesis using that [of "n + 1"] by (simp add: live_transition_def)
  next
    case after: False
    with False n have "unat n = Suc a" by simp
    then have "1 \<le> n" "unat (n - 1) = a"
      by (simp_all add: word_le_nat_alt unat_sub)
    with after False show thesis using that [of "n - 1"] by (simp add: live_transition_def checked_sub_word_def)
  qed
qed

lemma replace_ordered_ok:
  assumes inv: "order_inv account s" and i: "i < length (os_entries s)"
    and id: "identity_in account (oe_identity r)"
    and others: "\<forall>j<length (os_entries s). j \<noteq> i \<longrightarrow> \<not> identities_overlap (oe_identity (os_entries s ! j)) (oe_identity r)"
  obtains s' where "replace_ordered s i r = Some (s', Ok ())" "order_inv account s'"
    "os_entries s' = (os_entries s)[i := r]" "os_rest s' = os_rest s"
proof -
  let ?es = "os_entries s"
  obtain cp where cp: "position_of (\<lambda>slot. unat slot = i) (os_canonical_index s) = Some cp"
    "cp < length (os_canonical_index s)" "unat (os_canonical_index s ! cp) = i"
    by (rule index_position [OF order_inv_canonical [OF inv] i]) simp
  have ranks: "\<forall>j<length ?es. j \<noteq> i \<longrightarrow> entry_rank (?es ! j) \<noteq> entry_rank r"
    using others fresh_keys(3) id by blast
  obtain p ci where ci:
    "(if compare_entries (?es ! i) r \<noteq> Equal then
        try_opt (canonical_insertion_position s r) (\<lambda>position. Some (Ok (if cp < position then position - 1 else position)))
      else Some (Ok cp)) = Some (Ok p)"
    "(if compare_entries (?es ! i) r \<noteq> Equal \<and> p \<noteq> cp then
        expect (nth_entry (os_canonical_index s) cp) (\<lambda>slot.
        expect (remove_slot cp (os_canonical_index s)) (\<lambda>ix. insert_slot p slot ix))
      else Some (os_canonical_index s)) = Some ci"
    "index_ok (\<lambda>e. Some (entry_rank e)) (?es[i := r]) ci"
    by (rule replace_canonical [OF inv i ranks cp(2,3)])
  obtain old q ki where ki: "owned_client_position s (entry_client (?es ! i)) = Some old"
    "replacement_client_position s old (entry_client (?es ! i)) (entry_client r) = Some (Ok q)"
    "(if entry_client (?es ! i) \<noteq> entry_client r then move_client_slot i old q (os_client_index s)
      else Some (os_client_index s)) = Some ki"
    "index_ok entry_client (?es[i := r]) ki"
    by (rule replace_client [OF inv i, of r]) (use others fresh_keys(1) in blast)+
  obtain R where R: "mset ?es = add_mset (?es ! i) R" "mset (?es[i := r]) = add_mset r R"
    "\<forall>e\<in>#R. \<exists>j<length ?es. j \<noteq> i \<and> e = ?es ! j"
    using update_split [OF i] by metis
  have "size (filter_mset is_live R) \<le> size R" by (rule size_filter_mset_lesseq)
  also have "\<dots> < 65535"
    using arg_cong [OF R(1), of size] order_inv_small [OF inv] by simp
  finally have small: "size (filter_mset is_live R) < 65535" .
  have n: "unat (os_live_count s) = size (filter_mset is_live R) + (if is_live (?es ! i) then 1 else 0)"
    using inv by (simp add: order_inv_def length_filter_mset R(1))
  obtain live where live: "live_transition (is_live (?es ! i)) (is_live r) (os_live_count s) = Some live"
    "unat live = size (filter_mset is_live R) + (if is_live r then 1 else 0)"
    by (rule live_transition_ok [OF n small])
  have venue: "unique_keys entry_venue (mset (?es[i := r]))"
    using order_inv_unique(2) [OF inv] R(3) others fresh_keys(2) unfolding R(1,2) unique_keys_add by metis
  let ?s = "s\<lparr>os_entries := ?es[i := r], os_canonical_index := ci, os_client_index := ki, os_live_count := live\<rparr>"
  have "replace_ordered s i r = Some (?s, Ok ())"
    unfolding replace_ordered_def
    by (simp only: Let_def nth_entry_def [of ?es] i if_True panic_simps cp(1) ci(1,2) ki(1,2,3) live(1))
  moreover have "order_inv account ?s"
    using inv ci(3) ki(4) venue live(2) id i
    by (auto simp: order_inv_def length_filter_mset R(2) dest!: set_update_subset_insert [THEN subsetD])
  ultimately show thesis using that [of ?s] by (simp add: os_rest_def)
qed

section \<open>Removal\<close>

lemma swap_remove_index:
  assumes d: "distinct ix" and cov: "unat ` set ix = {j. j < length es \<and> key (es ! j) \<noteq> None \<and> j \<noteq> i}"
    and srt: "sorted_by_key compare_of (\<lambda>e. the (key e)) (view es ix)" and i: "i < length es" "length es \<le> 65536"
  obtains ix' where
    "(if i \<noteq> length es - 1 then
        expect (nth_entry (swap_remove i es) i) (\<lambda>e. if key e \<noteq> None then redirect (length es - 1) i ix else Some ix)
      else Some ix) = Some ix'"
    "index_ok key (swap_remove i es) ix'"
proof (cases "i = length es - 1 \<or> key (es ! (length es - 1)) = None")
  case True
  have "index_ok key (swap_remove i es) ix" by (rule index_swap_kept [OF d cov srt i(1) True])
  moreover have "nth_entry (swap_remove i es) i = Some (es ! (length es - 1))" if "i \<noteq> length es - 1"
    using that i by (simp add: nth_entry_def swap_remove_nth)
  ultimately show thesis using True by (intro that [of ix]) auto
next
  case False
  then have moves: "i \<noteq> length es - 1" "key (es ! (length es - 1)) \<noteq> None" by auto
  obtain ix' where "redirect (length es - 1) i ix = Some ix'" "index_ok key (swap_remove i es) ix'"
    by (rule index_swap_moved [OF d cov srt i moves])
  with moves i show thesis using that [of ix'] by (simp add: nth_entry_def swap_remove_nth)
qed

lemma remove_client:
  assumes inv: "order_inv account s" and i: "i < length (os_entries s)"
  obtains old ki where "owned_client_position s (entry_client (os_entries s ! i)) = Some old"
    "(case old of None \<Rightarrow> Some (os_client_index s) | Some position \<Rightarrow> remove_slot position (os_client_index s)) = Some ki"
    "distinct ki" "sorted_by_key compare_of (\<lambda>e. the (entry_client e)) (view (os_entries s) ki)"
    "unat ` set ki = {j. j < length (os_entries s) \<and> entry_client (os_entries s ! j) \<noteq> None \<and> j \<noteq> i}"
proof (rule owned_client_position_eq [OF inv i])
  note ok = order_inv_client [OF inv]
  assume "entry_client (os_entries s ! i) = None"
    and "owned_client_position s (entry_client (os_entries s ! i)) = Some None"
  with ok show thesis by (intro that [of None "os_client_index s"]) (auto simp: index_ok_def)
next
  note ok = order_inv_client [OF inv]
  fix c p
  assume "owned_client_position s (entry_client (os_entries s ! i)) = Some (Some p)"
    and p: "p < length (os_client_index s)" "unat (os_client_index s ! p) = i"
  with index_without [OF ok p(1)] show thesis
    by (intro that [of "Some p" "vec_remove p (os_client_index s)"]) (simp_all add: remove_slot_def)
qed

lemma remove_dense_ok:
  assumes inv: "order_inv account s" and i: "i < length (os_entries s)"
  obtains s' where "remove_dense s i = Some (s', os_entries s ! i)" "order_inv account s'"
    "os_entries s' = swap_remove i (os_entries s)" "os_rest s' = os_rest s"
proof -
  let ?es = "os_entries s" and ?L = "length (os_entries s) - 1"
  have small: "length ?es \<le> 65536" using order_inv_small [OF inv] by simp
  obtain cp where cp: "position_of (\<lambda>slot. unat slot = i) (os_canonical_index s) = Some cp"
    "cp < length (os_canonical_index s)" "unat (os_canonical_index s ! cp) = i"
    by (rule index_position [OF order_inv_canonical [OF inv] i]) simp
  note w = index_without [OF order_inv_canonical [OF inv] cp(2), unfolded cp(3)]
  let ?c = "vec_remove cp (os_canonical_index s)"
  obtain ci where ci: "(if i \<noteq> ?L then expect (nth_entry (swap_remove i ?es) i)
        (\<lambda>e. if Some (entry_rank e) \<noteq> None then redirect ?L i ?c else Some ?c) else Some ?c) = Some ci"
    "index_ok (\<lambda>e. Some (entry_rank e)) (swap_remove i ?es) ci"
    by (rule swap_remove_index [OF w(1) w(3) w(2) i small])
  have ci': "(if i \<noteq> ?L then redirect ?L i ?c else Some ?c) = Some ci"
    using ci(1) i by (auto simp: nth_entry_def split: if_splits)
  obtain old k where k: "owned_client_position s (entry_client (?es ! i)) = Some old"
    "(case old of None \<Rightarrow> Some (os_client_index s) | Some position \<Rightarrow> remove_slot position (os_client_index s)) = Some k"
    "distinct k" "sorted_by_key compare_of (\<lambda>e. the (entry_client e)) (view ?es k)"
    "unat ` set k = {j. j < length ?es \<and> entry_client (?es ! j) \<noteq> None \<and> j \<noteq> i}"
    by (rule remove_client [OF inv i])
  obtain ki where ki: "(if i \<noteq> ?L then expect (nth_entry (swap_remove i ?es) i)
        (\<lambda>e. if entry_client e \<noteq> None then redirect ?L i k else Some k) else Some k) = Some ki"
    "index_ok entry_client (swap_remove i ?es) ki"
    by (rule swap_remove_index [OF k(3,5,4) i small])
  note m = mset_swap_remove [OF i]
  have n: "unat (os_live_count s) = length (filter is_live (swap_remove i ?es)) + (if is_live (?es ! i) then 1 else 0)"
    using inv by (simp add: order_inv_def length_filter_mset m)
  let ?live = "if is_live (?es ! i) then os_live_count s - 1 else os_live_count s"
  have live: "(if is_live (?es ! i) then checked_sub_word (os_live_count s) 1 else Some (os_live_count s)) = Some ?live"
    "unat ?live = length (filter is_live (swap_remove i ?es))"
    using n by (auto simp: checked_sub_word_def word_le_nat_alt unat_sub)
  have venue: "unique_keys entry_venue (mset (swap_remove i ?es))"
    using order_inv_unique(2) [OF inv] unfolding m unique_keys_add by blast
  have rows: "set (swap_remove i ?es) \<subseteq> set ?es"
    using arg_cong [OF m, of set_mset] by auto
  let ?s = "s\<lparr>os_entries := swap_remove i ?es, os_canonical_index := ci, os_client_index := ki, os_live_count := ?live\<rparr>"
  have c: "remove_slot cp (os_canonical_index s) = Some ?c" using cp(2) by (simp add: remove_slot_def)
  have "remove_dense s i = Some (?s, ?es ! i)"
    unfolding remove_dense_def
    by (simp only: Let_def nth_entry_def [of ?es] i if_True panic_simps cp(1) c k(1,2) live(1) ci' ki(1))
  moreover have "order_inv account ?s"
    using inv ci(2) ki(2) live(2) venue rows by (auto simp: order_inv_def)
  ultimately show thesis using that [of ?s] by (simp add: os_rest_def)
qed

section \<open>Lookup\<close>

lemma canonical_slots:
  assumes "order_inv account s" "slot \<in> set (os_canonical_index s)"
  shows "slot_entry (os_entries s) slot = Some (os_entries s ! unat slot)" "unat slot < length (os_entries s)"
  using index_ok_slot [OF order_inv_canonical [OF assms(1)] assms(2)] by (simp_all add: slot_entry_def)

lemma slot_entries_view: "\<forall>slot\<in>set ix. unat slot < length es \<Longrightarrow> slot_entries es ix = Some (view es ix)"
  by (induction ix) (auto simp: slot_entry_def view_def)

lemma canonical_entries_eq:
  assumes "order_inv account s"
  shows "canonical_entries s = Some (view (os_entries s) (os_canonical_index s))"
    "mset (view (os_entries s) (os_canonical_index s)) = mset (os_entries s)"
  using slot_entries_view [of "os_canonical_index s" "os_entries s"] canonical_slots(2) [OF assms]
    index_ok_canonical_perm [OF order_inv_canonical [OF assms]]
  by (simp_all add: canonical_entries_def)

lemma find_venue_slot_eq:
  assumes "\<forall>slot\<in>set ix. unat slot < length es"
  shows "find_venue_slot es v ix = Some (map_option unat (find (\<lambda>slot. entry_venue (es ! unat slot) = Some v) ix))"
  using assms by (induction ix) (auto simp: slot_entry_def)

lemma find_venue_cases:
  assumes inv: "order_inv account s"
  obtains (found) i v where "find_venue s venue = Some (Some i)" "i < length (os_entries s)"
      "venue = Some v" "entry_venue (os_entries s ! i) = Some v"
  | (absent) "find_venue s venue = Some None" "\<forall>e\<in>set (os_entries s). \<forall>v. venue = Some v \<longrightarrow> entry_venue e \<noteq> Some v"
proof (cases venue)
  case None
  then show thesis using absent by (simp add: find_venue_def)
next
  case (Some v)
  let ?f = "find (\<lambda>slot. entry_venue (os_entries s ! unat slot) = Some v) (os_canonical_index s)"
  have eq: "find_venue s venue = Some (map_option unat ?f)"
    using find_venue_slot_eq [of "os_canonical_index s" "os_entries s" v] canonical_slots(2) [OF inv] Some
    by (simp add: find_venue_def)
  show thesis
  proof (cases ?f)
    case None
    have "entry_venue e \<noteq> Some v" if e: "e \<in> set (os_entries s)" for e
    proof -
      obtain i where i: "i < length (os_entries s)" "e = os_entries s ! i" using e by (auto simp: in_set_conv_nth)
      obtain p where "p < length (os_canonical_index s)" "unat (os_canonical_index s ! p) = i"
        by (rule index_ok_covers [OF order_inv_canonical [OF inv] i(1)]) simp
      with None i(2) show ?thesis by (auto simp: find_None_iff)
    qed
    with None Some eq show thesis by (intro absent) auto
  next
    case slot: (Some slot)
    then have "slot \<in> set (os_canonical_index s)" "entry_venue (os_entries s ! unat slot) = Some v"
      by (auto simp: find_Some_iff)
    then show thesis using found [of "unat slot" v] eq slot Some canonical_slots(2) [OF inv] by simp
  qed
qed

lemma find_order_cases:
  assumes inv: "order_inv account s"
  obtains (found) i where "find_order s identity = Some (Some i)" "i < length (os_entries s)"
      "identities_overlap (oe_identity (os_entries s ! i)) identity"
  | (absent) "find_order s identity = Some None" "fresh_identity (os_entries s) identity"
proof -
  note hit = that(1) and miss = that(2)
  have by_venue: thesis if f: "find_order s identity = find_venue s (venue_order_key identity)"
    and c: "\<forall>e\<in>set (os_entries s). \<forall>c. client_order_key identity = Some c \<longrightarrow> entry_client e \<noteq> Some c"
    using inv
  proof (cases rule: find_venue_cases [where venue = "venue_order_key identity"])
    case (found i v)
    then show thesis using hit [of i] f by (simp add: identities_overlap_iff entry_venue_def)
  next
    case absent
    then show thesis
      using miss f c by (auto simp: fresh_identity_def identities_overlap_iff entry_venue_def entry_client_def)
  qed
  show thesis
  proof (cases "client_order_key identity")
    case None
    then show thesis using by_venue by (simp add: find_order_def)
  next
    case (Some c)
    show thesis
      using inv
    proof (cases rule: client_search_cases [where c = c])
      case (found p i)
      then show thesis
        using hit [of i] Some by (simp add: find_order_def identities_overlap_iff entry_client_def)
    next
      case (absent p)
      then show thesis using by_venue Some by (simp add: find_order_def insertion_point_def)
    qed
  qed
qed

definition overlap_slots :: "PmOrderState \<Rightarrow> PmOrderIdentity \<Rightarrow> u16 list" where
  "overlap_slots s identity =
     filter (\<lambda>slot. identities_overlap (oe_identity (os_entries s ! unat slot)) identity) (os_canonical_index s)"

lemma overlap_loop_eq:
  assumes "\<forall>slot\<in>set ix. unat slot < length es"
  shows
    "overlap_loop es identity (Some a) (Some b) ix =
      Some (case filter (\<lambda>slot. identities_overlap (oe_identity (es ! unat slot)) identity) ix of
              [] \<Rightarrow> Ok (Some a, Some b) | _ # _ \<Rightarrow> Err IdentityConflict)"
    "overlap_loop es identity (Some a) None ix =
      Some (case filter (\<lambda>slot. identities_overlap (oe_identity (es ! unat slot)) identity) ix of
              [] \<Rightarrow> Ok (Some a, None) | [x] \<Rightarrow> Ok (Some a, Some (unat x)) | _ \<Rightarrow> Err IdentityConflict)"
    "overlap_loop es identity None None ix =
      Some (case filter (\<lambda>slot. identities_overlap (oe_identity (es ! unat slot)) identity) ix of
              [] \<Rightarrow> Ok (None, None) | [x] \<Rightarrow> Ok (Some (unat x), None)
            | [x, y] \<Rightarrow> Ok (Some (unat x), Some (unat y)) | _ \<Rightarrow> Err IdentityConflict)"
proof -
  have three: "overlap_loop es identity (Some a) (Some b) ix =
      Some (case filter (\<lambda>slot. identities_overlap (oe_identity (es ! unat slot)) identity) ix of
              [] \<Rightarrow> Ok (Some a, Some b) | _ # _ \<Rightarrow> Err IdentityConflict)"
    if "\<forall>slot\<in>set ix. unat slot < length es" for a b ix
    using that by (induction ix) (auto simp: slot_entry_def)
  have two: "overlap_loop es identity (Some a) None ix =
      Some (case filter (\<lambda>slot. identities_overlap (oe_identity (es ! unat slot)) identity) ix of
              [] \<Rightarrow> Ok (Some a, None) | [x] \<Rightarrow> Ok (Some a, Some (unat x)) | _ \<Rightarrow> Err IdentityConflict)"
    if "\<forall>slot\<in>set ix. unat slot < length es" for a ix
    using that by (induction ix) (auto simp: slot_entry_def three split: list.splits)
  show "overlap_loop es identity (Some a) (Some b) ix =
      Some (case filter (\<lambda>slot. identities_overlap (oe_identity (es ! unat slot)) identity) ix of
              [] \<Rightarrow> Ok (Some a, Some b) | _ # _ \<Rightarrow> Err IdentityConflict)"
    by (rule three [OF assms])
  show "overlap_loop es identity (Some a) None ix =
      Some (case filter (\<lambda>slot. identities_overlap (oe_identity (es ! unat slot)) identity) ix of
              [] \<Rightarrow> Ok (Some a, None) | [x] \<Rightarrow> Ok (Some a, Some (unat x)) | _ \<Rightarrow> Err IdentityConflict)"
    by (rule two [OF assms])
  show "overlap_loop es identity None None ix =
      Some (case filter (\<lambda>slot. identities_overlap (oe_identity (es ! unat slot)) identity) ix of
              [] \<Rightarrow> Ok (None, None) | [x] \<Rightarrow> Ok (Some (unat x), None)
            | [x, y] \<Rightarrow> Ok (Some (unat x), Some (unat y)) | _ \<Rightarrow> Err IdentityConflict)"
    using assms by (induction ix) (auto simp: slot_entry_def two split: list.splits)
qed

lemma overlaps_eq:
  assumes "order_inv account s"
  shows "overlaps s identity =
    Some (case overlap_slots s identity of
            [] \<Rightarrow> Ok NoOverlap | [x] \<Rightarrow> Ok (One (unat x)) | [x, y] \<Rightarrow> Ok (Bridge (unat x) (unat y))
          | _ \<Rightarrow> Err IdentityConflict)"
  using overlap_loop_eq(3) [of "os_canonical_index s" "os_entries s" identity] canonical_slots(2) [OF assms]
  by (auto simp: overlaps_def overlap_slots_def split: list.splits)

lemma filter_at_most_one:
  assumes "distinct xs" "\<And>x y. x \<in> set xs \<Longrightarrow> y \<in> set xs \<Longrightarrow> P x \<Longrightarrow> P y \<Longrightarrow> x = y"
  shows "length (filter P xs) \<le> 1"
proof -
  have "length (filter P xs) = card (set (filter P xs))" using assms(1) by (metis distinct_card distinct_filter)
  also have "\<dots> \<le> 1" by (rule card_le_Suc0_iff_eq [THEN iffD2, unfolded One_nat_def [symmetric]]) (use assms(2) in auto)
  finally show ?thesis .
qed

lemma overlap_slots_bound:
  assumes inv: "order_inv account s" shows "length (overlap_slots s identity) \<le> 2"
proof -
  let ?ix = "os_canonical_index s" and ?es = "os_entries s"
  let ?c = "\<lambda>slot. client_order_key identity \<noteq> None \<and> entry_client (?es ! unat slot) = client_order_key identity"
  let ?v = "\<lambda>slot. venue_order_key identity \<noteq> None \<and> entry_venue (?es ! unat slot) = venue_order_key identity"
  have d: "distinct ?ix" using order_inv_canonical [OF inv] by (simp add: index_ok_def)
  note slot = canonical_slots(2) [OF inv]
  have "length (filter ?c ?ix) \<le> 1"
  proof (rule filter_at_most_one [OF d])
    fix x y assume "x \<in> set ?ix" "y \<in> set ?ix" "?c x" "?c y"
    then have "unat x = unat y"
      using unique_keys_nth [OF order_inv_unique(1) [OF inv] slot slot] by (metis option.exhaust)
    then show "x = y" by (simp add: slot_eq_iff)
  qed
  moreover have "length (filter ?v ?ix) \<le> 1"
  proof (rule filter_at_most_one [OF d])
    fix x y assume "x \<in> set ?ix" "y \<in> set ?ix" "?v x" "?v y"
    then have "unat x = unat y"
      using unique_keys_nth [OF order_inv_unique(2) [OF inv] slot slot] by (metis option.exhaust)
    then show "x = y" by (simp add: slot_eq_iff)
  qed
  moreover have "length (overlap_slots s identity) \<le> length (filter ?c ?ix) + length (filter ?v ?ix)"
  proof -
    have "set (overlap_slots s identity) \<subseteq> set (filter ?c ?ix) \<union> set (filter ?v ?ix)"
      by (auto simp: overlap_slots_def identities_overlap_iff entry_client_def entry_venue_def)
    then have "card (set (overlap_slots s identity)) \<le> card (set (filter ?c ?ix) \<union> set (filter ?v ?ix))"
      by (rule card_mono [rotated]) simp
    also have "\<dots> \<le> card (set (filter ?c ?ix)) + card (set (filter ?v ?ix))" by (rule card_Un_le)
    finally show ?thesis
      unfolding overlap_slots_def by (simp only: distinct_card [OF distinct_filter [OF d]])
  qed
  ultimately show ?thesis by simp
qed

lemma overlap_slots_exact:
  assumes inv: "order_inv account s" and j: "j < length (os_entries s)"
  shows "identities_overlap (oe_identity (os_entries s ! j)) identity \<longleftrightarrow> j \<in> unat ` set (overlap_slots s identity)"
proof -
  obtain p where "p < length (os_canonical_index s)" "unat (os_canonical_index s ! p) = j"
    by (rule index_ok_covers [OF order_inv_canonical [OF inv] j]) simp
  then show ?thesis by (auto simp: overlap_slots_def image_iff intro!: exI [of _ "os_canonical_index s ! p"])
qed

text \<open>
  With at most one row per client key and per venue key, the overlap scan never reports a
  conflict: it returns all rows that share a key with the identity, which are at most two.
\<close>

lemma overlaps_cases:
  assumes inv: "order_inv account s"
  obtains (none) "overlaps s identity = Some (Ok NoOverlap)" "fresh_identity (os_entries s) identity"
  | (one) i where "overlaps s identity = Some (Ok (One i))" "i < length (os_entries s)"
      "identities_overlap (oe_identity (os_entries s ! i)) identity"
      "\<forall>j<length (os_entries s). j \<noteq> i \<longrightarrow> \<not> identities_overlap (oe_identity (os_entries s ! j)) identity"
  | (bridge) i k where "overlaps s identity = Some (Ok (Bridge i k))" "i < length (os_entries s)"
      "k < length (os_entries s)" "i \<noteq> k"
      "identities_overlap (oe_identity (os_entries s ! i)) identity"
      "identities_overlap (oe_identity (os_entries s ! k)) identity"
      "\<forall>j<length (os_entries s). j \<noteq> i \<longrightarrow> j \<noteq> k \<longrightarrow> \<not> identities_overlap (oe_identity (os_entries s ! j)) identity"
proof -
  note exact = overlap_slots_exact [OF inv, of _ identity]
  have slot: "unat x < length (os_entries s)" if "x \<in> set (overlap_slots s identity)" for x
    using that canonical_slots(2) [OF inv] by (auto simp: overlap_slots_def)
  have d: "distinct (overlap_slots s identity)"
    using order_inv_canonical [OF inv] by (simp add: index_ok_def overlap_slots_def)
  consider "overlap_slots s identity = []" | x where "overlap_slots s identity = [x]"
    | x y where "overlap_slots s identity = [x, y]"
    using overlap_slots_bound [OF inv, of identity]
    by (cases "overlap_slots s identity" rule: remdups_adj.cases) (auto simp: length_Cons le_Suc_eq)
  then show thesis
  proof cases
    case 1
    then show thesis using none exact by (simp add: overlaps_eq [OF inv] fresh_identity_def all_set_conv_all_nth)
  next
    case (2 x)
    then show thesis using one [of "unat x"] exact slot [of x] by (simp add: overlaps_eq [OF inv])
  next
    case (3 x y)
    then show thesis
      using bridge [of "unat x" "unat y"] exact slot [of x] slot [of y] d by (simp add: overlaps_eq [OF inv] slot_eq_iff)
  qed
qed

end
