(* ===== verification/Pm_Order_State.thy ===== *)
theory Pm_Order_State
  imports Pm_Order_Index
begin

text \<open>
  The private order reducer of \<open>crates/reap-pm-state/src/order_state.rs\<close> with
  \<open>order_state/admission.rs\<close> and \<open>order_state/decision_summary.rs\<close>: registration of owned orders,
  observations, complete open-order snapshots, exact order detail, compaction and the decision
  summary.  \<open>None\<close> is a panic of the source.
\<close>

section \<open>Results\<close>

datatype PmOrderApply =
    Inserted
  | Updated
  | TerminalReservationReleased
  | IgnoredStale
  | Duplicate
  | DetailAbsenceTerminalized
  | DetailAbsenceIgnoredAfterLaterEvent

datatype PmOpenOrdersApply =
    Applied (applied_inserted: u16) (applied_updated: u16) (applied_retained_missing: u16)
  | Duplicate
  | IgnoredStale

datatype PmOwnedRegistrationAction =
    Existing
  | Insert nat nat

record PmOwnedRegistrationPlan =
  plan_entry :: OrderEntry
  plan_action :: PmOwnedRegistrationAction

section \<open>Shared steps\<close>

definition order_bump :: "(PmOrderCounters \<Rightarrow> PmOrderCounters) \<Rightarrow> PmOrderState \<Rightarrow> PmOrderState" where
  "order_bump f s = s\<lparr>os_counters := f (os_counters s)\<rparr>"

abbreviation inc :: "u64 \<Rightarrow> u64" where
  "inc n \<equiv> saturating_add n 1"

definition insert_order :: "PmOrderState \<Rightarrow> OrderEntry \<Rightarrow> (PmOrderState, unit, PmOrderStateError) outcome" where
  "insert_order s entry =
     (if length (os_entries s) = MAX_PM_PRIVATE_ORDERS
      then Some (order_bump (oc_capacity_failures_update inc) s, Err Capacity)
      else insert_ordered s entry)"

definition count_remote :: "PmOrderState \<Rightarrow> OwnershipState \<Rightarrow> PmOrderState" where
  "count_remote s ownership =
     (case ownership of
        ProvenOwned \<Rightarrow> s
      | Unmanaged \<Rightarrow> order_bump (oc_unmanaged_update inc) s
      | Ambiguous \<Rightarrow> order_bump (oc_ambiguous_update inc) s)"

definition indexed :: "'a list \<Rightarrow> (nat \<times> 'a) list" where
  "indexed xs = zip [0..<length xs] xs"

definition coalesce_entries ::
    "PmOrderState \<Rightarrow> nat \<Rightarrow> nat \<Rightarrow> (PmOrderState, unit, PmOrderStateError) outcome" where
  "coalesce_entries s first second =
     expect (nth_entry (os_entries s) first) (\<lambda>left.
     expect (nth_entry (os_entries s) second) (\<lambda>right.
     try_check s (merge_entries left right) (\<lambda>merged.
     let (lower, upper) = (if first < second then (first, second) else (second, first))
     in if list_ex (\<lambda>(index, entry). index \<noteq> lower \<and> index \<noteq> upper \<and> compare_entries entry merged = Equal)
             (indexed (os_entries s))
          then Some (s, Err IdentityConflict)
        else if is_some_and (\<lambda>merged_client.
               list_ex (\<lambda>(index, entry). index \<noteq> lower \<and> index \<noteq> upper \<and> entry_client entry = Some merged_client)
                 (indexed (os_entries s))) (entry_client merged)
          then Some (s, Err IdentityConflict)
        else expect (remove_dense s upper) (\<lambda>(s, _).
             expect (remove_dense s lower) (\<lambda>(s, _).
               insert_ordered s merged)))))"

definition updated_entry ::
    "OrderEntry \<Rightarrow> PmOrderIdentity \<Rightarrow> PmOrderEvent \<Rightarrow> PmPrivateOccurrence \<Rightarrow> PmRemoteOrderKnowledge
      \<Rightarrow> PmReservationKnowledge \<Rightarrow> OrderEntry" where
  "updated_entry prior identity event occurrence knowledge reservation =
     (let entry = prior\<lparr>oe_identity := identity, oe_event := Some event, oe_last_occurrence := Some occurrence,
            oe_missing_from_complete_open_snapshot := False, oe_terminal_by_detail_absence := False\<rparr>
      in if oe_ownership entry \<noteq> ProvenOwned then
           entry\<lparr>oe_ownership := merge_remote_ownership (oe_ownership entry) knowledge,
                 oe_reservation := live_reservation event reservation\<rparr>
         else if terminal_event event then entry\<lparr>oe_reservation := None\<rparr>
         else entry)"

definition update_existing ::
    "PmOrderState \<Rightarrow> nat \<Rightarrow> PmOrderEvent \<Rightarrow> PmPrivateOccurrence \<Rightarrow> PmRemoteOrderKnowledge
      \<Rightarrow> PmReservationKnowledge \<Rightarrow> (PmOrderState, PmOrderApply, PmOrderStateError) outcome" where
  "update_existing s index event occurrence knowledge reservation =
     expect (nth_entry (os_entries s) index) (\<lambda>prior.
     if is_some_and (\<lambda>prior_occurrence. occurrence < prior_occurrence) (oe_last_occurrence prior) then
       Some (order_bump (oc_stale_update inc) s, Ok PmOrderApply.IgnoredStale)
     else if oe_last_occurrence prior = Some occurrence \<and> oe_event prior = Some event then
       Some (order_bump (oc_duplicates_update inc) s, Ok PmOrderApply.Duplicate)
     else if oe_last_occurrence prior = Some occurrence then
       Some (order_bump (oc_contract_violations_update inc) s, Err ObservationConflict)
     else try_result s (ensure_identity_merge (oe_identity prior) (order_identity event)) (\<lambda>_.
     if is_some_and (\<lambda>previous. \<not> is_ok (validate_order_lifecycle previous event)) (oe_event prior) then
       Some (s, Err LifecycleRegression)
     else if terms_differ event (oe_registered_terms prior) then Some (s, Err ObservationConflict)
     else expect (merge_identity (oe_identity prior) (order_identity event)) (\<lambda>identity.
       and_then (replace_ordered s index (updated_entry prior identity event occurrence knowledge reservation)) (\<lambda>s _.
         if is_live prior \<and> terminal_event event then
           Some (order_bump (oc_terminal_releases_update inc) s, Ok TerminalReservationReleased)
         else Some (s, Ok Updated)))))"

definition snapshot_stale_or_duplicate ::
    "PmOrderState \<Rightarrow> PmCompleteOpenOrdersSnapshot \<Rightarrow> ConnectionEpoch \<Rightarrow> PmOrderState \<times> PmOpenOrdersApply option" where
  "snapshot_stale_or_duplicate s snapshot epoch =
     (let revision = open_snapshot snapshot;
          completion = PmPrivateOccurrence epoch (completion_sequence (open_boundary snapshot))
      in if os_latest_snapshot_revision s = Some revision \<and> os_latest_snapshot_completion s = Some completion then
           (order_bump (oc_duplicates_update inc) s, Some PmOpenOrdersApply.Duplicate)
         else if is_some_and (\<lambda>prior. completion \<le> prior) (os_latest_snapshot_completion s)
              \<or> is_some_and (\<lambda>prior. occ_epoch prior = epoch
                    \<and> is_some_and (\<lambda>prior_revision. revision \<le> prior_revision) (os_latest_snapshot_revision s))
                  (os_latest_snapshot_completion s) then
           (order_bump (oc_stale_update inc) s, Some PmOpenOrdersApply.IgnoredStale)
         else (s, None))"

primrec count_new_orders :: "PmOrderState \<Rightarrow> PmOrderEvent list \<Rightarrow> nat option" where
  "count_new_orders s [] = Some 0"
| "count_new_orders s (event # events) =
     expect (find_order s (order_identity event)) (\<lambda>found.
     expect (count_new_orders s events) (\<lambda>n. Some (if found = None then Suc n else n)))"

definition preflight_snapshot_capacity ::
    "PmOrderState \<Rightarrow> PmCompleteOpenOrdersSnapshot \<Rightarrow> (PmOrderState, unit, PmOrderStateError) outcome" where
  "preflight_snapshot_capacity s snapshot =
     expect (count_new_orders s (open_orders snapshot)) (\<lambda>new_orders.
     if MAX_PM_PRIVATE_ORDERS < length (os_entries s) + new_orders
     then Some (order_bump (oc_capacity_failures_update inc) s, Err Capacity)
     else Some (s, Ok ()))"

definition remote_entry ::
    "PmOrderEvent \<Rightarrow> OwnershipState \<Rightarrow> PmReservationKnowledge \<Rightarrow> PmPrivateOccurrence \<Rightarrow> OrderEntry" where
  "remote_entry event ownership reservation occurrence =
     \<lparr>oe_identity = order_identity event, oe_instrument = order_instrument event, oe_event = Some event,
      oe_ownership = ownership, oe_registered_terms = None, oe_reservation = live_reservation event reservation,
      oe_missing_from_complete_open_snapshot = False, oe_terminal_by_detail_absence = False,
      oe_last_occurrence = Some occurrence\<rparr>"

definition later_than :: "PmPrivateOccurrence \<Rightarrow> OrderEntry \<Rightarrow> bool" where
  "later_than request entry = is_some_and (\<lambda>occurrence. request < occurrence) (oe_last_occurrence entry)"

definition reduce_snapshot_row ::
    "PmOrderState \<Rightarrow> PmOrderEvent \<Rightarrow> PmPrivateOccurrence \<Rightarrow> PmReservationKnowledge \<Rightarrow> PmPrivateStateConfig
      \<Rightarrow> (PmOrderState, PmOrderApply, PmOrderStateError) outcome" where
  "reduce_snapshot_row s event request reservation config =
     try_result s (validate_event event (cfg_source config) config) (\<lambda>_.
     try_check s (validate_reservation event reservation) (\<lambda>_.
     let knowledge = PmRemoteOrderKnowledge.Unmanaged reservation
     in try_check s (overlaps s (order_identity event)) (\<lambda>overlap.
     case overlap of
       One index \<Rightarrow>
         expect (nth_entry (os_entries s) index) (\<lambda>entry.
           if later_than request entry then Some (s, Ok PmOrderApply.IgnoredStale)
           else update_existing s index event request knowledge reservation)
     | Bridge first second \<Rightarrow>
         expect (nth_entry (os_entries s) first) (\<lambda>left.
         expect (nth_entry (os_entries s) second) (\<lambda>right.
           if later_than request left \<or> later_than request right then Some (s, Ok PmOrderApply.IgnoredStale)
           else and_then (coalesce_entries s first second) (\<lambda>s _.
             expect (find_order s (order_identity event)) (\<lambda>found.
             expect found (\<lambda>index.
               update_existing s index event request knowledge reservation)))))
     | NoOverlap \<Rightarrow>
         and_then (insert_order s (remote_entry event Unmanaged reservation request)) (\<lambda>s _.
           Some (count_remote s Unmanaged, Ok Inserted)))))"

definition missing_from ::
    "PmCompleteOpenOrdersSnapshot \<Rightarrow> PmPrivateOccurrence \<Rightarrow> OrderEntry \<Rightarrow> bool" where
  "missing_from snapshot request entry \<longleftrightarrow>
     \<not> (\<not> is_live entry \<or> later_than request entry
        \<or> list_ex (\<lambda>event. identities_overlap (oe_identity entry) (order_identity event)) (open_orders snapshot))"

primrec mark_missing_entries ::
    "PmCompleteOpenOrdersSnapshot \<Rightarrow> PmPrivateOccurrence \<Rightarrow> u16 \<Rightarrow> OrderEntry list \<Rightarrow> OrderEntry list \<times> u16" where
  "mark_missing_entries snapshot request retained [] = ([], retained)"
| "mark_missing_entries snapshot request retained (entry # entries) =
     (if missing_from snapshot request entry then
        (let (rest, n) = mark_missing_entries snapshot request (saturating_add retained 1) entries
         in (entry\<lparr>oe_missing_from_complete_open_snapshot := True\<rparr> # rest, n))
      else (let (rest, n) = mark_missing_entries snapshot request retained entries in (entry # rest, n)))"

definition mark_missing ::
    "PmOrderState \<Rightarrow> PmCompleteOpenOrdersSnapshot \<Rightarrow> PmPrivateOccurrence \<Rightarrow> PmOrderState \<times> u16" where
  "mark_missing s snapshot request =
     (let (entries, retained) = mark_missing_entries snapshot request 0 (os_entries s)
      in (s\<lparr>os_entries := entries\<rparr>, retained))"

section \<open>Owned orders\<close>

definition client_identity :: "PmClientOrderKey \<Rightarrow> PmOrderIdentity option" where
  "client_identity client = expect_ok (PmOrderIdentity_new (Some client) None)"

definition owned_entry :: "PmOwnedOrderRegistration \<Rightarrow> PmOrderIdentity \<Rightarrow> OrderEntry" where
  "owned_entry registration identity =
     \<lparr>oe_identity = identity, oe_instrument = reg_instrument registration, oe_event = None,
      oe_ownership = ProvenOwned,
      oe_registered_terms = Some (reg_side registration, reg_price registration, reg_quantity registration),
      oe_reservation = Some (Known (reg_reservation registration)),
      oe_missing_from_complete_open_snapshot = False, oe_terminal_by_detail_absence = False,
      oe_last_occurrence = None\<rparr>"

definition register_owned ::
    "PmOrderState \<Rightarrow> PmOwnedOrderRegistration \<Rightarrow> PmPrivateStateConfig
      \<Rightarrow> (PmOrderState, unit, PmOrderStateError) outcome" where
  "register_owned s registration config =
     try_result s (validate_registration registration config) (\<lambda>_.
     expect (client_identity (reg_client_order registration)) (\<lambda>identity.
     expect (find_order s identity) (\<lambda>found.
     case found of
       Some index \<Rightarrow>
         expect (nth_entry (os_entries s) index) (\<lambda>entry.
           if oe_ownership entry \<noteq> ProvenOwned \<or> oe_event entry \<noteq> None then Some (s, Err OwnershipRegisteredTooLate)
           else if oe_reservation entry = Some (Known (reg_reservation registration)) then Some (s, Ok ())
           else Some (s, Err IdentityConflict))
     | None \<Rightarrow>
         and_then (insert_order s (owned_entry registration identity)) (\<lambda>s _.
           Some (order_bump (oc_registrations_update inc) s, Ok ())))))"

definition prepare_owned_registration ::
    "PmOrderState \<Rightarrow> PmOwnedOrderRegistration \<Rightarrow> PmPrivateStateConfig
      \<Rightarrow> (PmOwnedRegistrationPlan, PmOrderStateError) result option" where
  "prepare_owned_registration s registration config =
     try_opt (Some (validate_registration registration config)) (\<lambda>_.
     expect (client_identity (reg_client_order registration)) (\<lambda>identity.
     let planned_entry = owned_entry registration identity
     in expect (find_order s identity) (\<lambda>found.
     case found of
       Some index \<Rightarrow>
         expect (nth_entry (os_entries s) index) (\<lambda>entry.
           if oe_ownership entry \<noteq> ProvenOwned \<or> oe_event entry \<noteq> None then Some (Err OwnershipRegisteredTooLate)
           else if oe_reservation entry \<noteq> oe_reservation planned_entry
                   \<or> oe_registered_terms entry \<noteq> oe_registered_terms planned_entry
             then Some (Err IdentityConflict)
           else Some (Ok \<lparr>plan_entry = planned_entry, plan_action = Existing\<rparr>))
     | None \<Rightarrow>
         if length (os_entries s) = MAX_PM_PRIVATE_ORDERS then Some (Err Capacity)
         else try_opt (canonical_insertion_position s planned_entry) (\<lambda>canonical_position.
              try_opt (client_insertion_position s planned_entry) (\<lambda>position.
              expect position (\<lambda>client_position.
                Some (Ok \<lparr>plan_entry = planned_entry,
                          plan_action = Insert canonical_position client_position\<rparr>)))))))"

definition preflight_register_owned ::
    "PmOrderState \<Rightarrow> PmOwnedOrderRegistration \<Rightarrow> PmPrivateStateConfig \<Rightarrow> (unit, PmOrderStateError) result option" where
  "preflight_register_owned s registration config =
     try_opt (prepare_owned_registration s registration config) (\<lambda>_. Some (Ok ()))"

definition commit_preflighted_owned_registration ::
    "PmOrderState \<Rightarrow> PmOwnedRegistrationPlan \<Rightarrow> PmOrderState option" where
  "commit_preflighted_owned_registration s plan =
     (case plan_action plan of
        Existing \<Rightarrow> Some s
      | Insert canonical_position client_position \<Rightarrow>
          expect (insert_at_index_positions s canonical_position (Some client_position) (plan_entry plan)) (\<lambda>s.
            Some (order_bump (oc_registrations_update inc) s)))"

definition unregistered :: "OrderEntry \<Rightarrow> bool" where
  "unregistered entry \<longleftrightarrow> oe_ownership entry \<noteq> ProvenOwned \<or> oe_registered_terms entry = None"

definition bind_owned_venue ::
    "PmOrderState \<Rightarrow> PmClientOrderKey \<Rightarrow> PmVenueOrderKey \<Rightarrow> PmPrivateStateConfig
      \<Rightarrow> (PmOrderState, unit, PmOrderStateError) outcome" where
  "bind_owned_venue s client_order venue_order config =
     (if client_account client_order \<noteq> cfg_account config \<or> venue_account venue_order \<noteq> cfg_account config
      then Some (s, Err ScopeMismatch)
      else expect (expect_ok (PmOrderIdentity_new (Some client_order) (Some venue_order))) (\<lambda>identity.
        try_check s (overlaps s identity) (\<lambda>overlap.
        and_then (case overlap of
                    NoOverlap \<Rightarrow> Some (s, Err OwnershipRegisteredTooLate)
                  | Bridge first second \<Rightarrow> coalesce_entries s first second
                  | One _ \<Rightarrow> Some (s, Ok ())) (\<lambda>s _.
        expect (find_order s identity) (\<lambda>found.
        case found of
          None \<Rightarrow> Some (s, Err OwnershipRegisteredTooLate)
        | Some index \<Rightarrow>
            expect (nth_entry (os_entries s) index) (\<lambda>entry.
              if unregistered entry then Some (s, Err OwnershipRegisteredTooLate)
              else try_result s (ensure_identity_merge (oe_identity entry) identity) (\<lambda>_.
                expect (merge_identity (oe_identity entry) identity) (\<lambda>merged.
                  replace_ordered s index (entry\<lparr>oe_identity := merged\<rparr>)))))))))"

definition preflight_bind_owned_venue ::
    "PmOrderState \<Rightarrow> PmClientOrderKey \<Rightarrow> PmVenueOrderKey \<Rightarrow> PmPrivateStateConfig
      \<Rightarrow> (unit, PmOrderStateError) result option" where
  "preflight_bind_owned_venue s client_order venue_order config =
     (if client_account client_order \<noteq> cfg_account config \<or> venue_account venue_order \<noteq> cfg_account config
      then Some (Err ScopeMismatch)
      else expect (expect_ok (PmOrderIdentity_new (Some client_order) (Some venue_order))) (\<lambda>identity.
        try_opt (overlaps s identity) (\<lambda>overlap.
        try_opt
          (case overlap of
             NoOverlap \<Rightarrow> Some (Err OwnershipRegisteredTooLate)
           | One index \<Rightarrow> expect (nth_entry (os_entries s) index) (\<lambda>entry. Some (Ok entry))
           | Bridge first second \<Rightarrow>
               expect (nth_entry (os_entries s) first) (\<lambda>left.
               expect (nth_entry (os_entries s) second) (\<lambda>right. merge_entries left right))) (\<lambda>entry.
        if unregistered entry then Some (Err OwnershipRegisteredTooLate)
        else Some (ensure_identity_merge (oe_identity entry) identity)))))"

definition compact_proven_owned ::
    "PmOrderState \<Rightarrow> PmClientOrderKey \<Rightarrow> (PmOrderState, unit, PmOrderStateError) outcome" where
  "compact_proven_owned s client_order =
     expect (client_identity client_order) (\<lambda>identity.
     expect (find_order s identity) (\<lambda>found.
     case found of
       None \<Rightarrow> Some (s, Err OwnershipRegisteredTooLate)
     | Some index \<Rightarrow>
         expect (nth_entry (os_entries s) index) (\<lambda>entry.
           if unregistered entry then Some (s, Err OwnershipRegisteredTooLate)
           else expect (remove_dense s index) (\<lambda>(s, _). Some (s, Ok ())))))"

definition preflight_compact_proven_owned ::
    "PmOrderState \<Rightarrow> PmClientOrderKey \<Rightarrow> (unit, PmOrderStateError) result option" where
  "preflight_compact_proven_owned s client_order =
     expect (client_identity client_order) (\<lambda>identity.
     expect (find_order s identity) (\<lambda>found.
     case found of
       None \<Rightarrow> Some (Err OwnershipRegisteredTooLate)
     | Some index \<Rightarrow>
         expect (nth_entry (os_entries s) index) (\<lambda>entry.
           Some (if unregistered entry then Err OwnershipRegisteredTooLate else Ok ()))))"

section \<open>Observations, snapshots and detail\<close>

definition envelope_occurrence :: "'p EventEnvelope \<Rightarrow> PmPrivateOccurrence" where
  "envelope_occurrence envelope =
     PmPrivateOccurrence (connection_epoch (env_ordering envelope)) (local_ingress_sequence (env_ordering envelope))"

definition observe_order ::
    "PmOrderState \<Rightarrow> PmOrderEvent EventEnvelope \<Rightarrow> PmRemoteOrderKnowledge \<Rightarrow> PmPrivateStateConfig
      \<Rightarrow> (PmOrderState, PmOrderApply, PmOrderStateError) outcome" where
  "observe_order s envelope knowledge config =
     (let event = env_payload envelope
      in try_result s (validate_event event (env_source envelope) config) (\<lambda>_.
      try_check s (validate_remote_knowledge event knowledge) (\<lambda>reservation.
      let occurrence = envelope_occurrence envelope;
          s = order_bump (oc_observations_update inc)
                (s\<lparr>os_observed_monotonic_ns := Some (monotonic_service_ns (env_clock envelope))\<rparr>)
      in try_check s (overlaps s (order_identity event)) (\<lambda>overlap.
      case overlap of
        NoOverlap \<Rightarrow>
          (let ownership = ownership_from_remote knowledge
           in and_then (insert_order s (remote_entry event ownership reservation occurrence)) (\<lambda>s _.
             Some (count_remote s ownership,
               Ok (if terminal_event event then TerminalReservationReleased else Inserted))))
      | One index \<Rightarrow> update_existing s index event occurrence knowledge reservation
      | Bridge first second \<Rightarrow>
          expect (nth_entry (os_entries s) first) (\<lambda>left.
          expect (nth_entry (os_entries s) second) (\<lambda>right.
          try_check s (merge_entries left right) (\<lambda>merged.
          try_result s (preflight_existing_update merged event occurrence) (\<lambda>_.
          and_then (coalesce_entries s first second) (\<lambda>s _.
          expect (find_order s (order_identity event)) (\<lambda>found.
          expect found (\<lambda>index.
            update_existing s index event occurrence knowledge reservation)))))))))))"

primrec preflight_snapshot_rows ::
    "PmOrderState \<Rightarrow> PmPrivateOccurrence \<Rightarrow> PmOpenOrderReservation list \<Rightarrow> PmPrivateStateConfig
      \<Rightarrow> PmOrderEvent list \<Rightarrow> (unit, PmOrderStateError) result option" where
  "preflight_snapshot_rows s request reservations config [] = Some (Ok ())"
| "preflight_snapshot_rows s request reservations config (event # events) =
     (let reservation = companion_knowledge event reservations
      in try_opt (Some (validate_event event (cfg_source config) config)) (\<lambda>_.
      try_opt (validate_reservation event reservation) (\<lambda>_.
      try_opt (overlaps s (order_identity event)) (\<lambda>overlap.
      try_opt
        (case overlap of
           NoOverlap \<Rightarrow> Some (Ok ())
         | One index \<Rightarrow>
             expect (nth_entry (os_entries s) index) (\<lambda>entry. Some (preflight_existing_update entry event request))
         | Bridge first second \<Rightarrow>
             expect (nth_entry (os_entries s) first) (\<lambda>left.
             expect (nth_entry (os_entries s) second) (\<lambda>right.
             try_opt (merge_entries left right) (\<lambda>merged.
               Some (preflight_existing_update merged event request))))) (\<lambda>_.
        preflight_snapshot_rows s request reservations config events)))))"

definition snapshot_request :: "PmCompleteOpenOrdersSnapshot EventEnvelope \<Rightarrow> PmPrivateOccurrence" where
  "snapshot_request envelope =
     PmPrivateOccurrence (connection_epoch (env_ordering envelope))
       (request_sequence (open_boundary (env_payload envelope)))"

definition snapshot_completion :: "PmCompleteOpenOrdersSnapshot EventEnvelope \<Rightarrow> PmPrivateOccurrence" where
  "snapshot_completion envelope =
     PmPrivateOccurrence (connection_epoch (env_ordering envelope))
       (completion_sequence (open_boundary (env_payload envelope)))"

definition preflight_fresh_open_snapshot ::
    "PmOrderState \<Rightarrow> PmCompleteOpenOrdersSnapshot EventEnvelope \<Rightarrow> PmOpenOrderReservation list \<Rightarrow> PmPrivateStateConfig
      \<Rightarrow> (PmOrderState, unit, PmOrderStateError) outcome" where
  "preflight_fresh_open_snapshot s envelope reservations config =
     and_then (preflight_snapshot_capacity s (env_payload envelope)) (\<lambda>s _.
       try_check s (preflight_snapshot_rows s (snapshot_request envelope) reservations config
           (open_orders (env_payload envelope))) (\<lambda>_. Some (s, Ok ())))"

primrec apply_snapshot_rows ::
    "PmOrderState \<Rightarrow> PmPrivateOccurrence \<Rightarrow> PmOpenOrderReservation list \<Rightarrow> PmPrivateStateConfig \<Rightarrow> u16 \<Rightarrow> u16
      \<Rightarrow> PmOrderEvent list \<Rightarrow> (PmOrderState, u16 \<times> u16, PmOrderStateError) outcome" where
  "apply_snapshot_rows s request reservations config inserted updated [] = Some (s, Ok (inserted, updated))"
| "apply_snapshot_rows s request reservations config inserted updated (event # events) =
     and_then (reduce_snapshot_row s event request (companion_knowledge event reservations) config) (\<lambda>s r.
       apply_snapshot_rows s request reservations config
         (if r = Inserted then saturating_add inserted 1 else inserted)
         (if r = Updated then saturating_add updated 1 else updated) events)"

definition apply_fresh_open_snapshot ::
    "PmOrderState \<Rightarrow> PmCompleteOpenOrdersSnapshot EventEnvelope \<Rightarrow> PmOpenOrderReservation list \<Rightarrow> PmPrivateStateConfig
      \<Rightarrow> (PmOrderState, PmOpenOrdersApply, PmOrderStateError) outcome" where
  "apply_fresh_open_snapshot s envelope reservations config =
     (let snapshot = env_payload envelope
      in and_then (preflight_snapshot_capacity s snapshot) (\<lambda>s _.
      and_then (apply_snapshot_rows s (snapshot_request envelope) reservations config 0 0 (open_orders snapshot))
        (\<lambda>s (inserted, updated).
      let (s, retained) = mark_missing s snapshot (snapshot_request envelope);
          s = s\<lparr>os_latest_snapshot_revision := Some (open_snapshot snapshot),
                os_latest_snapshot_completion := Some (snapshot_completion envelope),
                os_observed_monotonic_ns := Some (monotonic_service_ns (env_clock envelope))\<rparr>
      in Some (order_bump (oc_retained_missing_update (\<lambda>n. saturating_add n (ucast retained))) s,
               Ok (Applied inserted updated retained)))))"

definition apply_open_snapshot ::
    "PmOrderState \<Rightarrow> PmCompleteOpenOrdersSnapshot EventEnvelope \<Rightarrow> PmOpenOrderReservation list \<Rightarrow> PmPrivateStateConfig
      \<Rightarrow> (PmOrderState, PmOpenOrdersApply, PmOrderStateError) outcome" where
  "apply_open_snapshot s envelope reservations config =
     try_check s (validate_open_snapshot envelope reservations config) (\<lambda>_.
     case snapshot_stale_or_duplicate s (env_payload envelope) (connection_epoch (env_ordering envelope)) of
       (s, Some outcome) \<Rightarrow> Some (s, Ok outcome)
     | (s, None) \<Rightarrow>
         and_then (preflight_fresh_open_snapshot s envelope reservations config) (\<lambda>s _.
           apply_fresh_open_snapshot s envelope reservations config))"

definition detail_terminalized :: "OrderEntry \<Rightarrow> PmPrivateOccurrence \<Rightarrow> OrderEntry" where
  "detail_terminalized entry completion =
     entry\<lparr>oe_reservation := None, oe_terminal_by_detail_absence := True, oe_last_occurrence := Some completion\<rparr>"

definition apply_detail ::
    "PmOrderState \<Rightarrow> PmExactOrderDetail EventEnvelope \<Rightarrow> PmReservationKnowledge \<Rightarrow> PmPrivateStateConfig
      \<Rightarrow> (PmOrderState, PmOrderApply, PmOrderStateError) outcome" where
  "apply_detail s envelope reservation config =
     try_result s (validate_detail envelope config) (\<lambda>_.
     let detail = env_payload envelope;
         epoch = connection_epoch (env_ordering envelope);
         request = PmPrivateOccurrence epoch (request_sequence (detail_boundary detail));
         s = s\<lparr>os_observed_monotonic_ns := Some (monotonic_service_ns (env_clock envelope))\<rparr>
     in case detail_order detail of
          Some event \<Rightarrow>
            try_check s (validate_remote_knowledge event (PmRemoteOrderKnowledge.Unmanaged reservation)) (\<lambda>reservation.
              reduce_snapshot_row s event request reservation config)
        | None \<Rightarrow>
            expect (expect_ok (PmOrderIdentity_new None (Some (detail_requested_order detail)))) (\<lambda>identity.
            expect (find_order s identity) (\<lambda>found.
            case found of
              None \<Rightarrow> Some (s, Ok PmOrderApply.Duplicate)
            | Some index \<Rightarrow>
                expect (nth_entry (os_entries s) index) (\<lambda>entry.
                  if later_than request entry then Some (s, Ok DetailAbsenceIgnoredAfterLaterEvent)
                  else if \<not> is_live entry then Some (s, Ok PmOrderApply.Duplicate)
                  else expect (checked_sub_word (os_live_count s) 1) (\<lambda>live.
                    Some (order_bump (oc_terminal_releases_update inc)
                            (s\<lparr>os_live_count := live,
                               os_entries := (os_entries s)[index := detail_terminalized entry
                                 (PmPrivateOccurrence epoch (completion_sequence (detail_boundary detail)))]\<rparr>),
                          Ok DetailAbsenceTerminalized))))))"

section \<open>Reads\<close>

definition projections :: "PmOrderState \<Rightarrow> PmOrderProjection list option" where
  "projections s = expect (canonical_entries s) (\<lambda>entries. Some (map OrderEntry_projection entries))"

definition order_ownership :: "PmOrderState \<Rightarrow> PmOrderIdentity \<Rightarrow> PmOrderOwnership option option" where
  "order_ownership s identity =
     expect (find_order s identity) (\<lambda>found.
       case found of
         None \<Rightarrow> Some None
       | Some index \<Rightarrow>
           expect (nth_entry (os_entries s) index) (\<lambda>entry. Some (Some (public_ownership (oe_ownership entry)))))"

definition owned_live_venue_orders :: "PmOrderState \<Rightarrow> PmVenueOrderKey list option" where
  "owned_live_venue_orders s =
     expect (canonical_entries s) (\<lambda>entries.
       Some (List.map_filter entry_venue
         (filter (\<lambda>entry. oe_ownership entry = ProvenOwned \<and> is_live entry) entries)))"

definition invalidate_freshness :: "PmOrderState \<Rightarrow> PmOrderState" where
  "invalidate_freshness s = s\<lparr>os_observed_monotonic_ns := None\<rparr>"

section \<open>The decision summary\<close>

record PmOrderDecisionSummary =
  sum_unmanaged_ambiguity :: bool
  sum_first_unknown_reservation :: "PmOrderIdentity option"
  sum_reservation_totals :: "(U256 \<times> U256, PmReservationTotalsError) result"
  sum_live_count :: u16
  sum_unresolved_count :: u16

definition add_reservation ::
    "PmOrderIdentity \<Rightarrow> PmReservationKnowledge option \<Rightarrow> (U256 \<times> U256, PmReservationTotalsError) result
      \<Rightarrow> (U256 \<times> U256, PmReservationTotalsError) result" where
  "add_reservation identity reservation totals =
     bind_result totals (\<lambda>(collateral, outcome).
       case reservation of
         None \<Rightarrow> Ok (collateral, outcome)
       | Some PmReservationKnowledge.Unknown \<Rightarrow> Err (Unknown identity)
       | Some (Known r) \<Rightarrow>
           map_err (\<lambda>_. Overflow)
             (bind_result (U256_checked_add collateral (res_collateral r)) (\<lambda>collateral.
              bind_result (U256_checked_add outcome (res_outcome r)) (\<lambda>outcome. Ok (collateral, outcome)))))"

definition unresolved :: "OrderEntry \<Rightarrow> bool" where
  "unresolved entry \<longleftrightarrow>
     oe_ownership entry = Ambiguous \<or> oe_event entry = None \<or> oe_missing_from_complete_open_snapshot entry"

definition undetermined :: "OrderEntry \<Rightarrow> bool" where
  "undetermined entry \<longleftrightarrow>
     oe_ownership entry = Ambiguous \<or> oe_reservation entry = Some PmReservationKnowledge.Unknown"

definition empty_summary :: PmOrderDecisionSummary where
  "empty_summary =
     \<lparr>sum_unmanaged_ambiguity = False, sum_first_unknown_reservation = None,
      sum_reservation_totals = Ok (U256_ZERO, U256_ZERO), sum_live_count = 0, sum_unresolved_count = 0\<rparr>"

definition summarize_entry :: "PmOrderDecisionSummary \<Rightarrow> OrderEntry \<Rightarrow> PmOrderDecisionSummary option" where
  "summarize_entry summary entry =
     expect (checked_add_word (sum_live_count summary) 1) (\<lambda>live.
     expect (if unresolved entry then checked_add_word (sum_unresolved_count summary) 1
             else Some (sum_unresolved_count summary)) (\<lambda>pending.
       Some \<lparr>sum_unmanaged_ambiguity = (sum_unmanaged_ambiguity summary \<or> oe_ownership entry = Ambiguous),
             sum_first_unknown_reservation =
               (if undetermined entry then option_or (sum_first_unknown_reservation summary) (Some (oe_identity entry))
                else sum_first_unknown_reservation summary),
             sum_reservation_totals =
               add_reservation (oe_identity entry) (oe_reservation entry) (sum_reservation_totals summary),
             sum_live_count = live, sum_unresolved_count = pending\<rparr>))"

primrec summarize_loop ::
    "PmOrderDecisionSummary \<times> bool \<Rightarrow> OrderEntry list \<Rightarrow> (PmOrderDecisionSummary \<times> bool) option" where
  "summarize_loop acc [] = Some acc"
| "summarize_loop acc (entry # entries) =
     (if \<not> is_live entry then summarize_loop acc entries
      else expect (summarize_entry (fst acc) entry) (\<lambda>summary.
        summarize_loop (summary, snd acc \<or> undetermined entry) entries))"

definition summarize :: "OrderEntry list \<Rightarrow> (PmOrderDecisionSummary \<times> bool) option" where
  "summarize entries = summarize_loop (empty_summary, False) entries"

definition decision_summary :: "PmOrderState \<Rightarrow> PmOrderDecisionSummary option" where
  "decision_summary s =
     (if os_live_count s = 0 then Some empty_summary
      else expect (summarize (os_entries s)) (\<lambda>(dense_summary, canonical_required).
        if canonical_required then
          expect (canonical_entries s) (\<lambda>entries. expect (summarize entries) (\<lambda>(summary, _). Some summary))
        else Some dense_summary))"

end
