(* ===== verification/Pm_Order_Rows.thy ===== *)
theory Pm_Order_Rows
  imports Pm_Order_Index_Laws Pm_Order_State
begin

text \<open>
  What a row of the private order table keeps while the reducer of \<open>order_state.rs\<close> updates it:
  the relation by which a later row continues an earlier one, the invariant of a row, the
  calculus of operations that keep both, and the merge of two rows that are the same order.
\<close>

section \<open>What a row keeps\<close>

definition lifecycle_le :: "PmOrderEvent \<Rightarrow> PmOrderEvent \<Rightarrow> bool" where
  "lifecycle_le previous next_event \<longleftrightarrow> validate_order_lifecycle previous next_event = Ok ()"

lemma lifecycle_le_iff:
  "lifecycle_le a b \<longleftrightarrow>
     order_source a = order_source b \<and> order_instrument a = order_instrument b \<and> order_side a = order_side b
     \<and> order_price a = order_price b
     \<and> original_quantity (order_progress a) = original_quantity (order_progress b)
     \<and> cumulative_filled (order_progress a) \<le> cumulative_filled (order_progress b)
     \<and> (terminal_event a \<longrightarrow> order_progress a = order_progress b)"
  by (auto simp: lifecycle_le_def validate_order_lifecycle_def not_less)

lemma lifecycle_le_refl [simp]: "lifecycle_le a a"
  by (simp add: lifecycle_le_iff)

lemma lifecycle_le_trans: "lifecycle_le a b \<Longrightarrow> lifecycle_le b c \<Longrightarrow> lifecycle_le a c"
  by (auto simp: lifecycle_le_iff terminal_event_def order_status_def)

text \<open>
  \<open>row_le e e'\<close>: the row \<open>e'\<close> continues \<open>e\<close>.  It has the keys of \<open>e\<close>, a lifecycle that follows
  the one \<open>e\<close> observed, the ownership and terms \<open>e\<close> was registered with, and no earlier
  occurrence.
\<close>

definition row_le :: "OrderEntry \<Rightarrow> OrderEntry \<Rightarrow> bool" where
  "row_le e e' \<longleftrightarrow>
     (\<forall>c. entry_client e = Some c \<longrightarrow> entry_client e' = Some c)
     \<and> (\<forall>v. entry_venue e = Some v \<longrightarrow> entry_venue e' = Some v)
     \<and> oe_instrument e' = oe_instrument e
     \<and> (\<forall>ev. oe_event e = Some ev \<longrightarrow> (\<exists>ev'. oe_event e' = Some ev' \<and> lifecycle_le ev ev'))
     \<and> (oe_ownership e = ProvenOwned \<longrightarrow> oe_ownership e' = ProvenOwned)
     \<and> (\<forall>t. oe_registered_terms e = Some t \<longrightarrow> oe_registered_terms e' = Some t)
     \<and> oe_last_occurrence e \<le> oe_last_occurrence e'"

lemma row_le_refl [simp]: "row_le e e"
  by (auto simp: row_le_def)

lemma row_le_trans: "row_le a b \<Longrightarrow> row_le b c \<Longrightarrow> row_le a c"
  unfolding row_le_def by (intro conjI) (blast intro: lifecycle_le_trans order_trans | simp)+

definition rows_continue :: "OrderEntry list \<Rightarrow> OrderEntry list \<Rightarrow> bool" where
  "rows_continue es es' \<longleftrightarrow> (\<forall>e\<in>set es. \<exists>e'\<in>set es'. row_le e e')"

lemma rows_continue_refl [simp]: "rows_continue es es"
  unfolding rows_continue_def using row_le_refl by blast

lemma rows_continue_trans: "rows_continue a b \<Longrightarrow> rows_continue b c \<Longrightarrow> rows_continue a c"
  unfolding rows_continue_def by (meson row_le_trans)

text \<open>What holds of every row of a reachable table.\<close>

definition identity_within :: "PmOrderIdentity \<Rightarrow> PmOrderIdentity \<Rightarrow> bool" where
  "identity_within a b \<longleftrightarrow>
     (\<forall>c. client_order_key a = Some c \<longrightarrow> client_order_key b = Some c)
     \<and> (\<forall>v. venue_order_key a = Some v \<longrightarrow> venue_order_key b = Some v)"

definition row_ok :: "OrderEntry \<Rightarrow> bool" where
  "row_ok e \<longleftrightarrow>
     (oe_event e = None \<longrightarrow> entry_client e \<noteq> None \<and> oe_ownership e = ProvenOwned
        \<and> (oe_last_occurrence e \<noteq> None \<longrightarrow> entry_venue e \<noteq> None))
     \<and> (oe_event e \<noteq> None \<longrightarrow> oe_last_occurrence e \<noteq> None)
     \<and> (oe_ownership e = ProvenOwned \<longleftrightarrow> oe_registered_terms e \<noteq> None)
     \<and> (\<forall>ev. oe_event e = Some ev \<longrightarrow> oe_instrument e = order_instrument ev
          \<and> identity_within (order_identity ev) (oe_identity e))
     \<and> (is_live e \<and> oe_reservation e = None \<longrightarrow> oe_ownership e = ProvenOwned)"

definition orders_ok :: "PmPrivateStateConfig \<Rightarrow> PmOrderState \<Rightarrow> bool" where
  "orders_ok config s \<longleftrightarrow>
     order_inv (cfg_account config) s
     \<and> (\<forall>e\<in>set (os_entries s). row_ok e \<and> oe_instrument e = cfg_instrument config)"

text \<open>
  The calculus of the operations: \<open>keeps config s0 out\<close> says that a computation that started
  from \<open>s0\<close> does not panic and leaves a well-formed table that continues every row of \<open>s0\<close>.
\<close>

definition keeps :: "PmPrivateStateConfig \<Rightarrow> PmOrderState \<Rightarrow> (PmOrderState, 'a, 'e) outcome \<Rightarrow> bool" where
  "keeps config s0 out \<longleftrightarrow>
     (\<exists>s r. out = Some (s, r) \<and> orders_ok config s \<and> rows_continue (os_entries s0) (os_entries s))"

lemma keeps_Some [simp]:
  "keeps config s0 (Some (s, r)) \<longleftrightarrow> orders_ok config s \<and> rows_continue (os_entries s0) (os_entries s)"
  by (simp add: keeps_def)

lemma keeps_and_then:
  assumes "keeps config s0 out"
    and "\<And>s a. out = Some (s, Ok a) \<Longrightarrow> orders_ok config s \<Longrightarrow> rows_continue (os_entries s0) (os_entries s) \<Longrightarrow> keeps config s0 (k s a)"
  shows "keeps config s0 (and_then out k)"
proof -
  obtain s r where out: "out = Some (s, r)" and ok: "orders_ok config s" "rows_continue (os_entries s0) (os_entries s)"
    using assms(1) by (auto simp: keeps_def)
  then show ?thesis using assms(2) by (cases r) simp_all
qed

lemma keeps_try_result:
  assumes "orders_ok config s" "rows_continue (os_entries s0) (os_entries s)"
    and "\<And>a. r = Ok a \<Longrightarrow> keeps config s0 (k a)"
  shows "keeps config s0 (try_result s r k)"
  using assms by (cases r) simp_all

lemma keeps_try_check:
  assumes "orders_ok config s" "rows_continue (os_entries s0) (os_entries s)" "r \<noteq> None"
    and "\<And>a. r = Some (Ok a) \<Longrightarrow> keeps config s0 (k a)"
  shows "keeps config s0 (try_check s r k)"
proof -
  obtain q where "r = Some q" using assms(3) by auto
  with assms show ?thesis by (cases q) simp_all
qed

lemma keeps_trans:
  assumes "keeps config s out" "rows_continue (os_entries s0) (os_entries s)"
  shows "keeps config s0 out"
  using assms by (auto simp: keeps_def intro: rows_continue_trans)

lemma order_bump_frame [simp]:
  "os_entries (order_bump f s) = os_entries s" "os_canonical_index (order_bump f s) = os_canonical_index s"
  "os_client_index (order_bump f s) = os_client_index s" "os_live_count (order_bump f s) = os_live_count s"
  "os_latest_snapshot_revision (order_bump f s) = os_latest_snapshot_revision s"
  "os_latest_snapshot_completion (order_bump f s) = os_latest_snapshot_completion s"
  "os_observed_monotonic_ns (order_bump f s) = os_observed_monotonic_ns s"
  by (simp_all add: order_bump_def)

lemma orders_ok_frame:
  assumes "os_entries t = os_entries s" "os_canonical_index t = os_canonical_index s"
    "os_client_index t = os_client_index s" "os_live_count t = os_live_count s"
  shows "orders_ok config t \<longleftrightarrow> orders_ok config s" "order_inv account t \<longleftrightarrow> order_inv account s"
  using assms by (simp_all add: orders_ok_def order_inv_def)

lemma orders_ok_bump [simp]: "orders_ok config (order_bump f s) \<longleftrightarrow> orders_ok config s"
  by (rule orders_ok_frame) simp_all

lemma count_remote_frame [simp]:
  "os_entries (count_remote s w) = os_entries s" "orders_ok config (count_remote s w) \<longleftrightarrow> orders_ok config s"
  by (cases w; simp add: count_remote_def)+

section \<open>Merging\<close>

lemma option_or_simps [simp]: "option_or None b = b" "option_or (Some x) b = Some x"
  by (simp_all add: option_or_def)

lemma merge_identity_in:
  assumes "identity_in account l" "identity_in account r"
  obtains m where "merge_identity l r = Some m" "identity_in account m"
    "client_order_key m = option_or (client_order_key l) (client_order_key r)"
    "venue_order_key m = option_or (venue_order_key l) (venue_order_key r)"
proof -
  let ?m = "\<lparr>client_order_key = option_or (client_order_key l) (client_order_key r),
    venue_order_key = option_or (venue_order_key l) (venue_order_key r)\<rparr>"
  have "merge_identity l r = Some ?m"
    using assms by (auto simp: merge_identity_def PmOrderIdentity_new_def identity_in_def expect_ok_def
        option_or_def split: option.splits)
  moreover have "identity_in account ?m"
    using assms by (auto simp: identity_in_def option_or_def split: option.splits)
  ultimately show thesis using that by simp
qed

lemma ensure_identity_merge_Ok:
  "ensure_identity_merge l r = Ok u \<longleftrightarrow>
     (\<forall>c d. client_order_key l = Some c \<longrightarrow> client_order_key r = Some d \<longrightarrow> c = d)
     \<and> (\<forall>v w. venue_order_key l = Some v \<longrightarrow> venue_order_key r = Some w \<longrightarrow> v = w)"
  by (auto simp: ensure_identity_merge_def split: option.splits)

lemma merge_registered_terms_Ok:
  "merge_registered_terms l r = Ok t \<Longrightarrow>
     (\<forall>x. l = Some x \<longrightarrow> t = Some x) \<and> (\<forall>x. r = Some x \<longrightarrow> t = Some x) \<and> (t \<noteq> None \<longleftrightarrow> l \<noteq> None \<or> r \<noteq> None)"
  by (auto simp: merge_registered_terms_def split: option.splits if_splits)

lemma merge_lifecycle_Ok:
  "merge_lifecycle c (Some a) (Some b) = Ok u \<longleftrightarrow>
     (case c of Less \<Rightarrow> lifecycle_le a b | Greater \<Rightarrow> lifecycle_le b a | Equal \<Rightarrow> a = b)"
  by (cases c) (simp_all add: merge_lifecycle_def lifecycle_le_def)

lemma merge_entries_Some:
  assumes "identity_in account (oe_identity l)" "identity_in account (oe_identity r)"
  shows "merge_entries l r \<noteq> None"
proof -
  obtain m where m: "merge_identity (oe_identity l) (oe_identity r) = Some m"
    by (rule merge_identity_in [OF assms])
  have "merge_owned_reservation l r \<noteq> None" if "merge_entry_ownership (oe_ownership l) (oe_ownership r) = ProvenOwned"
    using that by (auto simp: merge_entry_ownership_def merge_owned_reservation_def split: if_splits)
  then show ?thesis
    by (auto simp: merge_entries_def m Let_def try_opt_def split: result.splits option.splits)
qed

text \<open>
  What a successful merge gives.  The two rows share no key, so a row without an event cannot
  have been overtaken: it has no occurrence yet, or it already has both keys.
\<close>

lemma merge_entries_Ok:
  assumes m: "merge_entries l r = Some (Ok m)"
    and id: "identity_in account (oe_identity l)" "identity_in account (oe_identity r)"
  shows "oe_instrument l = oe_instrument r" "ensure_identity_merge (oe_identity l) (oe_identity r) = Ok ()"
    "merge_identity (oe_identity l) (oe_identity r) = Some (oe_identity m)"
    "merge_registered_terms (oe_registered_terms l) (oe_registered_terms r) = Ok (oe_registered_terms m)"
    "oe_ownership m = merge_entry_ownership (oe_ownership l) (oe_ownership r)"
    "merge_lifecycle (compare_of (oe_last_occurrence l) (oe_last_occurrence r)) (oe_event l) (oe_event r) = Ok ()"
    "oe_instrument m = oe_instrument l"
    "oe_event m = oe_event (merge_selected (compare_of (oe_last_occurrence l) (oe_last_occurrence r)) l r)"
    "oe_terminal_by_detail_absence m = oe_terminal_by_detail_absence (merge_selected (compare_of (oe_last_occurrence l) (oe_last_occurrence r)) l r)"
    "oe_last_occurrence m = oe_last_occurrence (merge_selected (compare_of (oe_last_occurrence l) (oe_last_occurrence r)) l r)"
    "oe_ownership m \<noteq> ProvenOwned \<Longrightarrow> oe_reservation m = None \<Longrightarrow>
       oe_reservation (merge_selected (compare_of (oe_last_occurrence l) (oe_last_occurrence r)) l r) = None"
  using m by (auto simp: merge_entries_def Let_def try_opt_Some expect_Some split: if_splits)


lemma unmerged_row_occurrence:
  assumes row: "row_ok r" "oe_event r = None" and id: "identity_in account (oe_identity l)"
    and compatible: "ensure_identity_merge (oe_identity l) (oe_identity r) = Ok () \<or> ensure_identity_merge (oe_identity r) (oe_identity l) = Ok ()"
    and apart: "\<not> identities_overlap (oe_identity l) (oe_identity r)"
  shows "oe_last_occurrence r = None" "oe_event l = None \<Longrightarrow> row_ok l \<Longrightarrow> False"
proof -
  obtain c where c: "client_order_key (oe_identity r) = Some c" using row by (auto simp: row_ok_def entry_client_def)
  have l: "client_order_key (oe_identity l) = None"
    using compatible apart c by (cases "client_order_key (oe_identity l)") (auto simp: ensure_identity_merge_Ok identities_overlap_iff)
  then obtain v where v: "venue_order_key (oe_identity l) = Some v" using id by (auto simp: identity_in_def)
  show "oe_last_occurrence r = None"
  proof (rule ccontr)
    assume "oe_last_occurrence r \<noteq> None"
    then obtain w where "venue_order_key (oe_identity r) = Some w" using row by (auto simp: row_ok_def entry_venue_def)
    with v compatible apart show False by (auto simp: ensure_identity_merge_Ok identities_overlap_iff)
  qed
  show "oe_event l = None \<Longrightarrow> row_ok l \<Longrightarrow> False" using l by (simp add: row_ok_def entry_client_def)
qed

lemma merged_event:
  assumes m: "merge_entries l r = Some (Ok m)"
    and id: "identity_in account (oe_identity l)" "identity_in account (oe_identity r)"
    and rows: "row_ok l" "row_ok r" and apart: "\<not> identities_overlap (oe_identity l) (oe_identity r)"
  obtains (left) a where "oe_event l = Some a" "oe_event m = Some a" "oe_last_occurrence m = oe_last_occurrence l"
      "oe_last_occurrence r \<le> oe_last_occurrence l" "\<And>b. oe_event r = Some b \<Longrightarrow> lifecycle_le b a"
      "merge_selected (compare_of (oe_last_occurrence l) (oe_last_occurrence r)) l r = l"
  | (right) b where "oe_event r = Some b" "oe_event m = Some b" "oe_last_occurrence m = oe_last_occurrence r"
      "oe_last_occurrence l \<le> oe_last_occurrence r" "\<And>a. oe_event l = Some a \<Longrightarrow> lifecycle_le a b"
      "merge_selected (compare_of (oe_last_occurrence l) (oe_last_occurrence r)) l r = r"
proof -
  note f = merge_entries_Ok [OF m id]
  have apart': "\<not> identities_overlap (oe_identity r) (oe_identity l)" using apart by (auto simp: identities_overlap_iff)
  note l_bare = unmerged_row_occurrence [OF rows(1) _ id(2) disjI2 [OF f(2)] apart']
  note r_bare = unmerged_row_occurrence [OF rows(2) _ id(1) disjI1 [OF f(2)] apart]
  let ?c = "compare_of (oe_last_occurrence l) (oe_last_occurrence r)"
  have go_right: thesis if c: "?c = Less" "oe_event r = Some b" "\<And>a. oe_event l = Some a \<Longrightarrow> lifecycle_le a b" for b
  proof -
    have sel: "merge_selected ?c l r = r" unfolding c(1) by (simp add: merge_selected_def)
    have "oe_last_occurrence l \<le> oe_last_occurrence r" using c(1) by simp
    then show thesis by (intro right [of b] sel c(3)) (simp_all add: c(2) f(8,10) sel del: compare_of_simps)
  qed
  have go_left: thesis if c: "?c \<noteq> Less" "oe_event l = Some a" "\<And>b. oe_event r = Some b \<Longrightarrow> lifecycle_le b a" for a
  proof -
    have sel: "merge_selected ?c l r = l" using c(1,2) by (cases ?c) (simp_all add: merge_selected_def del: compare_of_simps)
    have "oe_last_occurrence r \<le> oe_last_occurrence l" using c(1) by (simp add: not_less)
    then show thesis by (intro left [of a] sel c(3)) (simp_all add: c(2) f(8,10) sel del: compare_of_simps)
  qed
  show thesis
  proof (cases "oe_event l")
    case None
    with l_bare rows obtain b where b: "oe_event r = Some b" "oe_last_occurrence l = None" "oe_last_occurrence r \<noteq> None"
      by (cases "oe_event r") (auto simp: row_ok_def)
    then have "?c = Less" by auto
    then show thesis by (rule go_right [OF _ b(1)]) (simp add: None)
  next
    case a: (Some a)
    show thesis
    proof (cases "oe_event r")
      case None
      then have "oe_last_occurrence r = None" by (rule r_bare)
      then have "?c \<noteq> Less" by simp
      then show thesis by (rule go_left [OF _ a]) (simp add: None)
    next
      case b: (Some b)
      have lc: "case ?c of Less \<Rightarrow> lifecycle_le a b | Greater \<Rightarrow> lifecycle_le b a | Equal \<Rightarrow> a = b"
        using f(6) unfolding a b merge_lifecycle_Ok .
      show thesis
      proof (cases "?c = Less")
        case True
        then show thesis by (rule go_right [OF _ b]) (use lc a in \<open>simp add: True del: compare_of_simps\<close>)
      next
        case False
        then show thesis by (rule go_left [OF _ a]) (use lc b False in \<open>cases ?c; simp del: compare_of_simps\<close>)
      qed
    qed
  qed
qed

lemma some_le: "(a :: 'a::linorder option) \<le> b \<Longrightarrow> a \<noteq> None \<Longrightarrow> b \<noteq> None"
  by (cases b; cases a) simp_all

lemma merged_row:
  assumes m: "merge_entries l r = Some (Ok m)"
    and id: "identity_in account (oe_identity l)" "identity_in account (oe_identity r)"
    and rows: "row_ok l" "row_ok r" and apart: "\<not> identities_overlap (oe_identity l) (oe_identity r)"
  shows "identity_in account (oe_identity m)" "row_ok m" "row_le l m" "row_le r m"
    "entry_client m = option_or (entry_client l) (entry_client r)"
    "entry_venue m = option_or (entry_venue l) (entry_venue r)"
proof -
  note f = merge_entries_Ok [OF m id]
  obtain i where i: "merge_identity (oe_identity l) (oe_identity r) = Some i" "identity_in account i"
    "client_order_key i = option_or (client_order_key (oe_identity l)) (client_order_key (oe_identity r))"
    "venue_order_key i = option_or (venue_order_key (oe_identity l)) (venue_order_key (oe_identity r))"
    by (rule merge_identity_in [OF id])
  show "identity_in account (oe_identity m)" using i f(3) by simp
  show keys: "entry_client m = option_or (entry_client l) (entry_client r)"
    "entry_venue m = option_or (entry_venue l) (entry_venue r)"
    using i f(3) by (simp_all add: entry_client_def entry_venue_def)
  have kl: "entry_client l = Some c \<Longrightarrow> entry_client m = Some c" "entry_venue l = Some v \<Longrightarrow> entry_venue m = Some v"
    and kr: "entry_client r = Some c \<Longrightarrow> entry_client m = Some c" "entry_venue r = Some v \<Longrightarrow> entry_venue m = Some v" for c v
    using f(2) keys
    by (auto simp: ensure_identity_merge_Ok entry_client_def entry_venue_def option_or_def split: option.splits)
  note terms = merge_registered_terms_Ok [OF f(4)]
  have own: "oe_ownership m = ProvenOwned \<longleftrightarrow> oe_ownership l = ProvenOwned \<or> oe_ownership r = ProvenOwned"
    using f(5) by (auto simp: merge_entry_ownership_def)
  have within: "identity_within (order_identity ev) (oe_identity m)"
    if "identity_within (order_identity ev) (oe_identity l) \<or> identity_within (order_identity ev) (oe_identity r)" for ev
    using that kl kr by (auto simp: identity_within_def entry_client_def entry_venue_def)
  have ev: "oe_event l = Some a \<Longrightarrow> \<exists>e. oe_event m = Some e \<and> lifecycle_le a e"
    "oe_event r = Some a \<Longrightarrow> \<exists>e. oe_event m = Some e \<and> lifecycle_le a e"
    "oe_event m \<noteq> None" "oe_event m = Some a \<Longrightarrow> oe_event l = Some a \<or> oe_event r = Some a"
    "oe_last_occurrence l \<le> oe_last_occurrence m" "oe_last_occurrence r \<le> oe_last_occurrence m" for a
    by (rule merged_event [OF m id rows apart]; simp)+
  obtain e where e: "oe_event m = Some e" using ev(3) by auto
  have last: "oe_last_occurrence m \<noteq> None"
    using ev(4) [OF e] rows some_le [OF ev(5)] some_le [OF ev(6)] unfolding row_ok_def by blast
  have bare: "oe_ownership m = ProvenOwned" if "is_live m" "oe_reservation m = None"
  proof (rule ccontr)
    assume not: "oe_ownership m \<noteq> ProvenOwned"
    let ?sel = "merge_selected (compare_of (oe_last_occurrence l) (oe_last_occurrence r)) l r"
    have "oe_reservation ?sel = None" by (rule f(11) [OF not that(2)])
    moreover have "is_live ?sel" using that(1) f(8,9) by (simp add: is_live_def)
    moreover have "?sel = l \<or> ?sel = r" by (auto simp: merge_selected_def split: ordering.split)
    ultimately have "oe_ownership l = ProvenOwned \<or> oe_ownership r = ProvenOwned"
      using rows by (auto simp: row_ok_def)
    with own not show False by simp
  qed
  show "row_le l m"
    unfolding row_le_def using kl ev(1,5) own terms f(7) by blast
  show "row_le r m"
    unfolding row_le_def using kr ev(2,6) own terms f(1,7) by simp
  have "oe_instrument m = order_instrument e \<and> identity_within (order_identity e) (oe_identity m)"
    using ev(4) [OF e] rows f(1,7) within [of e] by (auto simp: row_ok_def)
  moreover have "oe_ownership m = ProvenOwned \<longleftrightarrow> oe_registered_terms m \<noteq> None"
    using own terms rows by (auto simp: row_ok_def)
  ultimately show "row_ok m"
    using e last bare by (simp add: row_ok_def)
qed

end
