(* ===== verification/Reap_Reducer.thy ===== *)
theory Reap_Reducer
  imports Reap_Slots
begin

text \<open>
  The contract of a reducer that may panic: a step function on states, the inputs its callers
  may pass, an invariant, and a relation by which a later state continues an earlier one.  A
  reducer that keeps the invariant on every admissible input never panics on a run, and a run of
  inputs that forget nothing continues the state it started from.
\<close>

primrec run_steps :: "('s \<Rightarrow> 'i \<Rightarrow> 's option) \<Rightarrow> 's \<Rightarrow> 'i list \<Rightarrow> 's option" where
  "run_steps step s [] = Some s"
| "run_steps step s (input # inputs) = expect (step s input) (\<lambda>t. run_steps step t inputs)"

locale reducer =
  fixes step :: "'s \<Rightarrow> 'i \<Rightarrow> 's option"
    and admissible :: "'i \<Rightarrow> bool"
    and retains :: "'i \<Rightarrow> bool"
    and inv :: "'s \<Rightarrow> bool"
    and continues :: "'s \<Rightarrow> 's \<Rightarrow> bool"
  assumes step_total: "inv s \<Longrightarrow> admissible i \<Longrightarrow> \<exists>s'. step s i = Some s' \<and> inv s' \<and> (retains i \<longrightarrow> continues s s')"
    and continues_refl: "continues s s"
    and continues_trans: "continues s t \<Longrightarrow> continues t u \<Longrightarrow> continues s u"
begin

lemma run_total:
  assumes "inv s" "\<forall>i\<in>set inputs. admissible i"
  shows "\<exists>s'. run_steps step s inputs = Some s' \<and> inv s' \<and> ((\<forall>i\<in>set inputs. retains i) \<longrightarrow> continues s s')"
  using assms
proof (induction inputs arbitrary: s)
  case (Cons i inputs)
  obtain t where t: "step s i = Some t" "inv t" "retains i \<longrightarrow> continues s t"
    using step_total Cons.prems by fastforce
  then show ?case using Cons.IH [OF t(2)] Cons.prems(2) continues_trans by fastforce
qed (simp add: continues_refl)

lemma run_keeps: "inv s \<Longrightarrow> \<forall>i\<in>set inputs. admissible i \<Longrightarrow> run_steps step s inputs = Some s' \<Longrightarrow> inv s'"
  using run_total by fastforce

lemma run_continues:
  "inv s \<Longrightarrow> \<forall>i\<in>set inputs. admissible i \<Longrightarrow> \<forall>i\<in>set inputs. retains i \<Longrightarrow> run_steps step s inputs = Some s' \<Longrightarrow> continues s s'"
  using run_total by fastforce

end

lemma run_steps_append:
  "run_steps step s (xs @ ys) = expect (run_steps step s xs) (\<lambda>t. run_steps step t ys)"
  by (induction xs arbitrary: s) (simp_all add: expect_def split: option.split)

section \<open>Runs with outputs\<close>

text \<open>
  A component that implements a total specification: every step of the implementation is
  defined, answers what the specification answers, and leads to a state that stands for the
  specification's next state.
\<close>

primrec run_outputs :: "('s \<Rightarrow> 'i \<Rightarrow> ('s \<times> 'o) option) \<Rightarrow> 's \<Rightarrow> 'i list \<Rightarrow> ('s \<times> 'o list) option" where
  "run_outputs step s [] = Some (s, [])"
| "run_outputs step s (input # inputs) =
     expect (step s input) (\<lambda>(t, out). expect (run_outputs step t inputs) (\<lambda>(u, outs). Some (u, out # outs)))"

primrec spec_outputs :: "('a \<Rightarrow> 'i \<Rightarrow> 'a \<times> 'o) \<Rightarrow> 'a \<Rightarrow> 'i list \<Rightarrow> 'a \<times> 'o list" where
  "spec_outputs spec a [] = (a, [])"
| "spec_outputs spec a (input # inputs) =
     (case spec a input of (b, out) \<Rightarrow> case spec_outputs spec b inputs of (c, outs) \<Rightarrow> (c, out # outs))"

locale simulation =
  fixes step :: "'s \<Rightarrow> 'i \<Rightarrow> ('s \<times> 'o) option"
    and spec :: "'a \<Rightarrow> 'i \<Rightarrow> 'a \<times> 'o"
    and inv :: "'s \<Rightarrow> bool"
    and denotes :: "'s \<Rightarrow> 'a"
  assumes step_refines: "inv s \<Longrightarrow> \<exists>t out. step s i = Some (t, out) \<and> spec (denotes s) i = (denotes t, out) \<and> inv t"
begin

lemma run_refines:
  assumes "inv s"
  shows "\<exists>t outs. run_outputs step s inputs = Some (t, outs) \<and> spec_outputs spec (denotes s) inputs = (denotes t, outs) \<and> inv t"
  using assms
proof (induction inputs arbitrary: s)
  case (Cons i inputs)
  obtain t out where t: "step s i = Some (t, out)" "spec (denotes s) i = (denotes t, out)" "inv t"
    using step_refines [OF Cons.prems] by blast
  obtain u outs where u: "run_outputs step t inputs = Some (u, outs)" "spec_outputs spec (denotes t) inputs = (denotes u, outs)" "inv u"
    using Cons.IH [OF t(3)] by blast
  show ?case using t u by simp
qed simp

lemma run_inv:
  assumes "inv s" "run_outputs step s inputs = Some (t, outs)"
  shows "inv t" "spec_outputs spec (denotes s) inputs = (denotes t, outs)"
  using run_refines [OF assms(1), of inputs] assms(2) by auto

lemma step_inv:
  assumes "inv s" "step s i = Some (t, out)"
  shows "inv t" "spec (denotes s) i = (denotes t, out)"
  using step_refines [OF assms(1), of i] assms(2) by auto

end

end
