(* ===== verification/Pm_Order_Invariant.thy ===== *)
theory Pm_Order_Invariant
  imports Pm_Order_Rows Reap_Reducer
begin

text \<open>
  What the private order reducer keeps.  Every operation of \<open>Pm_Order_State\<close> returns without
  a panic on a well-formed table and a constructed input, leaves a well-formed table, and every
  row of the table before it is continued by a row after it: keys, ownership and registered
  terms are never lost, and an order's lifecycle never regresses.
\<close>

section \<open>Inputs\<close>

definition event_ok :: "PmOrderEvent \<Rightarrow> bool" where
  "event_ok event \<longleftrightarrow>
     PmOrderIdentity_new (client_order_key (order_identity event)) (venue_order_key (order_identity event))
       = Ok (order_identity event)
     \<and> progress_ok (order_progress event)"

lemma validate_event_Ok:
  assumes "event_ok event" "validate_event event source config = Ok u"
  shows "identity_in (cfg_account config) (order_identity event)" "order_instrument event = cfg_instrument config"
  using assms
  by (auto simp: event_ok_def validate_event_def PmOrderIdentity_new_def PmOrderEvent_account_def
      PmOrderIdentity_account_def identity_in_def split: if_splits option.splits)

lemma validate_reservation_Some: "event_ok event \<Longrightarrow> validate_reservation event k \<noteq> None"
  by (auto simp: event_ok_def validate_reservation_def elim: remaining_quantity_units_Some split: PmReservationKnowledge.split)

lemma validate_remote_knowledge_Some: "event_ok event \<Longrightarrow> validate_remote_knowledge event k \<noteq> None"
proof -
  assume ok: "event_ok event"
  show ?thesis
  proof (cases k)
    case (Unmanaged reservation)
    obtain q where "validate_reservation event reservation = Some q" using validate_reservation_Some [OF ok] by auto
    then show ?thesis using Unmanaged by (cases q) (simp_all add: validate_remote_knowledge_def)
  qed (simp add: validate_remote_knowledge_def)
qed

section \<open>Each operation\<close>

lemma orders_okD:
  assumes "orders_ok config s"
  shows "order_inv (cfg_account config) s"
    "i < length (os_entries s) \<Longrightarrow> row_ok (os_entries s ! i) \<and> oe_instrument (os_entries s ! i) = cfg_instrument config
       \<and> identity_in (cfg_account config) (oe_identity (os_entries s ! i))"
  using assms by (auto simp: orders_ok_def order_inv_def)

lemma rows_continue_append [simp]: "rows_continue es (es @ rs)"
  unfolding rows_continue_def using row_le_refl by fastforce

lemma rows_continue_update:
  assumes "i < length es" "row_le (es ! i) r"
  shows "rows_continue es (es[i := r])"
  unfolding rows_continue_def
proof
  fix e assume "e \<in> set es"
  then obtain j where j: "j < length es" "e = es ! j" by (auto simp: in_set_conv_nth)
  show "\<exists>e'\<in>set (es[i := r]). row_le e e'"
  proof (cases "j = i")
    case True
    then show ?thesis using assms j by (intro bexI [of _ r]) (simp_all add: set_update_memI)
  next
    case False
    then have "es[i := r] ! j = e" using j by simp
    then show ?thesis using j by (metis length_list_update nth_mem row_le_refl)
  qed
qed

text \<open>A new row.\<close>

lemma insert_order_keeps:
  assumes ok: "orders_ok config s" and id: "identity_in (cfg_account config) (oe_identity r)"
    and row: "row_ok r" "oe_instrument r = cfg_instrument config" and new: "fresh_identity (os_entries s) (oe_identity r)"
  shows "keeps config s (insert_order s r)"
proof (cases "length (os_entries s) = MAX_PM_PRIVATE_ORDERS")
  case True
  then show ?thesis using ok by (simp add: insert_order_def)
next
  case False
  then have "length (os_entries s) < MAX_PM_PRIVATE_ORDERS" using orders_okD(1) [OF ok] by (simp add: order_inv_def)
  then obtain s' where "insert_ordered s r = Some (s', Ok ())" "order_inv (cfg_account config) s'" "os_entries s' = os_entries s @ [r]"
    by (rule insert_ordered_ok [OF orders_okD(1) [OF ok] _ id new])
  then show ?thesis using False ok row by (simp add: insert_order_def orders_ok_def)
qed

text \<open>A row in place.\<close>

lemma replace_ordered_keeps:
  assumes ok: "orders_ok config s" and i: "i < length (os_entries s)"
    and id: "identity_in (cfg_account config) (oe_identity r)"
    and row: "row_ok r" "oe_instrument r = cfg_instrument config" and le: "row_le (os_entries s ! i) r"
    and others: "\<forall>j<length (os_entries s). j \<noteq> i \<longrightarrow> \<not> identities_overlap (oe_identity (os_entries s ! j)) (oe_identity r)"
  shows "keeps config s (replace_ordered s i r)"
proof -
  obtain s' where "replace_ordered s i r = Some (s', Ok ())" "order_inv (cfg_account config) s'" "os_entries s' = (os_entries s)[i := r]"
    by (rule replace_ordered_ok [OF orders_okD(1) [OF ok] i id others])
  moreover have "\<forall>e\<in>set ((os_entries s)[i := r]). row_ok e \<and> oe_instrument e = cfg_instrument config"
    using ok row set_update_subset_insert [of "os_entries s" i r] by (auto simp: orders_ok_def)
  ultimately show ?thesis using rows_continue_update [OF i le] by (simp add: orders_ok_def)
qed

text \<open>Distinct rows share no key.\<close>

lemma rows_apart:
  assumes "order_inv account s" "i < length (os_entries s)" "j < length (os_entries s)" "i \<noteq> j"
  shows "\<not> identities_overlap (oe_identity (os_entries s ! i)) (oe_identity (os_entries s ! j))"
  using unique_keys_nth [OF order_inv_unique(1) [OF assms(1)] assms(2,3)]
    unique_keys_nth [OF order_inv_unique(2) [OF assms(1)] assms(2,3)] assms(4)
  by (auto simp: identities_overlap_iff entry_client_def entry_venue_def)

text \<open>The only row that shares a key with an identity.\<close>

definition sole :: "OrderEntry list \<Rightarrow> nat \<Rightarrow> PmOrderIdentity \<Rightarrow> bool" where
  "sole es i identity \<longleftrightarrow>
     i < length es \<and> identities_overlap (oe_identity (es ! i)) identity
     \<and> (\<forall>j<length es. j \<noteq> i \<longrightarrow> \<not> identities_overlap (oe_identity (es ! j)) identity)"

lemma merge_identity_overlap:
  assumes "merge_identity a b = Some m"
  shows "identities_overlap x m \<Longrightarrow> identities_overlap x a \<or> identities_overlap x b"
  using assms by (auto simp: merge_identity_def PmOrderIdentity_new_def identities_overlap_iff option_or_def expect_ok_def
      split: if_splits option.splits)

lemma sole_merged:
  assumes inv: "order_inv account s" and i: "sole (os_entries s) i identity"
    and m: "merge_identity (oe_identity (os_entries s ! i)) identity = Some m"
  shows "\<forall>j<length (os_entries s). j \<noteq> i \<longrightarrow> \<not> identities_overlap (oe_identity (os_entries s ! j)) m"
  using i rows_apart [OF inv] merge_identity_overlap [OF m] by (auto simp: sole_def)

text \<open>An identity merged into a row.\<close>

lemma merged_identity_keys:
  assumes m: "merge_identity a b = Some m" and ok: "ensure_identity_merge a b = Ok u"
  shows "client_order_key a = Some c \<or> client_order_key b = Some c \<Longrightarrow> client_order_key m = Some c"
    "venue_order_key a = Some v \<or> venue_order_key b = Some v \<Longrightarrow> venue_order_key m = Some v"
  using m ok by (auto simp: merge_identity_def PmOrderIdentity_new_def ensure_identity_merge_Ok option_or_def expect_ok_def
      split: if_splits option.splits)

lemma updated_entry_row:
  assumes row: "row_ok prior" and inst: "oe_instrument prior = order_instrument event"
    and m: "merge_identity (oe_identity prior) (order_identity event) = Some identity"
    and ok: "ensure_identity_merge (oe_identity prior) (order_identity event) = Ok u"
    and lc: "\<And>previous. oe_event prior = Some previous \<Longrightarrow> lifecycle_le previous event"
    and later: "oe_last_occurrence prior \<le> Some occurrence"
    and r_def: "r = updated_entry prior identity event occurrence knowledge reservation"
  shows "row_ok r" "row_le prior r" "oe_identity r = identity" "oe_instrument r = oe_instrument prior"
    "oe_registered_terms r = oe_registered_terms prior"
proof -
  note keys = merged_identity_keys [OF m ok]
  show f: "oe_identity r = identity" "oe_instrument r = oe_instrument prior" "oe_registered_terms r = oe_registered_terms prior"
    by (simp_all add: r_def updated_entry_def Let_def)
  have g: "oe_event r = Some event" "oe_last_occurrence r = Some occurrence" "\<not> oe_terminal_by_detail_absence r"
    by (simp_all add: r_def updated_entry_def Let_def)
  have own: "oe_ownership r = ProvenOwned \<longleftrightarrow> oe_ownership prior = ProvenOwned"
    by (auto simp: r_def updated_entry_def Let_def merge_remote_ownership_def
        split: OwnershipState.splits PmRemoteOrderKnowledge.splits)
  have res: "is_live r \<and> oe_reservation r = None \<longrightarrow> oe_ownership r = ProvenOwned"
    using g by (auto simp: is_live_def r_def updated_entry_def Let_def live_reservation_def)
  have "identity_within (order_identity event) identity"
    using keys by (simp add: identity_within_def)
  then show "row_ok r"
    using row own res f g inst by (auto simp: row_ok_def)
  show "row_le prior r"
    unfolding row_le_def using f g own lc keys later by (auto simp: entry_client_def entry_venue_def)
qed

lemma update_existing_keeps:
  assumes ok: "orders_ok config s" and i: "sole (os_entries s) i (order_identity event)"
    and id: "identity_in (cfg_account config) (order_identity event)" and inst: "order_instrument event = cfg_instrument config"
  shows "keeps config s (update_existing s i event occurrence knowledge reservation)"
proof -
  let ?p = "os_entries s ! i"
  have i': "i < length (os_entries s)" using i by (simp add: sole_def)
  note p = orders_okD(2) [OF ok i']
  have lookup: "nth_entry (os_entries s) i = Some ?p" using i' by (simp add: nth_entry_def)
  obtain m where m: "merge_identity (oe_identity ?p) (order_identity event) = Some m" "identity_in (cfg_account config) m"
    using merge_identity_in [of "cfg_account config" "oe_identity ?p" "order_identity event"] p id by blast
  let ?r = "updated_entry ?p m event occurrence knowledge reservation"
  have written: "keeps config s (replace_ordered s i ?r)"
    if "ensure_identity_merge (oe_identity ?p) (order_identity event) = Ok u"
      "\<not> is_some_and (\<lambda>previous. \<not> is_ok (validate_order_lifecycle previous event)) (oe_event ?p)"
      "\<not> is_some_and (\<lambda>prior_occurrence. occurrence < prior_occurrence) (oe_last_occurrence ?p)" for u
  proof -
    have later: "oe_last_occurrence ?p \<le> Some occurrence"
      using that(3) by (cases "oe_last_occurrence ?p") (simp_all add: is_some_and_def not_less)
    have lc: "lifecycle_le previous event" if "oe_event ?p = Some previous" for previous
      using \<open>\<not> is_some_and (\<lambda>previous. \<not> is_ok (validate_order_lifecycle previous event)) (oe_event ?p)\<close> that
      by (cases "validate_order_lifecycle previous event") (simp_all add: is_some_and_def lifecycle_le_def is_ok_def)
    note u = updated_entry_row [of ?p event m u occurrence _ knowledge reservation, OF _ _ m(1) that(1) lc later refl]
    show ?thesis
      using u p inst m sole_merged [OF orders_okD(1) [OF ok] i m(1)]
      by (intro replace_ordered_keeps [OF ok i']) simp_all
  qed
  show ?thesis
    unfolding update_existing_def lookup
    by (auto simp: ok m(1) intro!: keeps_try_result keeps_and_then written)
qed

text \<open>
  Two rows that turn out to be the same order.  The scans for a third row with the merged keys
  never find one.
\<close>

lemma indexed_ex: "list_ex (\<lambda>(index, e). P index e) (indexed es) \<longleftrightarrow> (\<exists>i<length es. P i (es ! i))"
proof -
  have "set (indexed es) = {(i, es ! i) | i. i < length es}"
    by (force simp: indexed_def set_zip)
  then show ?thesis by (auto simp: list_ex_iff)
qed

lemma swap_remove_two:
  assumes "lower < upper" "upper < length xs"
  shows "swap_remove upper xs ! lower = xs ! lower" "lower < length (swap_remove upper xs)"
    "mset xs = add_mset (xs ! lower) (add_mset (xs ! upper) (mset (swap_remove lower (swap_remove upper xs))))"
proof -
  show a: "swap_remove upper xs ! lower = xs ! lower" and b: "lower < length (swap_remove upper xs)"
    using assms by (simp_all add: swap_remove_def nth_butlast)
  show "mset xs = add_mset (xs ! lower) (add_mset (xs ! upper) (mset (swap_remove lower (swap_remove upper xs))))"
    using mset_swap_remove [OF assms(2)] mset_swap_remove [OF b] a by (simp add: add_mset_commute)
qed

lemma swap_remove_two_rest:
  assumes "lower < upper" "upper < length xs" "e \<in> set (swap_remove lower (swap_remove upper xs))"
  shows "\<exists>j<length xs. j \<noteq> lower \<and> j \<noteq> upper \<and> e = xs ! j"
proof -
  have step: "\<exists>q<length ys. q \<noteq> i \<and> x = ys ! q" if mem: "x \<in> set (swap_remove i ys)" for x i and ys :: "'a list"
  proof -
    obtain p where p: "p < length ys - 1" "x = (butlast ys)[i := last ys] ! p"
      using mem unfolding swap_remove_def in_set_conv_nth by auto
    then have "last ys = ys ! (length ys - 1)" by (intro last_conv_nth) auto
    then have "x = (if p = i then ys ! (length ys - 1) else ys ! p)" using p by (auto simp: nth_list_update nth_butlast)
    then show ?thesis using p by (intro exI [of _ "if p = i then length ys - 1 else p"]) auto
  qed
  obtain q where q: "q < length (swap_remove upper xs)" "q \<noteq> lower" "e = swap_remove upper xs ! q"
    using step [OF assms(3)] by blast
  then have "q < length xs - 1" by (simp add: swap_remove_def)
  moreover from this have "last xs = xs ! (length xs - 1)" by (intro last_conv_nth) auto
  ultimately have "e = (if q = upper then xs ! (length xs - 1) else xs ! q)"
    using q by (auto simp: swap_remove_def nth_list_update nth_butlast)
  then show ?thesis
    using q(2) \<open>q < length xs - 1\<close> assms(1) by (intro exI [of _ "if q = upper then length xs - 1 else q"]) auto
qed

lemma remove_two:
  assumes inv: "order_inv account s" and lu: "lower < upper" "upper < length (os_entries s)"
  obtains s1 s2 x y where "remove_dense s upper = Some (s1, x)" "remove_dense s1 lower = Some (s2, y)"
    "order_inv account s2" "os_entries s2 = swap_remove lower (swap_remove upper (os_entries s))" "os_rest s2 = os_rest s"
proof -
  obtain s1 where s1: "remove_dense s upper = Some (s1, os_entries s ! upper)" "order_inv account s1"
    "os_entries s1 = swap_remove upper (os_entries s)" "os_rest s1 = os_rest s"
    by (rule remove_dense_ok [OF inv lu(2)])
  have "lower < length (os_entries s1)" using swap_remove_two(2) [OF lu] s1(3) by simp
  from remove_dense_ok [OF s1(2) this]
  obtain s2 where "remove_dense s1 lower = Some (s2, os_entries s1 ! lower)" "order_inv account s2"
    "os_entries s2 = swap_remove lower (os_entries s1)" "os_rest s2 = os_rest s1" by blast
  then show thesis using s1 by (intro that [of s1 _ s2]) simp_all
qed

lemma coalesce_checked:
  assumes inv: "order_inv account s" and ik: "i < length (os_entries s)" "k < length (os_entries s)" "i \<noteq> k"
    and rows: "row_ok (os_entries s ! i)" "row_ok (os_entries s ! k)"
    and m: "merge_entries (os_entries s ! i) (os_entries s ! k) = Some (Ok m)"
    and j: "j < length (os_entries s)" "j \<noteq> i" "j \<noteq> k"
  shows "\<not> identities_overlap (oe_identity (os_entries s ! j)) (oe_identity m)" "compare_entries (os_entries s ! j) m \<noteq> Equal"
    "entry_client m = Some c \<Longrightarrow> entry_client (os_entries s ! j) \<noteq> Some c"
proof -
  have id: "identity_in account (oe_identity (os_entries s ! n))" if "n < length (os_entries s)" for n
    using inv that by (simp add: order_inv_def)
  note f = merge_entries_Ok [OF m id [OF ik(1)] id [OF ik(2)]]
  show apart: "\<not> identities_overlap (oe_identity (os_entries s ! j)) (oe_identity m)"
    using merge_identity_overlap [OF f(3)] rows_apart [OF inv j(1)] ik j by blast
  have "identity_in account (oe_identity m)"
    by (rule merged_row [OF m id [OF ik(1)] id [OF ik(2)] rows rows_apart [OF inv ik]])
  with fresh_keys [OF apart] show "compare_entries (os_entries s ! j) m \<noteq> Equal"
    "entry_client m = Some c \<Longrightarrow> entry_client (os_entries s ! j) \<noteq> Some c"
    by (simp_all add: compare_entries_rank)
qed

lemma coalesce_entries_cases:
  assumes ok: "orders_ok config s" and ik: "i < length (os_entries s)" "k < length (os_entries s)" "i \<noteq> k"
  obtains (conflict) e where "merge_entries (os_entries s ! i) (os_entries s ! k) = Some (Err e)"
      "coalesce_entries s i k = Some (s, Err e)"
  | (merged) m s' R where "merge_entries (os_entries s ! i) (os_entries s ! k) = Some (Ok m)"
      "coalesce_entries s i k = Some (s', Ok ())" "order_inv (cfg_account config) s'" "os_rest s' = os_rest s"
      "mset (os_entries s) = add_mset (os_entries s ! i) (add_mset (os_entries s ! k) R)"
      "mset (os_entries s') = add_mset m R"
      "\<forall>e\<in>#R. \<exists>j<length (os_entries s). j \<noteq> i \<and> j \<noteq> k \<and> e = os_entries s ! j"
proof -
  let ?es = "os_entries s" and ?a = "cfg_account config"
  note inv = orders_okD(1) [OF ok] and pi = orders_okD(2) [OF ok ik(1)] and pk = orders_okD(2) [OF ok ik(2)]
  have look: "nth_entry ?es i = Some (?es ! i)" "nth_entry ?es k = Some (?es ! k)" using ik by (simp_all add: nth_entry_def)
  obtain q where q: "merge_entries (?es ! i) (?es ! k) = Some q"
    using merge_entries_Some [of ?a "?es ! i" "?es ! k"] pi pk by auto
  show thesis
  proof (cases q)
    case (Err e)
    then show thesis using q look by (intro conflict [of e]) (simp_all add: coalesce_entries_def)
  next
    case (Ok m)
    note m = q [unfolded Ok]
    note checked = coalesce_checked [OF inv ik _ _ m]
    define lower where "lower = min i k"
    define upper where "upper = max i k"
    have lu: "lower < upper" "upper < length ?es" and pair: "(if i < k then (i, k) else (k, i)) = (lower, upper)"
      using ik by (auto simp: lower_def upper_def min_def max_def)
    have among: "j \<noteq> lower \<and> j \<noteq> upper \<longleftrightarrow> j \<noteq> i \<and> j \<noteq> k" for j
      by (auto simp: lower_def upper_def min_def max_def)
    obtain s1 s2 x y where s2: "remove_dense s upper = Some (s1, x)" "remove_dense s1 lower = Some (s2, y)"
      "order_inv ?a s2" "os_entries s2 = swap_remove lower (swap_remove upper ?es)" "os_rest s2 = os_rest s"
      by (rule remove_two [OF inv lu])
    have R: "mset ?es = add_mset (?es ! i) (add_mset (?es ! k) (mset (os_entries s2)))"
      using swap_remove_two(3) [OF lu] s2(4) by (auto simp: lower_def upper_def min_def max_def add_mset_commute split: if_splits)
    have rest: "\<forall>e\<in>#mset (os_entries s2). \<exists>j<length ?es. j \<noteq> i \<and> j \<noteq> k \<and> e = ?es ! j"
      using swap_remove_two_rest [OF lu] among unfolding s2(4) by (metis set_mset_mset)
    have apart: "fresh_identity (os_entries s2) (oe_identity m)"
      using rest checked(1) pi pk by (fastforce simp: fresh_identity_def)
    have room: "length (os_entries s2) < MAX_PM_PRIVATE_ORDERS"
      using arg_cong [OF R, of size] inv by (simp add: order_inv_def)
    have id: "identity_in ?a (oe_identity m)"
      using pi pk rows_apart [OF inv ik] by (intro merged_row [OF m]) simp_all
    obtain s' where s': "insert_ordered s2 m = Some (s', Ok ())" "order_inv ?a s'" "os_entries s' = os_entries s2 @ [m]" "os_rest s' = os_rest s2"
      by (rule insert_ordered_ok [OF s2(3) room id apart])
    have no1: "\<not> list_ex (\<lambda>(index, e). index \<noteq> lower \<and> index \<noteq> upper \<and> compare_entries e m = Equal) (indexed ?es)"
      using checked(2) among pi pk by (auto simp: indexed_ex)
    have no2: "\<not> is_some_and (\<lambda>c. list_ex (\<lambda>(index, e). index \<noteq> lower \<and> index \<noteq> upper \<and> entry_client e = Some c) (indexed ?es)) (entry_client m)"
      using checked(3) among pi pk by (cases "entry_client m") (auto simp: indexed_ex)
    have "coalesce_entries s i k = Some (s', Ok ())"
      unfolding coalesce_entries_def look m panic_simps pair Let_def prod.case
      using no1 no2 s2(1,2) s'(1) by simp
    then show thesis using m s' s2(5) R rest by (intro merged [of m s' "mset (os_entries s2)"]) simp_all
  qed
qed

lemma overlap_self: "identity_in account identity \<Longrightarrow> identities_overlap identity identity"
  by (auto simp: identity_in_def identities_overlap_iff)

lemma overlap_carried: "row_le l m \<Longrightarrow> identities_overlap (oe_identity l) identity \<Longrightarrow> identities_overlap (oe_identity m) identity"
  by (auto simp: row_le_def identities_overlap_iff entry_client_def entry_venue_def)

lemma overlap_sym: "identities_overlap a b \<longleftrightarrow> identities_overlap b a"
  by (auto simp: identities_overlap_iff)

lemma find_sole:
  assumes inv: "order_inv account s" and m: "m \<in> set (os_entries s)" "identities_overlap (oe_identity m) identity"
    and others: "\<forall>e\<in>set (os_entries s). e \<noteq> m \<longrightarrow> \<not> identities_overlap (oe_identity e) identity"
  obtains n where "find_order s identity = Some (Some n)" "sole (os_entries s) n identity" "os_entries s ! n = m"
  using inv
proof (cases rule: find_order_cases [where identity = identity])
  case (found n)
  have n: "os_entries s ! n = m" using found(2,3) others by (meson nth_mem)
  have "j = n" if "j < length (os_entries s)" "identities_overlap (oe_identity (os_entries s ! j)) identity" for j
  proof (rule ccontr)
    assume "j \<noteq> n"
    moreover have "os_entries s ! j = m" using that others by (meson nth_mem)
    moreover have "identity_in account (oe_identity m)" using inv m(1) by (simp add: order_inv_def)
    ultimately show False using rows_apart [OF inv that(1) found(2)] n overlap_self by simp
  qed
  then have "sole (os_entries s) n identity" using found(2,3) unfolding sole_def by blast
  then show thesis using that [OF found(1) _ n] by blast
next
  case absent
  then show thesis using m by (auto simp: fresh_identity_def)
qed

lemma coalesce_bridge:
  assumes ok: "orders_ok config s" and ik: "i < length (os_entries s)" "k < length (os_entries s)" "i \<noteq> k"
    and hit: "identities_overlap (oe_identity (os_entries s ! i)) identity"
    and others: "\<forall>j<length (os_entries s). j \<noteq> i \<longrightarrow> j \<noteq> k \<longrightarrow> \<not> identities_overlap (oe_identity (os_entries s ! j)) identity"
  obtains (conflict) e where "merge_entries (os_entries s ! i) (os_entries s ! k) = Some (Err e)"
      "coalesce_entries s i k = Some (s, Err e)"
  | (merged) m s' n R where "merge_entries (os_entries s ! i) (os_entries s ! k) = Some (Ok m)"
      "coalesce_entries s i k = Some (s', Ok ())" "orders_ok config s'" "rows_continue (os_entries s) (os_entries s')"
      "find_order s' identity = Some (Some n)" "sole (os_entries s') n identity" "os_entries s' ! n = m" "os_rest s' = os_rest s"
      "mset (os_entries s) = add_mset (os_entries s ! i) (add_mset (os_entries s ! k) R)"
      "mset (os_entries s') = add_mset m R"
  using ok ik
proof (cases rule: coalesce_entries_cases)
  case (conflict e)
  then show thesis by (rule that(1))
next
  case (merged m s' R)
  note pi = orders_okD(2) [OF ok ik(1)] and pk = orders_okD(2) [OF ok ik(2)]
  note row = merged_row [OF merged(1) _ _ _ _ rows_apart [OF orders_okD(1) [OF ok] ik], of "cfg_account config"]
  have le: "row_le (os_entries s ! i) m" "row_le (os_entries s ! k) m" "row_ok m" "oe_instrument m = cfg_instrument config"
    using row pi pk merge_entries_Ok(7) [OF merged(1), of "cfg_account config"] by simp_all
  have set: "set (os_entries s') = insert m (set_mset R)" "set (os_entries s) = insert (os_entries s ! i) (insert (os_entries s ! k) (set_mset R))"
    using arg_cong [OF merged(6), of set_mset] arg_cong [OF merged(5), of set_mset] by simp_all
  have "orders_ok config s'" using merged(3) le set ok by (auto simp: orders_ok_def)
  moreover have "rows_continue (os_entries s) (os_entries s')"
    using le set row_le_refl unfolding rows_continue_def by fastforce
  moreover have "identities_overlap (oe_identity m) identity" by (rule overlap_carried [OF le(1) hit])
  moreover have "\<forall>e\<in>set (os_entries s'). e \<noteq> m \<longrightarrow> \<not> identities_overlap (oe_identity e) identity"
    using merged(7) others set by auto
  moreover have "m \<in> set (os_entries s')" using set by simp
  ultimately obtain n where "find_order s' identity = Some (Some n)" "sole (os_entries s') n identity" "os_entries s' ! n = m"
    using find_sole [OF merged(3)] by blast
  with merged \<open>orders_ok config s'\<close> \<open>rows_continue (os_entries s) (os_entries s')\<close> show thesis
    using that(2) [of m s' n R] by blast
qed

lemma remote_entry_row:
  assumes "ownership \<noteq> ProvenOwned"
  shows "row_ok (remote_entry event ownership reservation occurrence)"
    "oe_identity (remote_entry event ownership reservation occurrence) = order_identity event"
    "oe_instrument (remote_entry event ownership reservation occurrence) = order_instrument event"
  using assms by (auto simp: remote_entry_def row_ok_def is_live_def live_reservation_def identity_within_def)

lemma overlaps_Some: "order_inv account s \<Longrightarrow> overlaps s identity \<noteq> None"
  by (simp add: overlaps_eq)

text \<open>
  The three ways an observed row meets the table: no row shares a key, exactly one does, or two
  do and are merged first.
\<close>

lemma keeps_overlap:
  assumes ok: "orders_ok config s"
    and none: "fresh_identity (os_entries s) identity \<Longrightarrow> keeps config s (f NoOverlap)"
    and one: "\<And>i. sole (os_entries s) i identity \<Longrightarrow> nth_entry (os_entries s) i = Some (os_entries s ! i)
      \<Longrightarrow> keeps config s (f (One i))"
    and bridge: "\<And>i k. \<lbrakk>i < length (os_entries s); k < length (os_entries s); i \<noteq> k;
        identities_overlap (oe_identity (os_entries s ! i)) identity;
        \<forall>j<length (os_entries s). j \<noteq> i \<longrightarrow> j \<noteq> k \<longrightarrow> \<not> identities_overlap (oe_identity (os_entries s ! j)) identity;
        nth_entry (os_entries s) i = Some (os_entries s ! i); nth_entry (os_entries s) k = Some (os_entries s ! k)\<rbrakk>
      \<Longrightarrow> keeps config s (f (Bridge i k))"
  shows "keeps config s (try_check s (overlaps s identity) f)"
  using orders_okD(1) [OF ok]
proof (cases rule: overlaps_cases [where identity = identity])
  case none
  then show ?thesis using assms(2) by simp
next
  case (one i)
  then show ?thesis using assms(3) [of i] by (simp add: sole_def nth_entry_def)
next
  case (bridge i k)
  then show ?thesis using assms(4) [of i k] by (simp add: nth_entry_def)
qed

lemma keeps_bridge:
  assumes ok: "orders_ok config s" and ik: "i < length (os_entries s)" "k < length (os_entries s)" "i \<noteq> k"
    and hit: "identities_overlap (oe_identity (os_entries s ! i)) identity"
    and others: "\<forall>j<length (os_entries s). j \<noteq> i \<longrightarrow> j \<noteq> k \<longrightarrow> \<not> identities_overlap (oe_identity (os_entries s ! j)) identity"
    and step: "\<And>s' n. orders_ok config s' \<Longrightarrow> sole (os_entries s') n identity \<Longrightarrow> find_order s' identity = Some (Some n)
      \<Longrightarrow> keeps config s' (f s' ())"
  shows "keeps config s (and_then (coalesce_entries s i k) f)"
  using ok ik hit others
proof (cases rule: coalesce_bridge)
  case (conflict e)
  then show ?thesis using ok by simp
next
  case (merged m s' n R)
  then show ?thesis using step [of s' n] keeps_trans by simp
qed

lemma reduce_snapshot_row_keeps:
  assumes ok: "orders_ok config s" and ev: "event_ok event"
  shows "keeps config s (reduce_snapshot_row s event request reservation config)"
  unfolding reduce_snapshot_row_def Let_def
proof (rule keeps_try_result [OF ok rows_continue_refl], rule keeps_try_check [OF ok rows_continue_refl validate_reservation_Some [OF ev]],
    rule keeps_overlap [OF ok], goal_cases)
  case (1 u)
  then show ?case using validate_event_Ok [OF ev] ok by (auto simp: remote_entry_row intro!: keeps_and_then insert_order_keeps)
next
  case (2 u)
  then show ?case using update_existing_keeps [OF _ _ validate_event_Ok [OF ev 2(1)]] ok by auto
next
  case (3 u)
  then show ?case using update_existing_keeps [OF _ _ validate_event_Ok [OF ev 3(1)]] ok by (auto intro!: keeps_bridge)
qed

lemma observe_order_keeps:
  assumes ok: "orders_ok config s" and ev: "event_ok (env_payload envelope)"
  shows "keeps config s (observe_order s envelope knowledge config)"
proof -
  define t where "t = order_bump (oc_observations_update inc)
    (s\<lparr>os_observed_monotonic_ns := Some (monotonic_service_ns (env_clock envelope))\<rparr>)"
  have t: "orders_ok config t" "os_entries t = os_entries s"
    using ok orders_ok_frame(1) [of "s\<lparr>os_observed_monotonic_ns := Some (monotonic_service_ns (env_clock envelope))\<rparr>" s] by (simp_all add: t_def)
  have on_t: "keeps config s out" if "keeps config t out" for out :: "(PmOrderState, PmOrderApply, PmOrderStateError) outcome"
    using that t(2) by (auto intro: keeps_trans)
  show ?thesis
    unfolding observe_order_def Let_def t_def [symmetric]
  proof (rule keeps_try_result [OF ok rows_continue_refl], rule keeps_try_check [OF ok rows_continue_refl validate_remote_knowledge_Some [OF ev]],
      rule on_t, rule keeps_overlap [OF t(1)], goal_cases)
    case (1 u)
    have "ownership_from_remote knowledge \<noteq> ProvenOwned" by (cases knowledge) simp_all
    then show ?case using 1 validate_event_Ok [OF ev] t(1) by (auto simp: remote_entry_row intro!: keeps_and_then insert_order_keeps)
  next
    case (2 u)
    then show ?case using update_existing_keeps [OF t(1) _ validate_event_Ok [OF ev 2(1)]] by auto
  next
    case (3 u reservation i k)
    have "merge_entries (os_entries t ! i) (os_entries t ! k) \<noteq> None"
      using 3 orders_okD(2) [OF t(1)] by (intro merge_entries_Some [of "cfg_account config"]) simp_all
    then show ?case using 3 update_existing_keeps [OF _ _ validate_event_Ok [OF ev 3(1)]] t
      by (auto intro!: keeps_bridge keeps_try_result keeps_try_check)
  qed
qed

lemma client_identity_in:
  obtains identity where "client_identity c = Some identity" "client_order_key identity = Some c" "venue_order_key identity = None"
    "identity_in (client_account c) identity"
  by (rule that [of "\<lparr>client_order_key = Some c, venue_order_key = None\<rparr>"])
    (simp_all add: client_identity_def PmOrderIdentity_new_def identity_in_def)

lemma find_order_Some:
  assumes "orders_ok config s"
  shows "find_order s identity \<noteq> None" "find_order s identity = Some (Some i) \<Longrightarrow> nth_entry (os_entries s) i = Some (os_entries s ! i)"
    "find_order s identity = Some (Some i) \<Longrightarrow> i < length (os_entries s)"
    "find_order s identity = Some None \<Longrightarrow> fresh_identity (os_entries s) identity"
    "find_order s identity = Some (Some i) \<Longrightarrow> identities_overlap (oe_identity (os_entries s ! i)) identity"
  using orders_okD(1) [OF assms] by (cases rule: find_order_cases [where identity = identity]; simp add: nth_entry_def)+

lemma register_owned_keeps:
  assumes ok: "orders_ok config s"
  shows "keeps config s (register_owned s registration config)"
  unfolding register_owned_def
proof (rule keeps_try_result [OF ok rows_continue_refl], goal_cases)
  case (1 u)
  note v = 1
  obtain identity where i: "client_identity (reg_client_order registration) = Some identity" "identity_in (cfg_account config) identity"
    using client_identity_in [of "reg_client_order registration"] v by (auto simp: validate_registration_def split: if_splits)
  have client: "client_order_key identity \<noteq> None" using i(1) by (auto simp: client_identity_def PmOrderIdentity_new_def)
  obtain found where f: "find_order s identity = Some found" using find_order_Some(1) [OF ok] by blast
  show ?case
    using f i v client ok find_order_Some(2,4) [OF ok, of identity]
    by (cases found) (auto simp: owned_entry_def row_ok_def entry_client_def validate_registration_def is_live_def
        split: if_splits intro!: keeps_and_then insert_order_keeps)
qed

lemma identity_merge_Some:
  assumes "client_account c = account" "venue_account v = account"
  obtains identity where "PmOrderIdentity_new (Some c) (Some v) = Ok identity" "client_order_key identity = Some c"
    "venue_order_key identity = Some v" "identity_in account identity"
  using assms by (intro that [of "\<lparr>client_order_key = Some c, venue_order_key = Some v\<rparr>"])
    (simp_all add: PmOrderIdentity_new_def identity_in_def)

lemma row_bound:
  assumes row: "row_ok e" and m: "merge_identity (oe_identity e) identity = Some m"
    and ok: "ensure_identity_merge (oe_identity e) identity = Ok u"
  shows "row_ok (e\<lparr>oe_identity := m\<rparr>)" "row_le e (e\<lparr>oe_identity := m\<rparr>)"
proof -
  have keys: "client_order_key (oe_identity e) = Some c \<Longrightarrow> client_order_key m = Some c"
    "venue_order_key (oe_identity e) = Some v \<Longrightarrow> venue_order_key m = Some v" for c v
    using merged_identity_keys [OF m ok] by blast+
  have live: "is_live (e\<lparr>oe_identity := m\<rparr>) = is_live e" by (simp add: is_live_def)
  have "client_order_key (oe_identity e) \<noteq> None \<Longrightarrow> client_order_key m \<noteq> None"
    "venue_order_key (oe_identity e) \<noteq> None \<Longrightarrow> venue_order_key m \<noteq> None"
    using keys by blast+
  moreover have "identity_within i (oe_identity e) \<Longrightarrow> identity_within i m" for i
    using keys by (simp add: identity_within_def)
  ultimately show "row_ok (e\<lparr>oe_identity := m\<rparr>)"
    using row live by (simp add: row_ok_def entry_client_def entry_venue_def)
  show "row_le e (e\<lparr>oe_identity := m\<rparr>)"
    using keys by (simp add: row_le_def entry_client_def entry_venue_def)
qed

lemma find_order_sole:
  assumes "order_inv account s" "sole (os_entries s) n identity"
  shows "find_order s identity = Some (Some n)"
  using assms(1)
proof (cases rule: find_order_cases [where identity = identity])
  case (found i)
  then show ?thesis using assms(2) unfolding sole_def by metis
next
  case absent
  then show ?thesis using assms(2) by (auto simp: sole_def fresh_identity_def)
qed

text \<open>The tail of \<open>bind_owned_venue\<close>, once one row holds every key of the identity.\<close>

lemma bind_found_keeps:
  assumes ok: "orders_ok config s" and i: "sole (os_entries s) i identity" and id: "identity_in (cfg_account config) identity"
    and ens: "ensure_identity_merge (oe_identity (os_entries s ! i)) identity = Ok u"
  shows "keeps config s (expect (merge_identity (oe_identity (os_entries s ! i)) identity) (\<lambda>merged.
    replace_ordered s i ((os_entries s ! i)\<lparr>oe_identity := merged\<rparr>)))"
proof -
  have i': "i < length (os_entries s)" using i by (simp add: sole_def)
  note p = orders_okD(2) [OF ok i']
  obtain m where m: "merge_identity (oe_identity (os_entries s ! i)) identity = Some m" "identity_in (cfg_account config) m"
    using merge_identity_in [of "cfg_account config" "oe_identity (os_entries s ! i)" identity] p id by blast
  then show ?thesis
    using row_bound [OF _ m(1) ens] p sole_merged [OF orders_okD(1) [OF ok] i m(1)]
    by (auto intro!: replace_ordered_keeps [OF ok i'])
qed

lemma bind_owned_venue_keeps:
  assumes ok: "orders_ok config s"
  shows "keeps config s (bind_owned_venue s client venue config)"
proof (cases "client_account client = cfg_account config \<and> venue_account venue = cfg_account config")
  case False
  then show ?thesis using ok by (simp add: bind_owned_venue_def)
next
  case True
  then obtain identity where i: "PmOrderIdentity_new (Some client) (Some venue) = Ok identity"
    "identity_in (cfg_account config) identity" by (blast elim: identity_merge_Some)
  have tail: "keeps config t (expect (find_order t identity) (\<lambda>found.
        case found of
          None \<Rightarrow> Some (t, Err OwnershipRegisteredTooLate)
        | Some index \<Rightarrow>
            expect (nth_entry (os_entries t) index) (\<lambda>entry.
              if unregistered entry then Some (t, Err OwnershipRegisteredTooLate)
              else try_result t (ensure_identity_merge (oe_identity entry) identity) (\<lambda>_.
                expect (merge_identity (oe_identity entry) identity) (\<lambda>merged.
                  replace_ordered t index (entry\<lparr>oe_identity := merged\<rparr>))))))"
    if t: "orders_ok config t" "sole (os_entries t) n identity" "find_order t identity = Some (Some n)" for t n
    using t i(2) find_order_Some(2) [OF t(1,3)] by (auto intro!: keeps_try_result bind_found_keeps)
  show ?thesis
    unfolding bind_owned_venue_def using True
    by (auto simp: i(1) ok intro!: keeps_overlap keeps_bridge tail find_order_sole [OF orders_okD(1) [OF ok]])
qed

text \<open>Changes of rows in place that leave every identity alone.\<close>

lemma index_ok_same_keys:
  assumes "map key es' = map key es"
  shows "index_ok key es' ix \<longleftrightarrow> index_ok key es ix"
proof -
  have len: "length es' = length es" and key: "i < length es \<Longrightarrow> key (es' ! i) = key (es ! i)" for i
    using assms by (metis length_map, metis length_map nth_map)
  have slots: "{i. i < length es' \<and> key (es' ! i) \<noteq> None} = {i. i < length es \<and> key (es ! i) \<noteq> None}"
    using len key by auto
  have "map (\<lambda>e. the (key e)) (view es' ix) = map (\<lambda>e. the (key e)) (view es ix)"
    if "unat ` set ix = {i. i < length es \<and> key (es ! i) \<noteq> None}"
  proof -
    have "unat slot < length es" if "slot \<in> set ix" for slot
      using that \<open>unat ` set ix = _\<close> by (metis (mono_tags, lifting) image_eqI mem_Collect_eq)
    then show ?thesis using key by (simp add: view_def)
  qed
  moreover have "sorted_by_key compare_of (\<lambda>e. the (key e)) xs \<longleftrightarrow> sorted_wrt (\<lambda>x y. compare_of x y = Less) (map (\<lambda>e. the (key e)) xs)" for xs
    by (simp add: sorted_by_key_def sorted_wrt_map)
  ultimately show ?thesis unfolding index_ok_def slots by (intro conj_cong refl) simp
qed

lemma order_inv_same_identities:
  assumes inv: "order_inv account s" and same: "map oe_identity (os_entries t) = map oe_identity (os_entries s)"
    and ix: "os_canonical_index t = os_canonical_index s" "os_client_index t = os_client_index s"
    and live: "unat (os_live_count t) = length (filter is_live (os_entries t))"
  shows "order_inv account t"
proof -
  have keys: "map (\<lambda>e. f (oe_identity e)) (os_entries t) = map (\<lambda>e. f (oe_identity e)) (os_entries s)" for f :: "PmOrderIdentity \<Rightarrow> 'x"
    using arg_cong [OF same, of "map f"] by (simp add: comp_def)
  have fields: "entry_venue = (\<lambda>e. venue_order_key (oe_identity e))" "entry_client = (\<lambda>e. client_order_key (oe_identity e))"
    "(\<lambda>e. Some (entry_rank e)) = (\<lambda>e. Some (venue_order_key (oe_identity e), client_order_key (oe_identity e)))"
    by (simp_all add: fun_eq_iff entry_venue_def entry_client_def entry_rank_def)
  have "unique_keys entry_venue (mset (os_entries t)) \<longleftrightarrow> unique_keys entry_venue (mset (os_entries s))"
  proof -
    have "size {#e \<in># mset es. entry_venue e = Some k#} = length (filter (\<lambda>v. v = Some k) (map entry_venue es))" for es k
      by (simp add: filter_map comp_def flip: mset_filter)
    moreover have "map entry_venue (os_entries t) = map entry_venue (os_entries s)"
      unfolding fields by (rule keys)
    ultimately show ?thesis unfolding unique_keys_def by presburger
  qed
  moreover have "length (os_entries t) = length (os_entries s)" using same by (metis length_map)
  moreover have "(\<forall>e\<in>set (os_entries t). identity_in account (oe_identity e)) \<longleftrightarrow> (\<forall>e\<in>set (os_entries s). identity_in account (oe_identity e))"
    using arg_cong [OF same, of "\<lambda>xs. \<forall>x\<in>set xs. identity_in account x"] by simp
  moreover have "index_ok (\<lambda>e. Some (entry_rank e)) (os_entries t) ix \<longleftrightarrow> index_ok (\<lambda>e. Some (entry_rank e)) (os_entries s) ix"
    "index_ok entry_client (os_entries t) ix \<longleftrightarrow> index_ok entry_client (os_entries s) ix" for ix
    unfolding fields by (rule index_ok_same_keys, rule keys)+
  ultimately show ?thesis using inv ix live by (simp add: order_inv_def)
qed

lemma mark_missing_entries_eq:
  "fst (mark_missing_entries snapshot request n es) =
     map (\<lambda>e. if missing_from snapshot request e then e\<lparr>oe_missing_from_complete_open_snapshot := True\<rparr> else e) es"
  by (induction es arbitrary: n) (simp_all add: Let_def split: prod.split, metis fst_conv)

lemma mark_missing_keeps:
  assumes ok: "orders_ok config s" and m: "mark_missing s snapshot request = (t, n)"
  shows "orders_ok config t" "rows_continue (os_entries s) (os_entries t)"
proof -
  define g where "g = (\<lambda>e. if missing_from snapshot request e then e\<lparr>oe_missing_from_complete_open_snapshot := True\<rparr> else e)"
  have t: "t = s\<lparr>os_entries := map g (os_entries s)\<rparr>"
    using m mark_missing_entries_eq [of snapshot request 0 "os_entries s"]
    by (auto simp: mark_missing_def g_def split: prod.splits)
  have g: "oe_identity (g e) = oe_identity e" "is_live (g e) = is_live e" "row_ok e \<Longrightarrow> row_ok (g e)" "row_le e (g e)"
    "oe_instrument (g e) = oe_instrument e" for e
    by (simp_all add: g_def is_live_def row_ok_def row_le_def entry_client_def entry_venue_def)
  have "order_inv (cfg_account config) t"
    using orders_okD(1) [OF ok]
    by (rule order_inv_same_identities) (use orders_okD(1) [OF ok] in \<open>simp_all add: t g comp_def order_inv_def filter_map\<close>)
  then show "orders_ok config t" using ok g by (auto simp: orders_ok_def t)
  show "rows_continue (os_entries s) (os_entries t)" using g(4) by (auto simp: rows_continue_def t)
qed

lemma count_new_orders_eq:
  assumes "orders_ok config s"
  shows "count_new_orders s events = Some (length (filter (\<lambda>event. fresh_identity (os_entries s) (order_identity event)) events))"
proof (induction events)
  case (Cons event events)
  show ?case
    using orders_okD(1) [OF assms]
  proof (cases rule: find_order_cases [where identity = "order_identity event"])
    case (found i)
    then have "\<not> fresh_identity (os_entries s) (order_identity event)" by (auto simp: fresh_identity_def)
    then show ?thesis using Cons found by simp
  next
    case absent
    then show ?thesis using Cons by simp
  qed
qed simp

lemma preflight_snapshot_capacity_keeps:
  "orders_ok config s \<Longrightarrow> keeps config s (preflight_snapshot_capacity s snapshot)"
  by (simp add: preflight_snapshot_capacity_def count_new_orders_eq)

lemma preflight_snapshot_rows_Some:
  assumes ok: "orders_ok config s"
  shows "\<forall>event\<in>set events. event_ok event \<Longrightarrow> preflight_snapshot_rows s request reservations config events \<noteq> None"
proof (induction events)
  case (Cons event events)
  let ?k = "companion_knowledge event reservations"
  obtain q where q: "validate_reservation event ?k = Some q" using validate_reservation_Some Cons(2) by fastforce
  obtain p where p: "preflight_snapshot_rows s request reservations config events = Some p" using Cons by auto
  have merge: "merge_entries (os_entries s ! i) (os_entries s ! k) \<noteq> None" if "i < length (os_entries s)" "k < length (os_entries s)" for i k
    using that orders_okD(2) [OF ok] by (intro merge_entries_Some [of "cfg_account config"]) simp_all
  from orders_okD(1) [OF ok] show ?case
  proof (cases rule: overlaps_cases [where identity = "order_identity event"])
    case none
    then show ?thesis using p q by (cases q; cases "validate_event event (cfg_source config) config") simp_all
  next
    case (one i)
    then show ?thesis using p q
      by (cases q; cases "validate_event event (cfg_source config) config"; cases "preflight_existing_update (os_entries s ! i) event request")
        (simp_all add: nth_entry_def)
  next
    case (bridge i k)
    obtain r where r: "merge_entries (os_entries s ! i) (os_entries s ! k) = Some r" using merge bridge by blast
    show ?thesis
    proof (cases r)
      case (Ok m)
      then show ?thesis using p q r bridge
        by (cases q; cases "validate_event event (cfg_source config) config"; cases "preflight_existing_update m event request")
          (simp_all add: nth_entry_def)
    next
      case (Err e)
      then show ?thesis using p q r bridge
        by (cases q; cases "validate_event event (cfg_source config) config") (simp_all add: nth_entry_def)
    qed
  qed
qed simp

lemma apply_snapshot_rows_keeps:
  "orders_ok config s \<Longrightarrow> \<forall>event\<in>set events. event_ok event
     \<Longrightarrow> keeps config s (apply_snapshot_rows s request reservations config n m events)"
proof (induction events arbitrary: s n m)
  case (Cons event events)
  then show ?case
    by (auto intro!: keeps_and_then reduce_snapshot_row_keeps intro: keeps_trans)
qed simp

lemma apply_fresh_open_snapshot_keeps:
  assumes ok: "orders_ok config s" and ev: "\<forall>event\<in>set (open_orders (env_payload envelope)). event_ok event"
  shows "keeps config s (apply_fresh_open_snapshot s envelope reservations config)"
  unfolding apply_fresh_open_snapshot_def Let_def
proof (rule keeps_and_then [OF preflight_snapshot_capacity_keeps [OF ok]], rule keeps_and_then, goal_cases)
  case (1 t u)
  then show ?case using apply_snapshot_rows_keeps [OF 1(2) ev] by (rule_tac keeps_trans)
next
  case (2 t u t' nm)
  obtain n m where nm: "nm = (n, m)" by (cases nm)
  obtain t'' r where m: "mark_missing t' (env_payload envelope) (snapshot_request envelope) = (t'', r)" by (cases rule: prod.exhaust)
  note k = mark_missing_keeps [OF 2(5) m]
  let ?f = "t''\<lparr>os_latest_snapshot_revision := Some (open_snapshot (env_payload envelope)),
                os_latest_snapshot_completion := Some (snapshot_completion envelope),
                os_observed_monotonic_ns := Some (monotonic_service_ns (env_clock envelope))\<rparr>"
  have "orders_ok config ?f" using k(1) orders_ok_frame(1) [of ?f t''] by simp
  then show ?case using 2(6) k(2) by (simp add: nm m rows_continue_trans)
qed

lemma validate_open_snapshot_Some:
  assumes "\<forall>event\<in>set (open_orders (env_payload envelope)). event_ok event"
  shows "validate_open_snapshot envelope reservations config \<noteq> None"
proof -
  have "check_snapshot_rows source reservations config events \<noteq> None" if "\<forall>event\<in>set events. event_ok event" for source events
    using that
  proof (induction events)
    case (Cons event events)
    obtain q where q: "validate_reservation event (companion_knowledge event reservations) = Some q"
      using validate_reservation_Some Cons(2) by fastforce
    then show ?case using Cons by (cases q; cases "validate_event event source config") simp_all
  qed simp
  then show ?thesis using assms by (simp add: validate_open_snapshot_def Let_def)
qed

lemma apply_open_snapshot_keeps:
  assumes ok: "orders_ok config s" and ev: "\<forall>event\<in>set (open_orders (env_payload envelope)). event_ok event"
  shows "keeps config s (apply_open_snapshot s envelope reservations config)"
  unfolding apply_open_snapshot_def
proof (rule keeps_try_check [OF ok rows_continue_refl validate_open_snapshot_Some [OF ev]], goal_cases)
  case (1 u)
  obtain t r where t: "snapshot_stale_or_duplicate s (env_payload envelope) (connection_epoch (env_ordering envelope)) = (t, r)"
    by (cases rule: prod.exhaust)
  then have "orders_ok config t" and e: "os_entries t = os_entries s"
    using ok by (auto simp: snapshot_stale_or_duplicate_def Let_def split: if_splits)
  show ?case
  proof (cases r)
    case (Some outcome)
    then show ?thesis using t \<open>orders_ok config t\<close> e by simp
  next
    case None
    have "keeps config t (and_then (preflight_fresh_open_snapshot t envelope reservations config) (\<lambda>s _.
           apply_fresh_open_snapshot s envelope reservations config))"
    proof (rule keeps_and_then)
      show "keeps config t (preflight_fresh_open_snapshot t envelope reservations config)"
        unfolding preflight_fresh_open_snapshot_def
        by (rule keeps_and_then [OF preflight_snapshot_capacity_keeps [OF \<open>orders_ok config t\<close>]], rule keeps_try_check)
          (use preflight_snapshot_rows_Some [OF _ ev] in simp_all)
    qed (rule keeps_trans [OF apply_fresh_open_snapshot_keeps [OF _ ev]])
    then have "keeps config s (and_then (preflight_fresh_open_snapshot t envelope reservations config) (\<lambda>s _.
           apply_fresh_open_snapshot s envelope reservations config))"
      by (rule keeps_trans) (simp add: e)
    then show ?thesis unfolding t None by simp
  qed
qed

lemma filter_update_length:
  assumes "i < length xs" "P (xs ! i)" "\<not> P x"
  shows "length (filter P xs) = Suc (length (filter P (xs[i := x])))"
proof -
  obtain R where "mset xs = add_mset (xs ! i) R" "\<And>y. mset (xs[i := y]) = add_mset y R"
    by (metis update_split [OF assms(1)])
  then show ?thesis using assms(2,3) by (simp add: length_filter_mset)
qed

lemma detail_terminalized_row:
  assumes row: "row_ok e" and venue: "entry_venue e \<noteq> None" and later: "oe_last_occurrence e \<le> Some completion"
  shows "row_ok (detail_terminalized e completion)" "row_le e (detail_terminalized e completion)"
    "\<not> is_live (detail_terminalized e completion)"
proof -
  let ?d = "detail_terminalized e completion"
  have f: "oe_identity ?d = oe_identity e" "oe_instrument ?d = oe_instrument e" "oe_event ?d = oe_event e"
    "oe_ownership ?d = oe_ownership e" "oe_registered_terms ?d = oe_registered_terms e" "oe_last_occurrence ?d = Some completion"
    "entry_client ?d = entry_client e" "entry_venue ?d = entry_venue e"
    by (simp_all add: detail_terminalized_def entry_client_def entry_venue_def)
  show live: "\<not> is_live ?d" by (simp add: detail_terminalized_def is_live_def)
  show "row_ok ?d" using row venue live unfolding row_ok_def f by blast
  show "row_le e ?d" using later lifecycle_le_refl unfolding row_le_def f by blast
qed

lemma detail_terminalized_keeps:
  assumes ok: "orders_ok config s" and i: "i < length (os_entries s)" and live: "is_live (os_entries s ! i)"
    and venue: "entry_venue (os_entries s ! i) \<noteq> None" and later: "oe_last_occurrence (os_entries s ! i) \<le> Some completion"
    and n: "checked_sub_word (os_live_count s) 1 = Some n"
    and t: "os_entries t = (os_entries s)[i := detail_terminalized (os_entries s ! i) completion]" "os_live_count t = n"
      "os_canonical_index t = os_canonical_index s" "os_client_index t = os_client_index s"
  shows "orders_ok config t" "rows_continue (os_entries s) (os_entries t)"
proof -
  let ?d = "detail_terminalized (os_entries s ! i) completion"
  have d: "row_ok ?d" "row_le (os_entries s ! i) ?d" "oe_instrument ?d = oe_instrument (os_entries s ! i)"
    "oe_identity ?d = oe_identity (os_entries s ! i)" "\<not> is_live ?d"
    using orders_okD(2) [OF ok i] detail_terminalized_row [OF _ venue later] by (simp_all add: detail_terminalized_def)
  have "unat (os_live_count s) = Suc (length (filter is_live (os_entries t)))"
    using filter_update_length [OF i live d(5)] orders_okD(1) [OF ok] t(1) by (simp add: order_inv_def)
  then have "unat (os_live_count t) = length (filter is_live (os_entries t))"
    using n t(2) by (auto simp: checked_sub_word_def unat_sub word_le_nat_alt split: if_splits)
  moreover have "map oe_identity (os_entries t) = map oe_identity (os_entries s)"
    using i d(4) by (simp add: t map_update list_update_same_conv)
  ultimately have "order_inv (cfg_account config) t"
    using order_inv_same_identities [OF orders_okD(1) [OF ok] _ t(3,4)] by blast
  then show "orders_ok config t"
    using ok d orders_okD(2) [OF ok i] set_update_subset_insert [of "os_entries s" i ?d] by (auto simp: orders_ok_def t)
  show "rows_continue (os_entries s) (os_entries t)"
    using rows_continue_update [OF i d(2)] t(1) by simp
qed

lemma live_slot_counted:
  assumes ok: "orders_ok config s" and i: "i < length (os_entries s)" and live: "is_live (os_entries s ! i)"
  shows "checked_sub_word (os_live_count s) 1 = Some (os_live_count s - 1)"
proof -
  have "os_entries s ! i \<in> set (filter is_live (os_entries s))" using i live by simp
  then have "0 < length (filter is_live (os_entries s))" by (rule length_pos_if_in_set)
  then have "0 < unat (os_live_count s)" using orders_okD(1) [OF ok] unfolding order_inv_def by metis
  then show ?thesis by (simp add: checked_sub_word_def word_le_nat_alt)
qed

lemma not_later_completion:
  assumes "\<not> later_than (PmPrivateOccurrence epoch request) e" "request < completion"
  shows "oe_last_occurrence e \<le> Some (PmPrivateOccurrence epoch completion)"
  using assms by (cases "oe_last_occurrence e") (auto simp: later_than_def not_less less_eq_PmPrivateOccurrence_def)

lemma apply_detail_keeps:
  assumes ok: "orders_ok config s" and ev: "\<forall>event. detail_order (env_payload envelope) = Some event \<longrightarrow> event_ok event"
    and order: "request_sequence (detail_boundary (env_payload envelope)) < completion_sequence (detail_boundary (env_payload envelope))"
  shows "keeps config s (apply_detail s envelope reservation config)"
proof -
  define t where "t = s\<lparr>os_observed_monotonic_ns := Some (monotonic_service_ns (env_clock envelope))\<rparr>"
  have t: "orders_ok config t" "os_entries t = os_entries s"
    using ok orders_ok_frame(1) [of t s] by (simp_all add: t_def)
  have on_t: "keeps config s out" if "keeps config t out" for out :: "(PmOrderState, PmOrderApply, PmOrderStateError) outcome"
    using that t(2) by (auto intro: keeps_trans)
  show ?thesis
    unfolding apply_detail_def Let_def t_def [symmetric]
  proof (rule keeps_try_result [OF ok rows_continue_refl], rule on_t, goal_cases)
    case (1 u)
    show ?case
    proof (cases "detail_order (env_payload envelope)")
      case (Some event)
      then show ?thesis using ev t(1)
        by (auto simp del: not_None_eq intro!: keeps_try_check reduce_snapshot_row_keeps validate_remote_knowledge_Some)
    next
      case None
      let ?v = "detail_requested_order (env_payload envelope)"
      define identity where "identity = \<lparr>client_order_key = None, venue_order_key = Some ?v\<rparr>"
      have id: "PmOrderIdentity_new None (Some ?v) = Ok identity" by (simp add: PmOrderIdentity_new_def identity_def)
      obtain found where f: "find_order t identity = Some found" using find_order_Some(1) [OF t(1)] by blast
      show ?thesis
      proof (cases found)
        case absent: None
        then show ?thesis using None f id t(1) by simp
      next
        case (Some i)
        note f' = f [unfolded Some]
        have i: "i < length (os_entries t)" by (rule find_order_Some(3) [OF t(1) f'])
        have venue: "entry_venue (os_entries t ! i) \<noteq> None"
          using find_order_Some(5) [OF t(1) f'] by (auto simp: identities_overlap_iff identity_def entry_venue_def)
        note n = live_slot_counted [OF t(1) i] and later = not_later_completion [OF _ order, of "connection_epoch (env_ordering envelope)" "os_entries t ! i"]
        let ?c = "PmPrivateOccurrence (connection_epoch (env_ordering envelope)) (completion_sequence (detail_boundary (env_payload envelope)))"
        let ?u = "t\<lparr>os_live_count := os_live_count t - 1, os_entries := (os_entries t)[i := detail_terminalized (os_entries t ! i) ?c]\<rparr>"
        have "orders_ok config ?u \<and> rows_continue (os_entries t) (os_entries ?u)"
          if "is_live (os_entries t ! i)" "oe_last_occurrence (os_entries t ! i) \<le> Some ?c"
          using detail_terminalized_keeps [OF t(1) i that(1) venue that(2) n [OF that(1)], of ?u] by simp
        then show ?thesis
          using None f' id t(1) find_order_Some(2) [OF t(1) f'] n later by simp
      qed
    qed
  qed
qed

section \<open>Compaction and two-phase admission\<close>

text \<open>Compaction removes exactly the row of an owned order.\<close>

lemma compact_proven_owned_cases:
  assumes ok: "orders_ok config s"
  obtains (refused) "compact_proven_owned s client = Some (s, Err OwnershipRegisteredTooLate)"
      "\<forall>e\<in>set (os_entries s). entry_client e = Some client \<longrightarrow> oe_ownership e \<noteq> ProvenOwned"
  | (removed) s' e where "compact_proven_owned s client = Some (s', Ok ())" "orders_ok config s'"
      "entry_client e = Some client" "oe_ownership e = ProvenOwned"
      "mset (os_entries s) = add_mset e (mset (os_entries s'))" "os_rest s' = os_rest s"
proof -
  obtain identity where i: "client_identity client = Some identity" "client_order_key identity = Some client" "venue_order_key identity = None"
    by (rule client_identity_in)
  have hit: "identities_overlap (oe_identity e) identity \<longleftrightarrow> entry_client e = Some client" for e
    using i by (auto simp: identities_overlap_iff entry_client_def)
  have registered: "unregistered e \<longleftrightarrow> oe_ownership e \<noteq> ProvenOwned" if "e \<in> set (os_entries s)" for e
    using that ok by (auto simp: orders_ok_def row_ok_def unregistered_def)
  obtain found where f: "find_order s identity = Some found" using find_order_Some(1) [OF ok] by blast
  show thesis
  proof (cases found)
    case None
    then have "\<forall>e\<in>set (os_entries s). entry_client e \<noteq> Some client"
      using find_order_Some(4) [OF ok] f hit by (auto simp: fresh_identity_def)
    then show thesis using None f i by (intro refused) (simp_all add: compact_proven_owned_def)
  next
    case (Some n)
    note f' = f [unfolded Some]
    have n: "n < length (os_entries s)" "entry_client (os_entries s ! n) = Some client"
      using find_order_Some(3,5) [OF ok f'] hit by simp_all
    show thesis
    proof (cases "oe_ownership (os_entries s ! n) = ProvenOwned")
      case True
      obtain s' where s': "remove_dense s n = Some (s', os_entries s ! n)" "order_inv (cfg_account config) s'"
        "os_entries s' = swap_remove n (os_entries s)" "os_rest s' = os_rest s"
        by (rule remove_dense_ok [OF orders_okD(1) [OF ok] n(1)])
      have m: "mset (os_entries s) = add_mset (os_entries s ! n) (mset (os_entries s'))"
        using mset_swap_remove [OF n(1)] s'(3) by simp
      have "orders_ok config s'"
        using ok s'(2) arg_cong [OF m, of set_mset] by (auto simp: orders_ok_def)
      then show thesis
        using True f' i n s' m registered find_order_Some(2) [OF ok f']
        by (intro removed [of s' "os_entries s ! n"]) (simp_all add: compact_proven_owned_def)
    next
      case False
      have "e = os_entries s ! n" if "e \<in> set (os_entries s)" "entry_client e = Some client" for e
        using that n unique_keys_nth [OF order_inv_unique(1) [OF orders_okD(1) [OF ok]]] by (metis in_set_conv_nth)
      then show thesis
        using False f' i n registered find_order_Some(2) [OF ok f']
        by (intro refused) (auto simp: compact_proven_owned_def)
    qed
  qed
qed

text \<open>
  \<open>prepare_owned_registration\<close> decides, and \<open>commit_preflighted_owned_registration\<close> then does
  what \<open>register_owned\<close> would have done.
\<close>

lemma fresh_positions:
  assumes inv: "order_inv account s" and id: "identity_in account (oe_identity r)"
    and new: "fresh_identity (os_entries s) (oe_identity r)" and client: "entry_client r = Some c"
  obtains p q where "canonical_insertion_position s r = Some (Ok p)" "client_insertion_position s r = Some (Ok (Some q))"
proof -
  have "\<forall>e\<in>set (os_entries s). entry_rank e \<noteq> entry_rank r" "\<forall>e\<in>set (os_entries s). entry_client e \<noteq> Some c"
    using new fresh_keys id client unfolding fresh_identity_def by blast+
  then obtain p q where "canonical_insertion_position s r = Some (Ok p)" "client_search s c = Some (Err q)"
    using canonical_position_fresh [OF inv] client_search_fresh [OF inv] by metis
  then show thesis using client by (intro that [of p q]) (simp_all add: client_insertion_position_def)
qed

lemma admission_cases:
  assumes ok: "orders_ok config s"
  obtains (admitted) plan s' where "prepare_owned_registration s registration config = Some (Ok plan)"
      "commit_preflighted_owned_registration s plan = Some s'" "register_owned s registration config = Some (s', Ok ())"
  | (refused) e s' where "prepare_owned_registration s registration config = Some (Err e)"
      "register_owned s registration config = Some (s', Err e)" "os_entries s' = os_entries s"
  | (terms) i where "prepare_owned_registration s registration config = Some (Err IdentityConflict)"
      "register_owned s registration config = Some (s, Ok ())" "i < length (os_entries s)"
      "entry_client (os_entries s ! i) = Some (reg_client_order registration)"
      "oe_reservation (os_entries s ! i) = Some (Known (reg_reservation registration))"
      "oe_registered_terms (os_entries s ! i) \<noteq> Some (reg_side registration, reg_price registration, reg_quantity registration)"
proof (cases "validate_registration registration config")
  case (Err e)
  then show thesis by (intro refused [of e s]) (simp_all add: prepare_owned_registration_def register_owned_def)
next
  case v: (Ok u)
  obtain identity where i: "client_identity (reg_client_order registration) = Some identity"
    "client_order_key identity = Some (reg_client_order registration)" "venue_order_key identity = None"
    "identity_in (cfg_account config) identity"
    using client_identity_in [of "reg_client_order registration"] v by (auto simp: validate_registration_def split: if_splits)
  let ?r = "owned_entry registration identity"
  have r: "oe_identity ?r = identity" "oe_reservation ?r = Some (Known (reg_reservation registration))"
    "oe_registered_terms ?r = Some (reg_side registration, reg_price registration, reg_quantity registration)"
    by (simp_all add: owned_entry_def)
  obtain found where f: "find_order s identity = Some found" using find_order_Some(1) [OF ok] by blast
  show thesis
  proof (cases found)
    case None
    have new: "fresh_identity (os_entries s) (oe_identity ?r)" using find_order_Some(4) [OF ok] f None r by simp
    obtain p q where pq: "canonical_insertion_position s ?r = Some (Ok p)" "client_insertion_position s ?r = Some (Ok (Some q))"
      by (rule fresh_positions [OF orders_okD(1) [OF ok] _ new]) (use i r in \<open>simp_all add: entry_client_def\<close>)
    show thesis
    proof (cases "length (os_entries s) = MAX_PM_PRIVATE_ORDERS")
      case True
      then show thesis using v i f None
        by (intro refused [of Capacity "order_bump (oc_capacity_failures_update inc) s"])
          (simp_all add: prepare_owned_registration_def register_owned_def insert_order_def Let_def)
    next
      case False
      then have room: "length (os_entries s) < MAX_PM_PRIVATE_ORDERS" using orders_okD(1) [OF ok] by (simp add: order_inv_def)
      obtain s' where s': "insert_ordered s ?r = Some (s', Ok ())"
        using insert_ordered_ok [OF orders_okD(1) [OF ok] room _ new] i r by metis
      then have "insert_at_index_positions s p (Some q) ?r = Some s'"
        using pq by (auto simp: insert_ordered_def expect_def split: option.splits)
      then show thesis using v i f None False pq s'
        by (intro admitted [of "\<lparr>plan_entry = ?r, plan_action = Insert p q\<rparr>" "order_bump (oc_registrations_update inc) s'"])
          (simp_all add: prepare_owned_registration_def commit_preflighted_owned_registration_def register_owned_def insert_order_def Let_def)
    qed
  next
    case (Some n)
    note f' = f [unfolded Some]
    have n: "n < length (os_entries s)" "entry_client (os_entries s ! n) = Some (reg_client_order registration)"
      using find_order_Some(3,5) [OF ok f'] i by (auto simp: identities_overlap_iff entry_client_def)
    have look: "nth_entry (os_entries s) n = Some (os_entries s ! n)" by (rule find_order_Some(2) [OF ok f'])
    show thesis
    proof (cases "oe_ownership (os_entries s ! n) \<noteq> ProvenOwned \<or> oe_event (os_entries s ! n) \<noteq> None
        \<or> oe_reservation (os_entries s ! n) \<noteq> oe_reservation ?r")
      case True
      then show thesis using v i f' look r
        by (intro refused [of "if oe_ownership (os_entries s ! n) \<noteq> ProvenOwned \<or> oe_event (os_entries s ! n) \<noteq> None
              then OwnershipRegisteredTooLate else IdentityConflict" s])
          (auto simp: prepare_owned_registration_def register_owned_def Let_def)
    next
      case same: False
      show thesis
      proof (cases "oe_registered_terms (os_entries s ! n) = oe_registered_terms ?r")
        case True
        then show thesis using same v i f' look r
          by (intro admitted [of "\<lparr>plan_entry = ?r, plan_action = Existing\<rparr>" s]) (auto simp: prepare_owned_registration_def commit_preflighted_owned_registration_def register_owned_def Let_def)
      next
        case False
        then show thesis using same v i f' look r n
          by (intro terms [of n]) (auto simp: prepare_owned_registration_def register_owned_def Let_def)
      qed
    qed
  qed
qed

section \<open>Runs\<close>

text \<open>
  The operations a caller performs on the order state, and the state after each.  Admission is one
  operation, a plan prepared and then committed on the same table: its caller keeps the state
  borrowed exclusively from the one to the other (\<open>PmPreparedOwnedQuoteAdmission\<close> in
  \<open>private/owned_lifecycle.rs\<close>), so that no other operation comes between them.
\<close>

datatype PmOrderOperation =
    RegisterOwned PmOwnedOrderRegistration
  | AdmitOwned PmOwnedOrderRegistration
  | BindOwnedVenue PmClientOrderKey PmVenueOrderKey
  | CompactProvenOwned PmClientOrderKey
  | ObserveOrder "PmOrderEvent EventEnvelope" PmRemoteOrderKnowledge
  | ApplyOpenSnapshot "PmCompleteOpenOrdersSnapshot EventEnvelope" "PmOpenOrderReservation list"
  | ApplyDetail "PmExactOrderDetail EventEnvelope" PmReservationKnowledge
  | InvalidateFreshness

fun order_step :: "PmPrivateStateConfig \<Rightarrow> PmOrderState \<Rightarrow> PmOrderOperation \<Rightarrow> PmOrderState option" where
  "order_step config s (RegisterOwned registration) = map_option fst (register_owned s registration config)"
| "order_step config s (AdmitOwned registration) =
     expect (prepare_owned_registration s registration config) (\<lambda>r.
       case r of Ok plan \<Rightarrow> commit_preflighted_owned_registration s plan | Err _ \<Rightarrow> Some s)"
| "order_step config s (BindOwnedVenue client venue) = map_option fst (bind_owned_venue s client venue config)"
| "order_step config s (CompactProvenOwned client) = map_option fst (compact_proven_owned s client)"
| "order_step config s (ObserveOrder envelope knowledge) = map_option fst (observe_order s envelope knowledge config)"
| "order_step config s (ApplyOpenSnapshot envelope reservations) =
     map_option fst (apply_open_snapshot s envelope reservations config)"
| "order_step config s (ApplyDetail envelope reservation) = map_option fst (apply_detail s envelope reservation config)"
| "order_step config s InvalidateFreshness = Some (invalidate_freshness s)"

text \<open>Inputs the constructors of \<open>reap-pm-core\<close> return.\<close>

definition snapshot_ok :: "PmCompleteOpenOrdersSnapshot \<Rightarrow> bool" where
  "snapshot_ok snapshot \<longleftrightarrow>
     PmCompleteOpenOrdersSnapshot_new (open_source snapshot) (open_account_scope snapshot) (open_snapshot snapshot)
       (open_boundary snapshot) (open_orders snapshot) = Ok snapshot
     \<and> (\<forall>event\<in>set (open_orders snapshot). event_ok event)"

definition detail_ok :: "PmExactOrderDetail \<Rightarrow> bool" where
  "detail_ok detail \<longleftrightarrow>
     PmReconciliationRequestBoundary_new (request_sequence (detail_boundary detail)) (completion_sequence (detail_boundary detail))
       = Ok (detail_boundary detail)
     \<and> (\<forall>event. detail_order detail = Some event \<longrightarrow> event_ok event)"

fun operation_ok :: "PmOrderOperation \<Rightarrow> bool" where
  "operation_ok (ObserveOrder envelope knowledge) = event_ok (env_payload envelope)"
| "operation_ok (ApplyOpenSnapshot envelope reservations) = snapshot_ok (env_payload envelope)"
| "operation_ok (ApplyDetail envelope reservation) = detail_ok (env_payload envelope)"
| "operation_ok _ = True"

inductive order_reachable :: "PmPrivateStateConfig \<Rightarrow> PmOrderState \<Rightarrow> bool" for config where
  new: "order_reachable config PmOrderState_new"
| step: "order_reachable config s \<Longrightarrow> operation_ok operation \<Longrightarrow> order_step config s operation = Some s'
    \<Longrightarrow> order_reachable config s'"

lemma orders_ok_new: "orders_ok config PmOrderState_new"
  by (simp add: orders_ok_def order_inv_def PmOrderState_new_def index_ok_def view_def unique_keys_def sorted_by_key_def)

lemma detail_okD: "detail_ok detail \<Longrightarrow> request_sequence (detail_boundary detail) < completion_sequence (detail_boundary detail)"
  by (auto simp: detail_ok_def PmReconciliationRequestBoundary_new_def split: if_splits)

lemma keeps_fst:
  "keeps config s out \<Longrightarrow> \<exists>s'. map_option fst out = Some s' \<and> orders_ok config s' \<and> rows_continue (os_entries s) (os_entries s')"
  by (auto simp: keeps_def)

lemma order_step_total:
  assumes ok: "orders_ok config s" and op: "operation_ok operation"
  shows "\<exists>s'. order_step config s operation = Some s' \<and> orders_ok config s'
    \<and> ((\<forall>client. operation \<noteq> CompactProvenOwned client) \<longrightarrow> rows_continue (os_entries s) (os_entries s'))"
proof (cases operation)
  case (RegisterOwned registration)
  then show ?thesis using keeps_fst [OF register_owned_keeps [OF ok]] by simp
next
  case (AdmitOwned registration)
  note k = register_owned_keeps [OF ok, of registration]
  from ok show ?thesis
    by (cases rule: admission_cases [where registration = registration]) (use AdmitOwned ok k in auto)
next
  case (BindOwnedVenue client venue)
  then show ?thesis using keeps_fst [OF bind_owned_venue_keeps [OF ok]] by simp
next
  case (CompactProvenOwned client)
  from ok show ?thesis
    by (cases rule: compact_proven_owned_cases [where client = client]) (use CompactProvenOwned ok in auto)
next
  case (ObserveOrder envelope knowledge)
  then show ?thesis using keeps_fst [OF observe_order_keeps [OF ok]] op by simp
next
  case (ApplyOpenSnapshot envelope reservations)
  then show ?thesis using keeps_fst [OF apply_open_snapshot_keeps [OF ok]] op by (simp add: snapshot_ok_def)
next
  case (ApplyDetail envelope reservation)
  then show ?thesis
    using keeps_fst [OF apply_detail_keeps [OF ok]] op detail_okD by (simp add: detail_ok_def)
next
  case InvalidateFreshness
  then show ?thesis using ok orders_ok_frame(1) [of "invalidate_freshness s" s] by (simp add: invalidate_freshness_def)
qed

text \<open>Every operation but compaction retains the rows.\<close>

fun retains_rows :: "PmOrderOperation \<Rightarrow> bool" where
  "retains_rows (CompactProvenOwned client) = False"
| "retains_rows _ = True"

interpretation orders: reducer "order_step config" operation_ok retains_rows "orders_ok config"
    "\<lambda>s s'. rows_continue (os_entries s) (os_entries s')" for config
proof
  show "\<exists>s'. order_step config s i = Some s' \<and> orders_ok config s' \<and> (retains_rows i \<longrightarrow> rows_continue (os_entries s) (os_entries s'))"
    if "orders_ok config s" "operation_ok i" for s i
    using order_step_total [OF that] by (cases i) auto
qed (simp, rule rows_continue_trans)

lemma reachable_orders_ok: "order_reachable config s \<Longrightarrow> orders_ok config s"
proof (induction rule: order_reachable.induct)
  case new
  then show ?case by (rule orders_ok_new)
next
  case (step s operation s')
  then show ?case using order_step_total by fastforce
qed

end
