(* ===== verification/Pm_Order_Snapshot.thy ===== *)
theory Pm_Order_Snapshot
  imports Pm_Order_Invariant
begin

text \<open>
  Complete open-order snapshots.  \<open>apply_open_snapshot\<close> first runs a preflight over all rows and
  then reduces them one by one; the theory shows that a snapshot that passed its preflight is
  applied to the end, so that an error leaves the table as it was, and what an applied snapshot
  leaves behind.
\<close>

section \<open>Complete snapshots apply atomically\<close>

text \<open>The rows an identity touches decide what the preflight and the reduction of a row do.\<close>

definition touched :: "OrderEntry set \<Rightarrow> PmOrderIdentity \<Rightarrow> OrderEntry set" where
  "touched S identity = {e\<in>S. identities_overlap (oe_identity e) identity}"

lemma overlap_ranks:
  assumes inv: "order_inv account s" and o: "overlaps s identity = Some (Ok (Bridge i k))"
  shows "entry_rank (os_entries s ! i) < entry_rank (os_entries s ! k)"
proof -
  obtain x y where xy: "overlap_slots s identity = [x, y]" "i = unat x" "k = unat y"
    using o by (auto simp: overlaps_eq [OF inv] split: list.splits)
  have "sorted_wrt (\<lambda>a b. entry_rank (os_entries s ! unat a) < entry_rank (os_entries s ! unat b)) (os_canonical_index s)"
    using order_inv_canonical [OF inv] by (simp add: index_ok_def sorted_by_key_def view_def sorted_wrt_map)
  then have "sorted_wrt (\<lambda>a b. entry_rank (os_entries s ! unat a) < entry_rank (os_entries s ! unat b)) (overlap_slots s identity)"
    unfolding overlap_slots_def by (rule sorted_wrt_filter)
  then show ?thesis using xy by simp
qed

lemma overlaps_touched:
  assumes inv: "order_inv account s"
  obtains (none) "overlaps s identity = Some (Ok NoOverlap)" "touched (set (os_entries s)) identity = {}"
      "fresh_identity (os_entries s) identity"
  | (one) i where "overlaps s identity = Some (Ok (One i))" "sole (os_entries s) i identity"
      "touched (set (os_entries s)) identity = {os_entries s ! i}"
  | (bridge) i k where "overlaps s identity = Some (Ok (Bridge i k))" "i < length (os_entries s)" "k < length (os_entries s)" "i \<noteq> k"
      "touched (set (os_entries s)) identity = {os_entries s ! i, os_entries s ! k}"
      "entry_rank (os_entries s ! i) < entry_rank (os_entries s ! k)"
      "identities_overlap (oe_identity (os_entries s ! i)) identity"
      "\<forall>j<length (os_entries s). j \<noteq> i \<longrightarrow> j \<noteq> k \<longrightarrow> \<not> identities_overlap (oe_identity (os_entries s ! j)) identity"
  using inv
proof (cases rule: overlaps_cases [where identity = identity])
  case none
  then show thesis by (intro that(1)) (auto simp: touched_def fresh_identity_def)
next
  case (one i)
  then show thesis by (intro that(2) [of i]) (auto simp: touched_def sole_def in_set_conv_nth)
next
  case (bridge i k)
  have "touched (set (os_entries s)) identity = {os_entries s ! i, os_entries s ! k}"
    using bridge by (auto simp: touched_def in_set_conv_nth)
  then show thesis using bridge overlap_ranks [OF inv bridge(1)] by (intro that(3) [of i k]) simp_all
qed

definition row_preflight ::
    "OrderEntry set \<Rightarrow> PmPrivateOccurrence \<Rightarrow> PmOpenOrderReservation list \<Rightarrow> PmPrivateStateConfig \<Rightarrow> PmOrderEvent \<Rightarrow> bool" where
  "row_preflight S request reservations config event \<longleftrightarrow>
     validate_event event (cfg_source config) config = Ok ()
     \<and> validate_reservation event (companion_knowledge event reservations) = Some (Ok ())
     \<and> (\<forall>e. touched S (order_identity event) = {e} \<longrightarrow> preflight_existing_update e event request = Ok ())
     \<and> (\<forall>l r. touched S (order_identity event) = {l, r} \<longrightarrow> entry_rank l < entry_rank r \<longrightarrow>
          (\<exists>m. merge_entries l r = Some (Ok m) \<and> preflight_existing_update m event request = Ok ()))"

lemma ranked_pair: "{l, r} = {a, b} \<Longrightarrow> entry_rank l < entry_rank r \<Longrightarrow> entry_rank a < entry_rank b \<Longrightarrow> l = a \<and> r = b"
  by (metis doubleton_eq_iff less_asym)

lemma preflight_snapshot_rows_iff:
  assumes ok: "orders_ok config s"
  shows "preflight_snapshot_rows s request reservations config events = Some (Ok u)
    \<longleftrightarrow> (\<forall>event\<in>set events. row_preflight (set (os_entries s)) request reservations config event)"
proof (induction events)
  case (Cons event events)
  let ?i = "order_identity event"
  from orders_okD(1) [OF ok] show ?case
  proof (cases rule: overlaps_touched [where identity = ?i])
    case none
    then show ?thesis using Cons by (auto simp: row_preflight_def try_opt_Some)
  next
    case (one i)
    then have "nth_entry (os_entries s) i = Some (os_entries s ! i)" by (simp add: nth_entry_def sole_def)
    then show ?thesis using Cons one by (auto simp: row_preflight_def try_opt_Some)
  next
    case (bridge i k)
    have n: "nth_entry (os_entries s) i = Some (os_entries s ! i)" "nth_entry (os_entries s) k = Some (os_entries s ! k)"
      using bridge by (simp_all add: nth_entry_def)
    have "os_entries s ! i \<noteq> os_entries s ! k" using bridge(6) by auto
    then have one: "touched (set (os_entries s)) ?i \<noteq> {e}" for e using bridge(5) by auto
    have two: "touched (set (os_entries s)) ?i = {l, r} \<and> entry_rank l < entry_rank r
        \<longleftrightarrow> l = os_entries s ! i \<and> r = os_entries s ! k" for l r
      using bridge(5,6) ranked_pair by metis
    have "row_preflight (set (os_entries s)) request reservations config event \<longleftrightarrow>
        validate_event event (cfg_source config) config = Ok ()
        \<and> validate_reservation event (companion_knowledge event reservations) = Some (Ok ())
        \<and> (\<exists>m. merge_entries (os_entries s ! i) (os_entries s ! k) = Some (Ok m) \<and> preflight_existing_update m event request = Ok ())"
      unfolding row_preflight_def using one two by metis
    then show ?thesis using Cons bridge(1) n by (auto simp: try_opt_Some)
  qed
qed simp

text \<open>
  Two rows of one snapshot have different client keys and different venue keys.  A row of the
  table that both touch is later than the request, so the reduction skips it.
\<close>

definition other_event :: "PmOrderEvent \<Rightarrow> PmOrderEvent \<Rightarrow> bool" where
  "other_event a b \<longleftrightarrow>
     venue_order_key (order_identity a) \<noteq> None \<and> venue_order_key (order_identity b) \<noteq> None
     \<and> venue_order_key (order_identity a) \<noteq> venue_order_key (order_identity b)
     \<and> (\<forall>c. client_order_key (order_identity a) = Some c \<longrightarrow> client_order_key (order_identity b) \<noteq> Some c)"

lemma touched_one_identity:
  assumes other: "other_event a b" and e: "identities_overlap (oe_identity e) (order_identity a)" "identities_overlap (oe_identity e) (order_identity b)"
  shows "ensure_identity_merge (oe_identity e) (order_identity a) \<noteq> Ok u \<or> ensure_identity_merge (oe_identity e) (order_identity b) \<noteq> Ok u"
  using assms by (auto simp: other_event_def identities_overlap_iff ensure_identity_merge_Ok)

lemma touched_bridge_apart:
  assumes other: "other_event a b" and m: "ensure_identity_merge (oe_identity l) (oe_identity r) = Ok u"
    and touch: "identities_overlap (oe_identity l) (order_identity a)" "identities_overlap (oe_identity r) (order_identity a)"
    and apart: "\<not> identities_overlap (oe_identity l) (oe_identity r)"
  shows "\<not> identities_overlap (oe_identity l) (order_identity b)" "\<not> identities_overlap (oe_identity r) (order_identity b)"
  using assms by (auto simp: other_event_def identities_overlap_iff ensure_identity_merge_Ok)

lemma preflight_existing_update_Ok:
  "preflight_existing_update prior event occurrence = Ok u \<longleftrightarrow>
     is_some_and (\<lambda>p. occurrence < p) (oe_last_occurrence prior)
     \<or> (oe_last_occurrence prior = Some occurrence \<and> oe_event prior = Some event)
     \<or> (oe_last_occurrence prior \<noteq> Some occurrence \<and> ensure_identity_merge (oe_identity prior) (order_identity event) = Ok ()
        \<and> (\<forall>previous. oe_event prior = Some previous \<longrightarrow> validate_order_lifecycle previous event = Ok ())
        \<and> \<not> terms_differ event (oe_registered_terms prior))"
  by (auto simp: preflight_existing_update_def bind_result_Ok split: option.splits)

lemma shared_row_later:
  assumes other: "other_event a b" and e: "identities_overlap (oe_identity e) (order_identity a)" "identities_overlap (oe_identity e) (order_identity b)"
    and pf: "preflight_existing_update e a request = Ok ()" "preflight_existing_update e b request = Ok ()"
  shows "later_than request e"
proof -
  have "a \<noteq> b" using other by (auto simp: other_event_def)
  then show ?thesis using pf touched_one_identity [OF other e, of "()"]
    by (auto simp: preflight_existing_update_Ok later_than_def)
qed

lemma touched_cong:
  assumes "\<And>e. e \<in> T \<Longrightarrow> e \<notin> S \<Longrightarrow> \<not> identities_overlap (oe_identity e) identity"
    and "\<And>e. e \<in> S \<Longrightarrow> e \<notin> T \<Longrightarrow> \<not> identities_overlap (oe_identity e) identity"
  shows "touched T identity = touched S identity"
  using assms by (auto simp: touched_def)

lemma merged_untouched:
  assumes "merge_identity a b = Some m" "\<not> identities_overlap a i" "\<not> identities_overlap b i"
  shows "\<not> identities_overlap m i"
  using merge_identity_overlap [OF assms(1), of i] assms(2,3) overlap_sym by blast

lemma other_event_untouched: "other_event a b \<Longrightarrow> \<not> identities_overlap (order_identity a) (order_identity b)"
  by (auto simp: other_event_def identities_overlap_iff)

lemma other_event_sym: "other_event a b \<Longrightarrow> other_event b a"
  by (auto simp: other_event_def)

text \<open>An update that passed its preflight.\<close>

lemma update_existing_preflighted:
  assumes ok: "orders_ok config s" and i: "sole (os_entries s) i (order_identity event)"
    and id: "identity_in (cfg_account config) (order_identity event)" and inst: "order_instrument event = cfg_instrument config"
    and pf: "preflight_existing_update (os_entries s ! i) event occurrence = Ok ()"
  obtains s' r where "update_existing s i event occurrence knowledge reservation = Some (s', Ok r)"
    "os_entries s' = os_entries s \<or> (\<exists>x. os_entries s' = (os_entries s)[i := x]
       \<and> merge_identity (oe_identity (os_entries s ! i)) (order_identity event) = Some (oe_identity x))"
proof -
  let ?p = "os_entries s ! i"
  have i': "i < length (os_entries s)" using i by (simp add: sole_def)
  note p = orders_okD(2) [OF ok i']
  have lookup: "nth_entry (os_entries s) i = Some ?p" using i' by (simp add: nth_entry_def)
  obtain m where m: "merge_identity (oe_identity ?p) (order_identity event) = Some m" "identity_in (cfg_account config) m"
    using merge_identity_in [of "cfg_account config" "oe_identity ?p" "order_identity event"] p id by blast
  let ?r = "updated_entry ?p m event occurrence knowledge reservation"
  have r: "oe_identity ?r = m" by (simp add: updated_entry_def Let_def)
  obtain t where t: "replace_ordered s i ?r = Some (t, Ok ())" "os_entries t = (os_entries s)[i := ?r]"
    using replace_ordered_ok [OF orders_okD(1) [OF ok] i', of ?r] m(2) sole_merged [OF orders_okD(1) [OF ok] i m(1)]
    unfolding r by metis
  consider (skip) "is_some_and (\<lambda>p. occurrence < p) (oe_last_occurrence ?p) \<or> (oe_last_occurrence ?p = Some occurrence \<and> oe_event ?p = Some event)"
    | (change) "\<not> is_some_and (\<lambda>p. occurrence < p) (oe_last_occurrence ?p)" "oe_last_occurrence ?p \<noteq> Some occurrence"
      "ensure_identity_merge (oe_identity ?p) (order_identity event) = Ok ()"
      "\<not> is_some_and (\<lambda>previous. \<not> is_ok (validate_order_lifecycle previous event)) (oe_event ?p)"
      "\<not> terms_differ event (oe_registered_terms ?p)"
    using pf unfolding preflight_existing_update_Ok
    by (cases "oe_event ?p"; cases "is_some_and (\<lambda>p. occurrence < p) (oe_last_occurrence ?p)") auto
  then show thesis
  proof cases
    case skip
    then show thesis using that(1) lookup by (auto simp: update_existing_def)
  next
    case change
    let ?q = "is_live ?p \<and> terminal_event event"
    have "update_existing s i event occurrence knowledge reservation =
        Some (if ?q then order_bump (oc_terminal_releases_update inc) t else t, Ok (if ?q then TerminalReservationReleased else Updated))"
      using change lookup t(1) m(1) by (simp add: update_existing_def)
    then show thesis by (rule that) (use t(2) m(1) r in auto)
  qed
qed

text \<open>One row of the snapshot: it is applied, and the rows the other events touch stay as they are.\<close>

definition undisturbed :: "PmOrderState \<Rightarrow> PmOrderState \<Rightarrow> (PmOrderEvent \<Rightarrow> bool) \<Rightarrow> PmOrderEvent \<Rightarrow> bool" where
  "undisturbed s s' pf event \<longleftrightarrow>
     (\<forall>b. other_event event b \<longrightarrow> pf b \<longrightarrow> touched (set (os_entries s')) (order_identity b) = touched (set (os_entries s)) (order_identity b))"

lemma sole_row_untouched:
  assumes ok: "orders_ok config s" and i: "sole (os_entries s) i (order_identity event)" and other: "other_event event b"
    and pf: "preflight_existing_update (os_entries s ! i) event request = Ok ()" "\<not> later_than request (os_entries s ! i)"
    and b: "row_preflight (set (os_entries s)) request reservations config b"
  shows "\<not> identities_overlap (oe_identity (os_entries s ! i)) (order_identity b)"
proof
  assume touch: "identities_overlap (oe_identity (os_entries s ! i)) (order_identity b)"
  note inv = orders_okD(1) [OF ok]
  have e: "identities_overlap (oe_identity (os_entries s ! i)) (order_identity event)" "i < length (os_entries s)"
    using i by (simp_all add: sole_def)
  have mem: "os_entries s ! i \<in> touched (set (os_entries s)) (order_identity b)" using touch e(2) by (simp add: touched_def)
  from inv show False
  proof (cases rule: overlaps_touched [where identity = "order_identity b"])
    case none
    then show ?thesis using mem by simp
  next
    case (one j)
    then have "preflight_existing_update (os_entries s ! i) b request = Ok ()" using b mem by (auto simp: row_preflight_def)
    then show ?thesis using shared_row_later [OF other e(1) touch pf(1)] pf(2) by simp
  next
    case (bridge l r)
    obtain m where m: "merge_entries (os_entries s ! l) (os_entries s ! r) = Some (Ok m)"
      using b bridge(5,6) unfolding row_preflight_def by metis
    have "ensure_identity_merge (oe_identity (os_entries s ! l)) (oe_identity (os_entries s ! r)) = Ok ()"
      using merge_entries_Ok(2) [OF m] orders_okD(2) [OF ok] bridge(2,3) by blast
    moreover have "os_entries s ! l \<in> touched (set (os_entries s)) (order_identity b)" "os_entries s ! r \<in> touched (set (os_entries s)) (order_identity b)"
      unfolding bridge(5) by simp_all
    ultimately have "\<not> identities_overlap (oe_identity (os_entries s ! l)) (order_identity event)"
      "\<not> identities_overlap (oe_identity (os_entries s ! r)) (order_identity event)"
      using touched_bridge_apart [OF other_event_sym [OF other], of "os_entries s ! l" "os_entries s ! r"] rows_apart [OF inv bridge(2,3,4)] by (simp_all add: touched_def)
    then show ?thesis using mem bridge(5) e(1) by auto
  qed
qed

lemma undisturbed_same: "os_entries s' = os_entries s \<Longrightarrow> undisturbed s s' pf event"
  by (simp add: undisturbed_def)

lemma undisturbed_update:
  assumes m: "merge_identity (oe_identity (os_entries s ! i)) (order_identity event) = Some (oe_identity x)"
    and s': "os_entries s' = (os_entries s)[i := x]"
    and apart: "\<And>b. other_event event b \<Longrightarrow> pf b \<Longrightarrow> \<not> identities_overlap (oe_identity (os_entries s ! i)) (order_identity b)"
  shows "undisturbed s s' pf event"
  unfolding undisturbed_def
proof (intro allI impI touched_cong)
  fix b assume b: "other_event event b" "pf b"
  have x: "\<not> identities_overlap (oe_identity x) (order_identity b)"
    by (rule merged_untouched [OF m apart [OF b] other_event_untouched [OF b(1)]])
  show "\<not> identities_overlap (oe_identity e) (order_identity b)" if "e \<in> set (os_entries s')" "e \<notin> set (os_entries s)" for e
    using that x set_update_subset_insert [of "os_entries s" i x] s' by auto
  show "\<not> identities_overlap (oe_identity e) (order_identity b)" if e: "e \<in> set (os_entries s)" "e \<notin> set (os_entries s')" for e
  proof -
    obtain j where j: "j < length (os_entries s)" "e = os_entries s ! j" using e(1) by (auto simp: in_set_conv_nth)
    then have "j = i" using e(2) s' by (metis length_list_update nth_list_update_neq nth_mem)
    then show ?thesis using j apart [OF b] by simp
  qed
qed

lemma undisturbed_trans:
  "undisturbed s s1 pf event \<Longrightarrow> undisturbed s1 s2 pf event \<Longrightarrow> undisturbed s s2 pf event"
  by (simp add: undisturbed_def)

lemma undisturbed_coalesce:
  assumes ok: "orders_ok config s" and ik: "i < length (os_entries s)" "k < length (os_entries s)" "i \<noteq> k"
    and touch: "os_entries s ! i \<in> touched (set (os_entries s)) (order_identity event)" "os_entries s ! k \<in> touched (set (os_entries s)) (order_identity event)"
    and m: "merge_entries (os_entries s ! i) (os_entries s ! k) = Some (Ok m)"
    and s: "mset (os_entries s) = add_mset (os_entries s ! i) (add_mset (os_entries s ! k) R)" "mset (os_entries s') = add_mset m R"
    and b: "other_event event b"
  shows "touched (set (os_entries s')) (order_identity b) = touched (set (os_entries s)) (order_identity b)"
    "\<not> identities_overlap (oe_identity m) (order_identity b)"
proof -
  note f = merge_entries_Ok [OF m, of "cfg_account config"]
  have f': "ensure_identity_merge (oe_identity (os_entries s ! i)) (oe_identity (os_entries s ! k)) = Ok ()"
    "merge_identity (oe_identity (os_entries s ! i)) (oe_identity (os_entries s ! k)) = Some (oe_identity m)"
    using f(2,3) orders_okD(2) [OF ok] ik by simp_all
  have lr: "\<not> identities_overlap (oe_identity (os_entries s ! i)) (order_identity b)" "\<not> identities_overlap (oe_identity (os_entries s ! k)) (order_identity b)"
    using touched_bridge_apart [OF b f'(1)] touch rows_apart [OF orders_okD(1) [OF ok] ik] by (simp_all add: touched_def)
  show "\<not> identities_overlap (oe_identity m) (order_identity b)"
    by (rule merged_untouched [OF f'(2) lr])
  then show "touched (set (os_entries s')) (order_identity b) = touched (set (os_entries s)) (order_identity b)"
    using lr arg_cong [OF s(1), of set_mset] arg_cong [OF s(2), of set_mset] by (auto simp: touched_def)
qed

definition room_for :: "PmOrderState \<Rightarrow> PmOrderEvent \<Rightarrow> nat" where
  "room_for s event = (if fresh_identity (os_entries s) (order_identity event) then 1 else 0)"

lemma reduce_snapshot_row_preflighted:
  assumes ok: "orders_ok config s" and ev: "event_ok event"
    and pf: "row_preflight (set (os_entries s)) request reservations config event"
    and room: "length (os_entries s) + room_for s event \<le> MAX_PM_PRIVATE_ORDERS"
  obtains s' r where "reduce_snapshot_row s event request (companion_knowledge event reservations) config = Some (s', Ok r)"
    "length (os_entries s') \<le> length (os_entries s) + room_for s event"
    "undisturbed s s' (row_preflight (set (os_entries s)) request reservations config) event"
proof -
  let ?i = "order_identity event" and ?k = "companion_knowledge event reservations"
    and ?pf = "row_preflight (set (os_entries s)) request reservations config"
  have v: "validate_event event (cfg_source config) config = Ok ()" "validate_reservation event ?k = Some (Ok ())"
    using pf by (simp_all add: row_preflight_def)
  note id = validate_event_Ok [OF ev v(1)] and inv = orders_okD(1) [OF ok]
  from inv show thesis
  proof (cases rule: overlaps_touched [where identity = ?i])
    case none
    let ?r = "remote_entry event Unmanaged ?k request"
    have one: "room_for s event = 1" using none(3) by (simp add: room_for_def)
    have r: "oe_identity ?r = ?i" by (simp add: remote_entry_def)
    obtain t where t: "insert_ordered s ?r = Some (t, Ok ())" "os_entries t = os_entries s @ [?r]"
      using insert_ordered_ok [OF inv, of ?r] room one id none(3) r by auto
    have "insert_order s ?r = Some (t, Ok ())" using t room one by (simp add: insert_order_def)
    moreover have "undisturbed s (count_remote t Unmanaged) ?pf event"
      using other_event_untouched r t(2) by (auto simp: undisturbed_def intro!: touched_cong)
    ultimately show thesis using none v t(2) one by (intro that) (simp_all add: reduce_snapshot_row_def)
  next
    case (one i)
    have look: "nth_entry (os_entries s) i = Some (os_entries s ! i)" using one(2) by (simp add: nth_entry_def sole_def)
    have p: "preflight_existing_update (os_entries s ! i) event request = Ok ()" using pf one(3) by (simp add: row_preflight_def)
    show thesis
    proof (cases "later_than request (os_entries s ! i)")
      case True
      then show thesis using v one(1) look by (intro that [of s]) (simp_all add: reduce_snapshot_row_def undisturbed_same)
    next
      case False
      obtain t r where t: "update_existing s i event request (PmRemoteOrderKnowledge.Unmanaged ?k) ?k = Some (t, Ok r)"
        "os_entries t = os_entries s \<or> (\<exists>x. os_entries t = (os_entries s)[i := x] \<and> merge_identity (oe_identity (os_entries s ! i)) ?i = Some (oe_identity x))"
        by (rule update_existing_preflighted [OF ok one(2) id p])
      have "undisturbed s t ?pf event"
        using t(2) undisturbed_same undisturbed_update sole_row_untouched [OF ok one(2) _ p False] by metis
      then show thesis using v one(1) look False t by (intro that [of t r]) (auto simp: reduce_snapshot_row_def)
    qed
  next
    case (bridge i k)
    have look: "nth_entry (os_entries s) i = Some (os_entries s ! i)" "nth_entry (os_entries s) k = Some (os_entries s ! k)"
      using bridge by (simp_all add: nth_entry_def)
    show thesis
    proof (cases "later_than request (os_entries s ! i) \<or> later_than request (os_entries s ! k)")
      case True
      then show thesis using v bridge(1) look by (intro that [of s]) (simp_all add: reduce_snapshot_row_def undisturbed_same)
    next
      case False
      obtain m where m: "merge_entries (os_entries s ! i) (os_entries s ! k) = Some (Ok m)" "preflight_existing_update m event request = Ok ()"
        using pf bridge(5,6) unfolding row_preflight_def by metis
      from ok bridge(2-4,7,8) show thesis
      proof (cases rule: coalesce_bridge)
        case (conflict e)
        then show thesis using m by simp
      next
        case (merged m' t n R)
        have "m' = m" using merged(1) m(1) by simp
        note n = merged(7) [unfolded this]
        obtain t' r where t': "update_existing t n event request (PmRemoteOrderKnowledge.Unmanaged ?k) ?k = Some (t', Ok r)"
          "os_entries t' = os_entries t \<or> (\<exists>x. os_entries t' = (os_entries t)[n := x] \<and> merge_identity (oe_identity (os_entries t ! n)) ?i = Some (oe_identity x))"
          using update_existing_preflighted [OF merged(3,6) id] m(2) n by metis
        have touch: "os_entries s ! i \<in> touched (set (os_entries s)) ?i" "os_entries s ! k \<in> touched (set (os_entries s)) ?i"
          unfolding bridge(5) by simp_all
        note apart = undisturbed_coalesce [OF ok bridge(2-4) touch merged(1,9,10)]
        have "undisturbed s t ?pf event" using apart(1) by (simp add: undisturbed_def)
        moreover have "undisturbed t t' ?pf event"
          using t'(2) undisturbed_same undisturbed_update [of t n event] apart(2) merged(7) by metis
        ultimately have "undisturbed s t' ?pf event" by (rule undisturbed_trans)
        moreover have "length (os_entries t') \<le> length (os_entries s)"
          using t'(2) arg_cong [OF merged(9), of size] arg_cong [OF merged(10), of size] by auto
        ultimately show thesis using v bridge(1) look False merged(2,5) t'
          by (intro that [of t' r]) (simp_all add: reduce_snapshot_row_def)
      qed
    qed
  qed
qed

lemma row_preflight_touched:
  assumes "touched S (order_identity event) = touched T (order_identity event)"
  shows "row_preflight S request reservations config event \<longleftrightarrow> row_preflight T request reservations config event"
  using assms by (simp add: row_preflight_def)

lemma room_for_touched: "room_for s event = (if touched (set (os_entries s)) (order_identity event) = {} then 1 else 0)"
  by (auto simp: room_for_def fresh_identity_def touched_def)

lemma apply_snapshot_rows_preflighted:
  assumes "orders_ok config s" "\<forall>event\<in>set events. event_ok event" "sorted_wrt other_event events"
    and "\<forall>event\<in>set events. row_preflight (set (os_entries s)) request reservations config event"
    and "length (os_entries s) + sum_list (map (room_for s) events) \<le> MAX_PM_PRIVATE_ORDERS"
  shows "\<exists>s' r. apply_snapshot_rows s request reservations config n m events = Some (s', Ok r)"
  using assms
proof (induction events arbitrary: s n m)
  case (Cons event events)
  obtain t r where t: "reduce_snapshot_row s event request (companion_knowledge event reservations) config = Some (t, Ok r)"
    "length (os_entries t) \<le> length (os_entries s) + room_for s event"
    "undisturbed s t (row_preflight (set (os_entries s)) request reservations config) event"
    by (rule reduce_snapshot_row_preflighted [of config s event request reservations]) (use Cons.prems in simp_all)
  have ok: "orders_ok config t" using reduce_snapshot_row_keeps [of config s event] Cons.prems(1,2) t(1) by (metis keeps_Some list.set_intros(1))
  have same: "touched (set (os_entries t)) (order_identity b) = touched (set (os_entries s)) (order_identity b)" if "b \<in> set events" for b
    using t(3) Cons.prems(3,4) that by (simp add: undisturbed_def)
  then have "sum_list (map (room_for t) events) = sum_list (map (room_for s) events)"
    by (intro arg_cong [where f = sum_list]) (simp add: room_for_touched)
  then have room: "length (os_entries t) + sum_list (map (room_for t) events) \<le> MAX_PM_PRIVATE_ORDERS"
    using Cons.prems(5) t(2) by simp
  have "\<forall>b\<in>set events. row_preflight (set (os_entries t)) request reservations config b"
    using Cons.prems(4) row_preflight_touched [OF same] by simp
  then have "\<exists>s' r. apply_snapshot_rows t request reservations config n m events = Some (s', Ok r)" for n m
    using Cons.IH [OF ok _ _ _ room] Cons.prems by simp
  then show ?case using t(1) by simp
qed simp

lemma distinct_map_filter_pairs:
  "distinct (List.map_filter f xs) \<longleftrightarrow> sorted_wrt (\<lambda>x y. \<forall>k. f x = Some k \<longrightarrow> f y \<noteq> Some k) xs"
proof (induction xs)
  case (Cons x xs)
  have "k \<in> set (List.map_filter f xs) \<longleftrightarrow> (\<exists>y\<in>set xs. f y = Some k)" for k
    by (auto simp: map_filter_def image_iff)
  then show ?case using Cons by (auto simp: map_filter_simps split: option.splits)
qed (simp add: map_filter_def)

lemma snapshot_events_apart:
  assumes "PmCompleteOpenOrdersSnapshot_new source scope snapshot boundary orders = Ok u"
  shows "sorted_wrt other_event orders"
proof -
  have venue: "\<forall>order\<in>set orders. venue_order_key (order_identity order) \<noteq> None"
    and keys: "sorted_wrt (\<lambda>x y. \<forall>k. client_order_key (order_identity x) = Some k \<longrightarrow> client_order_key (order_identity y) \<noteq> Some k) orders"
      "sorted_wrt (\<lambda>x y. \<forall>k. venue_order_key (order_identity x) = Some k \<longrightarrow> venue_order_key (order_identity y) \<noteq> Some k) orders"
    using assms by (auto simp: open_orders_snapshot_Ok distinct_map_filter_pairs)
  have "sorted_wrt (\<lambda>x y. (\<forall>k. client_order_key (order_identity x) = Some k \<longrightarrow> client_order_key (order_identity y) \<noteq> Some k)
      \<and> (\<forall>k. venue_order_key (order_identity x) = Some k \<longrightarrow> venue_order_key (order_identity y) \<noteq> Some k)) orders"
    using keys by (induction orders) auto
  then show ?thesis
    by (rule sorted_wrt_mono_rel [rotated]) (use venue in \<open>auto simp: other_event_def\<close>)
qed

lemma room_for_count:
  "sum_list (map (room_for s) events) = length (filter (\<lambda>event. fresh_identity (os_entries s) (order_identity event)) events)"
  by (induction events) (simp_all add: room_for_def)

lemma apply_fresh_open_snapshot_preflighted:
  assumes ok: "orders_ok config s" and snap: "snapshot_ok (env_payload envelope)"
    and pf: "preflight_fresh_open_snapshot s envelope reservations config = Some (t, Ok u)"
  shows "t = s" "\<exists>s' r. apply_fresh_open_snapshot s envelope reservations config = Some (s', Ok r)"
proof -
  let ?events = "open_orders (env_payload envelope)"
  have cap: "preflight_snapshot_capacity s (env_payload envelope) = Some (s, Ok ())"
    and small: "length (os_entries s) + sum_list (map (room_for s) ?events) \<le> MAX_PM_PRIVATE_ORDERS"
    and rows: "preflight_snapshot_rows s (snapshot_request envelope) reservations config ?events = Some (Ok ())" and "t = s"
    using pf by (auto simp: preflight_fresh_open_snapshot_def and_then_Some try_check_Some preflight_snapshot_capacity_def
        count_new_orders_eq [OF ok] room_for_count split: if_splits)
  show "t = s" by fact
  have "sorted_wrt other_event ?events" "\<forall>event\<in>set ?events. event_ok event"
    using snap snapshot_events_apart by (auto simp: snapshot_ok_def)
  then obtain s' r where "apply_snapshot_rows s (snapshot_request envelope) reservations config 0 0 ?events = Some (s', Ok r)"
    using apply_snapshot_rows_preflighted [OF ok _ _ _ small] rows preflight_snapshot_rows_iff [OF ok] by blast
  then show "\<exists>s' r. apply_fresh_open_snapshot s envelope reservations config = Some (s', Ok r)"
    using cap by (cases r) (simp add: apply_fresh_open_snapshot_def Let_def split: prod.splits)
qed

lemma apply_open_snapshot_error:
  assumes ok: "orders_ok config s" and snap: "snapshot_ok (env_payload envelope)"
    and err: "apply_open_snapshot s envelope reservations config = Some (s', Err e)"
  shows "s' = s\<lparr>os_counters := os_counters s'\<rparr>"
proof -
  let ?n = "snapshot_stale_or_duplicate s (env_payload envelope) (connection_epoch (env_ordering envelope))"
  consider "s' = s" | "validate_open_snapshot envelope reservations config = Some (Ok ())" "?n = (s, None)"
    using err by (auto simp: apply_open_snapshot_def try_check_Some snapshot_stale_or_duplicate_def Let_def split: if_splits)
  then show ?thesis
  proof cases
    case 2
    then have "and_then (preflight_fresh_open_snapshot s envelope reservations config) (\<lambda>s _.
        apply_fresh_open_snapshot s envelope reservations config) = Some (s', Err e)"
      using err by (simp add: apply_open_snapshot_def)
    then have "preflight_fresh_open_snapshot s envelope reservations config = Some (s', Err e)"
      using apply_fresh_open_snapshot_preflighted [OF ok snap, of reservations] by (fastforce simp: and_then_Some)
    then show ?thesis
      by (auto simp: preflight_fresh_open_snapshot_def and_then_Some try_check_Some preflight_snapshot_capacity_def
          count_new_orders_eq [OF ok] order_bump_def split: if_splits)
  qed simp
qed


text \<open>A snapshot that was applied leaves a row for each of its orders, and marks the rest.\<close>

definition tracked :: "PmOrderState \<Rightarrow> PmPrivateOccurrence \<Rightarrow> PmOrderEvent \<Rightarrow> bool" where
  "tracked s request event \<longleftrightarrow>
     (\<exists>e\<in>set (os_entries s). identities_overlap (oe_identity e) (order_identity event) \<and> Some request \<le> oe_last_occurrence e)"

lemma tracked_continues: "tracked s request event \<Longrightarrow> rows_continue (os_entries s) (os_entries s') \<Longrightarrow> tracked s' request event"
  unfolding tracked_def rows_continue_def using overlap_carried by (metis order_trans row_le_def)

lemma later_than_le: "later_than request e \<Longrightarrow> Some request \<le> oe_last_occurrence e"
  by (cases "oe_last_occurrence e") (auto simp: later_than_def)

lemma update_existing_tracked:
  assumes ok: "orders_ok config s" and i: "sole (os_entries s) i (order_identity event)"
    and id: "identity_in (cfg_account config) (order_identity event)"
    and out: "update_existing s i event request knowledge reservation = Some (s', Ok r)"
  shows "tracked s' request event"
proof -
  let ?p = "os_entries s ! i"
  have i': "i < length (os_entries s)" and hit: "identities_overlap (oe_identity ?p) (order_identity event)" using i by (simp_all add: sole_def)
  note p = orders_okD(2) [OF ok i']
  have lookup: "nth_entry (os_entries s) i = Some ?p" using i' by (simp add: nth_entry_def)
  obtain m where m: "merge_identity (oe_identity ?p) (order_identity event) = Some m" "identity_in (cfg_account config) m"
    "client_order_key m = option_or (client_order_key (oe_identity ?p)) (client_order_key (order_identity event))"
    "venue_order_key m = option_or (venue_order_key (oe_identity ?p)) (venue_order_key (order_identity event))"
    using merge_identity_in [of "cfg_account config" "oe_identity ?p" "order_identity event"] p id by blast
  have over: "identities_overlap m (order_identity event)"
    using hit m(3,4) by (auto simp: identities_overlap_iff)
  let ?r = "updated_entry ?p m event request knowledge reservation"
  have r: "oe_identity ?r = m" "oe_last_occurrence ?r = Some request" by (simp_all add: updated_entry_def Let_def)
  obtain t where t: "replace_ordered s i ?r = Some (t, Ok ())" "os_entries t = (os_entries s)[i := ?r]"
    using replace_ordered_ok [OF orders_okD(1) [OF ok] i', of ?r] m(2) sole_merged [OF orders_okD(1) [OF ok] i m(1)]
    unfolding r(1) by metis
  consider "os_entries s' = os_entries s" "Some request \<le> oe_last_occurrence ?p" | "os_entries s' = (os_entries s)[i := ?r]"
    using out lookup m(1) t
    by (cases "oe_last_occurrence ?p") (auto simp: update_existing_def try_result_Some split: if_splits)
  then show ?thesis
  proof cases
    case 1
    then show ?thesis unfolding tracked_def using hit nth_mem [OF i'] by metis
  next
    case 2
    then have "?r \<in> set (os_entries s')" using i' by (simp add: set_update_memI)
    then show ?thesis unfolding tracked_def using over r by (metis order_refl)
  qed
qed

lemma reduce_snapshot_row_tracked:
  assumes ok: "orders_ok config s" and ev: "event_ok event"
    and out: "reduce_snapshot_row s event request reservation config = Some (s', Ok r)"
  shows "tracked s' request event"
proof -
  let ?i = "order_identity event"
  have v: "validate_event event (cfg_source config) config = Ok ()"
    and w: "validate_reservation event reservation = Some (Ok ())"
    using out unfolding reduce_snapshot_row_def
    by (cases "validate_event event (cfg_source config) config"; cases "validate_reservation event reservation";
        auto simp: try_check_def split: result.splits)+
  note out' = out [unfolded reduce_snapshot_row_def v w panic_simps Let_def]
  note id = validate_event_Ok [OF ev v]
  have self: "identities_overlap ?i ?i" by (rule overlap_self [OF id(1)])
  from orders_okD(1) [OF ok] show ?thesis
  proof (cases rule: overlaps_touched [where identity = ?i])
    case none
    let ?r = "remote_entry event Unmanaged reservation request"
    obtain t where "insert_ordered s ?r = Some (t, Ok ())" "s' = count_remote t Unmanaged"
      using out' none(1) by (auto simp: insert_order_def and_then_Some split: if_splits)
    moreover have "length (os_entries s) < MAX_PM_PRIVATE_ORDERS"
      using out' none(1) orders_okD(1) [OF ok] by (auto simp: insert_order_def order_inv_def split: if_splits)
    ultimately have "os_entries s' = os_entries s @ [?r]"
      using insert_ordered_ok [OF orders_okD(1) [OF ok], of ?r] id(1) none(3) by (auto simp: remote_entry_row)
    then show ?thesis using self by (auto simp: tracked_def remote_entry_def)
  next
    case (one i)
    have look: "nth_entry (os_entries s) i = Some (os_entries s ! i)" using one(2) by (simp add: nth_entry_def sole_def)
    show ?thesis
    proof (cases "later_than request (os_entries s ! i)")
      case True
      then show ?thesis using out' one look later_than_le [OF True] by (auto simp: tracked_def sole_def)
    next
      case False
      then show ?thesis using out' one(1) look update_existing_tracked [OF ok one(2) id(1)] by simp
    qed
  next
    case (bridge i k)
    have look: "nth_entry (os_entries s) i = Some (os_entries s ! i)" "nth_entry (os_entries s) k = Some (os_entries s ! k)"
      using bridge by (simp_all add: nth_entry_def)
    have touch: "os_entries s ! i \<in> touched (set (os_entries s)) ?i" "os_entries s ! k \<in> touched (set (os_entries s)) ?i"
      unfolding bridge(5) by simp_all
    show ?thesis
    proof (cases "later_than request (os_entries s ! i) \<or> later_than request (os_entries s ! k)")
      case True
      then show ?thesis using out' bridge(1) look touch later_than_le by (auto simp: tracked_def touched_def)
    next
      case False
      from ok bridge(2-4,7,8) show ?thesis
      proof (cases rule: coalesce_bridge)
        case (conflict e)
        then show ?thesis using out' bridge(1) look False by simp
      next
        case (merged m t n R)
        then show ?thesis using out' bridge(1) look False update_existing_tracked [OF merged(3,6) id(1)] by simp
      qed
    qed
  qed
qed

lemma apply_snapshot_rows_tracked:
  assumes "orders_ok config s" "\<forall>event\<in>set events. event_ok event"
    and "apply_snapshot_rows s request reservations config n m events = Some (s', Ok r)"
  shows "\<forall>event\<in>set events. tracked s' request event"
  using assms
proof (induction events arbitrary: s n m)
  case (Cons event events)
  obtain t q where t: "reduce_snapshot_row s event request (companion_knowledge event reservations) config = Some (t, Ok q)"
    and rest: "apply_snapshot_rows t request reservations config
         (if q = Inserted then saturating_add n 1 else n) (if q = Updated then saturating_add m 1 else m) events = Some (s', Ok r)"
    using Cons.prems(3) by (auto simp: and_then_Some)
  have ok: "orders_ok config t"
    using reduce_snapshot_row_keeps [of config s event] Cons.prems(1,2) t by (metis keeps_Some list.set_intros(1))
  have "tracked t request event" using reduce_snapshot_row_tracked [OF Cons.prems(1) _ t] Cons.prems(2) by simp
  moreover have "rows_continue (os_entries t) (os_entries s')"
    using apply_snapshot_rows_keeps [OF ok] Cons.prems(2) rest by (metis keeps_Some list.set_intros(2))
  ultimately show ?case using Cons.IH [OF ok _ rest] Cons.prems(2) tracked_continues by simp
qed simp

lemma mark_missing_marks:
  assumes "mark_missing s snapshot request = (t, n)" "e \<in> set (os_entries t)" "missing_from snapshot request e"
  shows "oe_missing_from_complete_open_snapshot e"
proof -
  have "os_entries t = map (\<lambda>e. if missing_from snapshot request e then e\<lparr>oe_missing_from_complete_open_snapshot := True\<rparr> else e) (os_entries s)"
    using assms(1) mark_missing_entries_eq [of snapshot request 0 "os_entries s"] by (auto simp: mark_missing_def split: prod.splits)
  then show ?thesis using assms(2,3) by auto
qed

lemma apply_open_snapshot_applied:
  assumes ok: "orders_ok config s" and ev: "\<forall>event\<in>set (open_orders (env_payload envelope)). event_ok event"
    and out: "apply_open_snapshot s envelope reservations config = Some (s', Ok (Applied inserted updated retained))"
  shows "\<forall>event\<in>set (open_orders (env_payload envelope)). tracked s' (snapshot_request envelope) event"
    "\<forall>e\<in>set (os_entries s'). missing_from (env_payload envelope) (snapshot_request envelope) e \<longrightarrow> oe_missing_from_complete_open_snapshot e"
    "os_latest_snapshot_revision s' = Some (open_snapshot (env_payload envelope))"
    "os_latest_snapshot_completion s' = Some (snapshot_completion envelope)"
proof -
  have n: "snapshot_stale_or_duplicate s (env_payload envelope) (connection_epoch (env_ordering envelope)) = (s, None)"
    and after: "and_then (preflight_fresh_open_snapshot s envelope reservations config) (\<lambda>s _.
        apply_fresh_open_snapshot s envelope reservations config) = Some (s', Ok (Applied inserted updated retained))"
    using out by (auto simp: apply_open_snapshot_def try_check_Some snapshot_stale_or_duplicate_def Let_def split: if_splits)
  obtain t where "preflight_fresh_open_snapshot s envelope reservations config = Some (t, Ok ())"
    and fresh: "apply_fresh_open_snapshot t envelope reservations config = Some (s', Ok (Applied inserted updated retained))"
    using after by (auto simp: and_then_Some)
  then have t: "t = s" and cap: "preflight_snapshot_capacity s (env_payload envelope) = Some (s, Ok ())"
    by (auto simp: preflight_fresh_open_snapshot_def and_then_Some try_check_Some preflight_snapshot_capacity_def count_new_orders_eq [OF ok] split: if_splits)
  obtain u a b where u: "apply_snapshot_rows s (snapshot_request envelope) reservations config 0 0 (open_orders (env_payload envelope)) = Some (u, Ok (a, b))"
    using fresh cap unfolding t apply_fresh_open_snapshot_def Let_def by (auto simp: and_then_Some)
  obtain v w where v: "mark_missing u (env_payload envelope) (snapshot_request envelope) = (v, w)" by (cases rule: prod.exhaust)
  have f: "os_entries s' = os_entries v" "os_latest_snapshot_revision s' = Some (open_snapshot (env_payload envelope))"
    "os_latest_snapshot_completion s' = Some (snapshot_completion envelope)"
    using fresh cap u v unfolding t by (auto simp: apply_fresh_open_snapshot_def Let_def)
  show "os_latest_snapshot_revision s' = Some (open_snapshot (env_payload envelope))"
    "os_latest_snapshot_completion s' = Some (snapshot_completion envelope)" by (rule f)+
  have uok: "orders_ok config u" using apply_snapshot_rows_keeps [OF ok ev] u by (metis keeps_Some)
  show "\<forall>event\<in>set (open_orders (env_payload envelope)). tracked s' (snapshot_request envelope) event"
    using apply_snapshot_rows_tracked [OF ok ev u] mark_missing_keeps(2) [OF uok v] tracked_continues f(1)
    by (metis (no_types, lifting) tracked_def)
  show "\<forall>e\<in>set (os_entries s'). missing_from (env_payload envelope) (snapshot_request envelope) e \<longrightarrow> oe_missing_from_complete_open_snapshot e"
    using mark_missing_marks [OF v] f(1) by simp
qed

end
