(* ===== verification/Pm_Order_Summary.thy ===== *)
theory Pm_Order_Summary
  imports Pm_Order_Invariant
begin

text \<open>
  The decision summary of \<open>order_state/decision_summary.rs\<close>: the scan over the dense rows, with
  its second scan in canonical order, computes the exact counts and totals of the live rows.
\<close>

section \<open>The decision summary\<close>

text \<open>The reservation totals of a list of rows, added in list order.\<close>

definition totals_of :: "OrderEntry list \<Rightarrow> (U256 \<times> U256, PmReservationTotalsError) result \<Rightarrow> (U256 \<times> U256, PmReservationTotalsError) result" where
  "totals_of rows t = foldl (\<lambda>t e. add_reservation (oe_identity e) (oe_reservation e) t) t rows"

definition reserved :: "(PmExactReservation \<Rightarrow> U256) \<Rightarrow> OrderEntry \<Rightarrow> nat" where
  "reserved f e = (case oe_reservation e of Some (Known r) \<Rightarrow> u256_nat (f r) | _ \<Rightarrow> 0)"

abbreviation reservation_unknown :: "OrderEntry \<Rightarrow> bool" where
  "reservation_unknown e \<equiv> oe_reservation e = Some PmReservationKnowledge.Unknown"

lemma totals_of_simps [simp]:
  "totals_of [] t = t" "totals_of (e # rows) t = totals_of rows (add_reservation (oe_identity e) (oe_reservation e) t)"
  by (simp_all add: totals_of_def)

lemma totals_of_Err [simp]: "totals_of rows (Err e) = Err e"
  by (induction rows) (simp_all add: add_reservation_def)

lemma add_reservation_known:
  assumes "\<not> reservation_unknown e"
  shows "add_reservation i (oe_reservation e) (Ok (c, q)) =
    (if u256_nat c + reserved res_collateral e < 2 ^ 256 \<and> u256_nat q + reserved res_outcome e < 2 ^ 256
     then Ok (u256_of_nat (u256_nat c + reserved res_collateral e), u256_of_nat (u256_nat q + reserved res_outcome e))
     else Err Overflow)"
  using assms u256_nat_bound [of c] u256_nat_bound [of q]
  by (auto simp: add_reservation_def reserved_def U256_checked_add_eq u256_of_nat_nat split: option.splits PmReservationKnowledge.splits)

text \<open>Without an unknown reservation the order of the rows does not matter.\<close>

lemma totals_of_known:
  assumes "\<forall>e\<in>set rows. \<not> reservation_unknown e"
  shows "totals_of rows (Ok (c, q)) =
    (if u256_nat c + sum_list (map (reserved res_collateral) rows) < 2 ^ 256
        \<and> u256_nat q + sum_list (map (reserved res_outcome) rows) < 2 ^ 256
     then Ok (u256_of_nat (u256_nat c + sum_list (map (reserved res_collateral) rows)),
              u256_of_nat (u256_nat q + sum_list (map (reserved res_outcome) rows)))
     else Err Overflow)"
  using assms
proof (induction rows arbitrary: c q)
  case Nil
  then show ?case using u256_nat_bound by (simp add: u256_of_nat_nat)
next
  case (Cons e rows)
  let ?c = "u256_nat c + reserved res_collateral e" and ?q = "u256_nat q + reserved res_outcome e"
  show ?case
  proof (cases "?c < 2 ^ 256 \<and> ?q < 2 ^ 256")
    case True
    then have "totals_of (e # rows) (Ok (c, q)) = totals_of rows (Ok (u256_of_nat ?c, u256_of_nat ?q))"
      using Cons.prems by (simp add: add_reservation_known)
    then show ?thesis using Cons True by (simp add: u256_nat_of_nat add.assoc)
  next
    case False
    then show ?thesis using Cons.prems by (auto simp: add_reservation_known)
  qed
qed

lemma totals_of_Ok_known: "totals_of rows (Ok cq) = Ok t \<Longrightarrow> \<forall>e\<in>set rows. \<not> reservation_unknown e"
proof (induction rows arbitrary: cq)
  case (Cons e rows)
  then show ?case
    by (cases cq; cases "add_reservation (oe_identity e) (oe_reservation e) (Ok cq)") (auto simp: add_reservation_def)
qed simp

text \<open>What the loop returns.\<close>

lemma summarize_loop_eq:
  assumes "unat (sum_live_count d) + length (filter is_live rows) < 65536"
    and "unat (sum_unresolved_count d) + length (filter is_live rows) < 65536"
  shows "summarize_loop (d, required) rows =
    Some (\<lparr>sum_unmanaged_ambiguity = (sum_unmanaged_ambiguity d \<or> (\<exists>e\<in>set (filter is_live rows). oe_ownership e = Ambiguous)),
       sum_first_unknown_reservation = option_or (sum_first_unknown_reservation d) (map_option oe_identity (find undetermined (filter is_live rows))),
       sum_reservation_totals = totals_of (filter is_live rows) (sum_reservation_totals d),
       sum_live_count = sum_live_count d + of_nat (length (filter is_live rows)),
       sum_unresolved_count = sum_unresolved_count d + of_nat (length (filter unresolved (filter is_live rows)))\<rparr>,
     required \<or> (\<exists>e\<in>set (filter is_live rows). undetermined e))"
  using assms
proof (induction rows arbitrary: d required)
  case Nil
  then show ?case by (cases "sum_first_unknown_reservation d") (simp_all add: option_or_def)
next
  case (Cons e rows)
  show ?case
  proof (cases "is_live e")
    case False
    then show ?thesis using Cons by simp
  next
    case True
    have add: "checked_add_word n 1 = Some (n + 1) \<and> unat (n + 1) = Suc (unat n)" if "unat n + Suc m < 65536" for n :: u16 and m
      using that by (simp add: checked_add_word_def unat_word_ariths)
    have room: "unat (sum_live_count d) + Suc (length (filter is_live rows)) < 65536"
      "unat (sum_unresolved_count d) + Suc (length (filter is_live rows)) < 65536" using Cons.prems True by simp_all
    note more = add [OF room(1)] add [OF room(2)]
    show ?thesis
      using True room
      by (cases "unresolved e"; cases "undetermined e"; cases "sum_first_unknown_reservation d")
        (simp_all add: summarize_entry_def Cons.IH option_or_def more add.assoc disj_assoc)
  qed
qed

definition summary_of :: "OrderEntry list \<Rightarrow> PmOrderDecisionSummary" where
  "summary_of live =
     \<lparr>sum_unmanaged_ambiguity = (\<exists>e\<in>set live. oe_ownership e = Ambiguous),
      sum_first_unknown_reservation = map_option oe_identity (find undetermined live),
      sum_reservation_totals = totals_of live (Ok (U256_ZERO, U256_ZERO)),
      sum_live_count = of_nat (length live), sum_unresolved_count = of_nat (length (filter unresolved live))\<rparr>"

lemma summarize_eq:
  assumes "length rows < 65536"
  shows "summarize rows = Some (summary_of (filter is_live rows), \<exists>e\<in>set (filter is_live rows). undetermined e)"
  using le_less_trans [OF length_filter_le assms]
  by (simp add: summarize_def summarize_loop_eq empty_summary_def summary_of_def option_or_def)

lemma summary_of_perm:
  assumes m: "mset live = mset live'" and known: "\<forall>e\<in>set live. \<not> undetermined e"
  shows "summary_of live = summary_of live'"
proof -
  have same: "set live = set live'" "length live = length live'" using m by (metis set_mset_mset, metis size_mset)
  have none: "find undetermined live = None" "find undetermined live' = None" using known same by (auto simp: find_None_iff)
  have "\<forall>e\<in>set live. \<not> reservation_unknown e" "\<forall>e\<in>set live'. \<not> reservation_unknown e"
    using known same by (auto simp: undetermined_def)
  moreover have "sum_list (map f live) = sum_list (map f live')" for f :: "OrderEntry \<Rightarrow> nat"
    by (metis m mset_map sum_mset_sum_list)
  moreover have "length (filter unresolved live) = length (filter unresolved live')"
    by (metis m mset_filter size_mset)
  ultimately show ?thesis using same none by (simp add: summary_of_def totals_of_known)
qed

text \<open>The fast path and the canonical path return the summary of the live rows in canonical order.\<close>

lemma decision_summary_eq:
  assumes ok: "orders_ok config s"
  obtains rows where "canonical_entries s = Some rows" "mset rows = mset (os_entries s)"
    "decision_summary s = Some (summary_of (filter is_live rows))"
proof -
  note inv = orders_okD(1) [OF ok]
  define rows where "rows = view (os_entries s) (os_canonical_index s)"
  have rows: "canonical_entries s = Some rows" "mset rows = mset (os_entries s)"
    using canonical_entries_eq [OF inv] by (simp_all add: rows_def)
  have small: "length (os_entries s) < 65536" "length rows < 65536"
    using order_inv_small [OF inv] rows(2) by (simp_all flip: size_mset)
  have live: "mset (filter is_live rows) = mset (filter is_live (os_entries s))" using rows(2) by simp
  have "decision_summary s = Some (summary_of (filter is_live rows))"
  proof (cases "os_live_count s = 0")
    case True
    then have "filter is_live (os_entries s) = []" using inv by (simp add: order_inv_def)
    then have "filter is_live rows = []" using live by (metis mset_zero_iff)
    then show ?thesis using True by (simp add: decision_summary_def summary_of_def empty_summary_def)
  next
    case False
    then show ?thesis
    proof (cases "\<exists>e\<in>set (filter is_live (os_entries s)). undetermined e")
      case True
      then show ?thesis using False rows(1) small by (simp add: decision_summary_def summarize_eq)
    next
      case known: False
      then have "summary_of (filter is_live (os_entries s)) = summary_of (filter is_live rows)"
        by (intro summary_of_perm) (auto simp: rows(2))
      then show ?thesis using False known small by (simp add: decision_summary_def summarize_eq)
    qed
  qed
  then show thesis using rows by (intro that)
qed

end
