(* ===== verification/Pm_Order_Properties.thy ===== *)
theory Pm_Order_Properties
  imports Pm_Order_Snapshot Pm_Order_Summary
begin

text \<open>
  The properties of the private order reducer of \<open>crates/reap-pm-state/src/order_state.rs\<close> and its
  submodules, with a sample run they are instantiated at, and the places where the code deviates
  from what its other paths do.
\<close>

section \<open>Samples\<close>

definition sample_client :: PmClientOrderKey where
  "sample_client = PmClientOrderKey 3 (7 # replicate 15 0)"

definition sample_venue :: PmVenueOrderKey where
  "sample_venue = PmVenueOrderKey 3 (BoundedAscii 1 (97 # replicate 95 0))"

definition sample_registration :: PmOwnedOrderRegistration where
  "sample_registration = \<lparr>reg_client_order = sample_client, reg_instrument = sample_instrument, reg_side = Buy,
     reg_price = PmPrice 500000, reg_quantity = PmQuantity (U256 10000000 0 0 0),
     reg_reservation = \<lparr>res_collateral = U256 5100000 0 0 0, res_outcome = U256_ZERO, res_basis = PolicyApprovedWorstCase\<rparr>\<rparr>"

definition sample_event :: "PmOrderStatus \<Rightarrow> U256 \<Rightarrow> PmOrderEvent" where
  "sample_event st filled = \<lparr>order_source = PolymarketAccount 9 3, order_instrument = sample_instrument,
     order_identity = \<lparr>client_order_key = Some sample_client, venue_order_key = Some sample_venue\<rparr>,
     order_side = Buy, order_price = PmPrice 500000,
     order_progress = \<lparr>original_quantity = PmQuantity (U256 10000000 0 0 0), cumulative_filled = filled, status = st\<rparr>\<rparr>"

definition sample_envelope :: "IngressSequence \<Rightarrow> SnapshotRevision option \<Rightarrow> 'p \<Rightarrow> 'p EventEnvelope" where
  "sample_envelope sequence revision payload = \<lparr>env_venue = Polymarket, env_source = PolymarketAccount 9 3,
     env_connection_id = BoundedAscii 1 (99 # replicate 95 0),
     env_clock = \<lparr>venue_event_timestamp_ns = None, local_wall_receive_ns = 1, monotonic_receive_ns = 1, monotonic_service_ns = 2\<rparr>,
     env_ordering = \<lparr>connection_epoch = 1, snapshot_revision = revision, venue_sequence = None, venue_hash = None,
       local_ingress_sequence = sequence\<rparr>, env_payload = payload\<rparr>"

definition sample_detail :: PmExactOrderDetail where
  "sample_detail = \<lparr>detail_source = PolymarketAccount 9 3, detail_account_scope = sample_scope, detail_snapshot = 4,
     detail_boundary = \<lparr>request_sequence = 1, completion_sequence = 2\<rparr>, detail_requested_order = sample_venue, detail_order = None\<rparr>"

lemma sample_config_simps [simp]:
  "cfg_account sample_config = 3" "cfg_source sample_config = PolymarketAccount 9 3" "cfg_instrument sample_config = sample_instrument"
  "cfg_account_scope sample_config = sample_scope" "cfg_metadata sample_config = sample_metadata"
  by (simp_all add: sample_config_def cfg_account_def sample_scope_def Let_def)

lemma sample_registration_simps [simp]:
  "validate_registration sample_registration sample_config = Ok ()" "client_identity (reg_client_order sample_registration) = Some \<lparr>client_order_key = Some sample_client, venue_order_key = None\<rparr>"
  by (simp_all add: validate_registration_def sample_registration_def sample_client_def client_identity_def PmOrderIdentity_new_def)

definition single :: "OrderEntry \<Rightarrow> u16 \<Rightarrow> u64 option \<Rightarrow> PmOrderCounters \<Rightarrow> PmOrderState" where
  "single e live observed counters = \<lparr>os_entries = [e], os_canonical_index = [0], os_client_index = [0], os_live_count = live,
     os_latest_snapshot_revision = None, os_latest_snapshot_completion = None, os_observed_monotonic_ns = observed, os_counters = counters\<rparr>"

lemma single_simps [simp]:
  "os_entries (single e n t c) = [e]" "os_canonical_index (single e n t c) = [0]" "os_client_index (single e n t c) = [0]"
  "os_latest_snapshot_revision (single e n t c) = None" "os_latest_snapshot_completion (single e n t c) = None"
  "os_live_count (single e n t c) = n" "os_counters (single e n t c) = c"
  "order_bump f (single e n t c) = single e n t (f c)" "(single e n t c)\<lparr>os_observed_monotonic_ns := t'\<rparr> = single e n t' c"
  "single e n t c = single e' n' t' c' \<longleftrightarrow> e = e' \<and> n = n' \<and> t = t' \<and> c = c'"
  "(single e n t c)\<lparr>os_entries := [e'], os_live_count := n'\<rparr> = single e' n' t c"
  "(single e n t c)\<lparr>os_live_count := n', os_entries := [e']\<rparr> = single e' n' t c"
  by (simp_all add: single_def order_bump_def)

lemma bsearch_try_one: "bsearch_try f xs (Suc 0) base = Some base"
  by (simp add: bsearch_try.simps)

lemmas order_eval = bsearch_try_one
  PmOrderIdentity_new_def find_order_def client_search_def find_venue_def MAX_PM_PRIVATE_ORDERS_def MAX_PM_RECONCILIATION_ORDERS_def
  insert_order_def insert_ordered_def canonical_insertion_position_def client_insertion_position_def binary_search_try_def index_search_def
  insert_at_index_positions_def slot_of_def is_live_def checked_add_word_def checked_sub_word_def insert_slot_def entry_client_def
  vec_insert_def overlaps_def slot_entry_def nth_entry_def replace_ordered_def remove_slot_def live_transition_def owned_client_position_def
  replacement_client_position_def move_client_slot_def compare_entries_def ordering_then_def identities_overlap_def ensure_identity_merge_def merge_identity_def
  entry_venue_def vec_remove_def unregistered_def later_than_def

lemma replace_single:
  assumes "entry_client e = Some k" "entry_client r = Some k"
  shows "replace_ordered (single e n t c) 0 r = map_option (\<lambda>n'. (single r n' t c, Ok ())) (live_transition (is_live e) (is_live r) n)"
  using assms
  by (cases "compare_entries e r"; cases "live_transition (is_live e) (is_live r) n")
    (simp_all add: replace_ordered_def nth_entry_def canonical_insertion_position_def binary_search_try_def bsearch_try_one slot_entry_def
      owned_client_position_def client_search_def index_search_def replacement_client_position_def single_def)

lemma find_single:
  "find_order (single e n t c) i = Some (if identities_overlap (oe_identity e) i then Some 0 else None)"
  "overlaps (single e n t c) i = Some (Ok (if identities_overlap (oe_identity e) i then One 0 else NoOverlap))"
  if "entry_client e = Some k"
  using that
  by (auto simp: find_order_def client_search_def find_venue_def index_search_def binary_search_try_def bsearch_try_one slot_entry_def
      nth_entry_def identities_overlap_iff overlaps_def entry_client_def entry_venue_def compare_of_def split: option.splits)

definition sample_owned :: "PmVenueOrderKey option \<Rightarrow> OrderEntry" where
  "sample_owned venue = (owned_entry sample_registration \<lparr>client_order_key = Some sample_client, venue_order_key = venue\<rparr>)"

lemma sample_registered: "\<exists>c. register_owned PmOrderState_new sample_registration sample_config = Some (single (sample_owned None) 1 None c, Ok ())"
  by (simp add: register_owned_def order_eval PmOrderState_new_def single_def sample_owned_def owned_entry_def order_bump_def)

lemmas single_eval = find_single [where k = sample_client] replace_single [where k = sample_client] nth_entry_def unregistered_def
  identities_overlap_def ensure_identity_merge_def merge_identity_def PmOrderIdentity_new_def live_transition_def later_than_def
  sample_owned_def owned_entry_def entry_client_def is_live_def

lemma sample_keys [simp]: "client_account sample_client = 3" "venue_account sample_venue = 3"
  by (simp_all add: sample_client_def sample_venue_def)

lemma sample_bound: "bind_owned_venue (single (sample_owned None) 1 None c) sample_client sample_venue sample_config
    = Some (single (sample_owned (Some sample_venue)) 1 None c, Ok ())"
  by (simp add: bind_owned_venue_def single_eval)

lemma sample_detail_absent:
  "\<exists>c'. apply_detail (single (sample_owned (Some sample_venue)) 1 None c) (sample_envelope 2 (Some 4) sample_detail) PmReservationKnowledge.Unknown sample_config
    = Some (single (detail_terminalized (sample_owned (Some sample_venue)) (PmPrivateOccurrence 1 2)) 0 (Some 2) c', Ok DetailAbsenceTerminalized)"
  by (simp add: apply_detail_def single_eval is_live_def validate_detail_def sample_envelope_def sample_detail_def Let_def checked_sub_word_def)

lemma sample_event_simps [simp]:
  "order_identity (sample_event st q) = \<lparr>client_order_key = Some sample_client, venue_order_key = Some sample_venue\<rparr>"
  "order_side (sample_event st q) = Buy" "order_price (sample_event st q) = PmPrice 500000"
  "original_quantity (order_progress (sample_event st q)) = PmQuantity (U256 10000000 0 0 0)"
  "order_status (sample_event st q) = st"
  by (simp_all add: sample_event_def order_status_def)

lemma sample_event_ok: "event_ok (sample_event Open U256_ZERO)"
  by (simp add: event_ok_def sample_event_def PmOrderIdentity_new_def progress_ok_def u256_le_iff)

lemma sample_event_valid: "validate_event (sample_event Open U256_ZERO) (PolymarketAccount 9 3) sample_config = Ok ()"
  by (simp add: validate_event_def sample_event_def PmOrderEvent_account_def PmOrderIdentity_account_def PmPrice_validate_tick_def
    PmQuantity_validate_order_def sample_metadata_def U256_checked_div_rem_u32_eq CLOB_V2_LOT_UNITS_def Let_def u256_less_iff)

lemma sample_revived:
  "\<exists>c' r. observe_order (single (detail_terminalized (sample_owned (Some sample_venue)) (PmPrivateOccurrence 1 2)) 0 (Some 2) c)
     (sample_envelope 3 None (sample_event Open U256_ZERO)) (PmRemoteOrderKnowledge.Unmanaged PmReservationKnowledge.Unknown) sample_config
    = Some (single (updated_entry (detail_terminalized (sample_owned (Some sample_venue)) (PmPrivateOccurrence 1 2))
       \<lparr>client_order_key = Some sample_client, venue_order_key = Some sample_venue\<rparr> (sample_event Open U256_ZERO) (PmPrivateOccurrence 1 3)
       (PmRemoteOrderKnowledge.Unmanaged PmReservationKnowledge.Unknown) PmReservationKnowledge.Unknown) 1 (Some 2) c', Ok r)"
  by (simp add: observe_order_def sample_event_valid sample_envelope_def validate_remote_knowledge_def validate_reservation_def Let_def single_eval
     detail_terminalized_def update_existing_def envelope_occurrence_def less_PmPrivateOccurrence_def terms_differ_def sample_registration_def
     updated_entry_def terminal_event_def PmOrderStatus_is_terminal_def checked_add_word_def)

section \<open>A sample run\<close>

text \<open>
  An owned order is registered and bound to its venue key, exact detail reports it absent, and
  then it is observed open again.
\<close>

definition sample_operations :: "PmOrderOperation list" where
  "sample_operations =
     [RegisterOwned sample_registration, BindOwnedVenue sample_client sample_venue,
      ApplyDetail (sample_envelope 2 (Some 4) sample_detail) PmReservationKnowledge.Unknown,
      ObserveOrder (sample_envelope 3 None (sample_event Open U256_ZERO)) (PmRemoteOrderKnowledge.Unmanaged PmReservationKnowledge.Unknown)]"

definition sample_row :: OrderEntry where
  "sample_row = updated_entry (detail_terminalized (sample_owned (Some sample_venue)) (PmPrivateOccurrence 1 2))
     \<lparr>client_order_key = Some sample_client, venue_order_key = Some sample_venue\<rparr> (sample_event Open U256_ZERO) (PmPrivateOccurrence 1 3)
     (PmRemoteOrderKnowledge.Unmanaged PmReservationKnowledge.Unknown) PmReservationKnowledge.Unknown"

lemma sample_operations_ok: "list_all operation_ok sample_operations"
  by (simp add: sample_operations_def sample_envelope_def sample_event_ok detail_ok_def sample_detail_def PmReconciliationRequestBoundary_new_def word_le_nat_alt)

lemma sample_operations_run:
  obtains c where "run_steps (order_step sample_config) PmOrderState_new sample_operations = Some (single sample_row 1 (Some 2) c)"
proof -
  obtain c1 where 1: "register_owned PmOrderState_new sample_registration sample_config = Some (single (sample_owned None) 1 None c1, Ok ())"
    using sample_registered by blast
  obtain c2 where 2: "apply_detail (single (sample_owned (Some sample_venue)) 1 None c1) (sample_envelope 2 (Some 4) sample_detail)
      PmReservationKnowledge.Unknown sample_config
    = Some (single (detail_terminalized (sample_owned (Some sample_venue)) (PmPrivateOccurrence 1 2)) 0 (Some 2) c2, Ok DetailAbsenceTerminalized)"
    using sample_detail_absent by blast
  obtain c3 r where 3: "observe_order (single (detail_terminalized (sample_owned (Some sample_venue)) (PmPrivateOccurrence 1 2)) 0 (Some 2) c2)
     (sample_envelope 3 None (sample_event Open U256_ZERO)) (PmRemoteOrderKnowledge.Unmanaged PmReservationKnowledge.Unknown) sample_config
    = Some (single sample_row 1 (Some 2) c3, Ok r)"
    using sample_revived unfolding sample_row_def by blast
  show thesis
    using 1 2 3 by (intro that [of c3]) (simp add: sample_operations_def sample_bound)
qed

lemma sample_row_simps:
  "oe_ownership sample_row = ProvenOwned" "oe_event sample_row = Some (sample_event Open U256_ZERO)" "oe_reservation sample_row = None" "is_live sample_row"
  by (simp_all add: sample_row_def updated_entry_def detail_terminalized_def sample_owned_def owned_entry_def Let_def is_live_def
      terminal_event_def PmOrderStatus_is_terminal_def)

section \<open>Properties\<close>

text \<open>
  C6: no sequence of registrations, admissions, bindings, compactions, observations, complete
  snapshots, exact details and freshness resets, with inputs the constructors return, makes the
  private order reducer panic.  The table it leaves has at most 1,024 rows, no two rows share a
  client or a venue order key, the live count is exact, the canonical listing is the rows sorted
  by venue and client key, and the client index finds exactly the rows with that client key.
\<close>

theorem order_reducer_sound:
  assumes "list_all operation_ok operations"
  shows "\<exists>s rows. run_steps (order_step config) PmOrderState_new operations = Some s
    \<and> length (os_entries s) \<le> 1024
    \<and> (\<forall>i j. i < length (os_entries s) \<and> j < length (os_entries s) \<and> i \<noteq> j
          \<longrightarrow> \<not> identities_overlap (oe_identity (os_entries s ! i)) (oe_identity (os_entries s ! j)))
    \<and> unat (os_live_count s) = length (filter is_live (os_entries s))
    \<and> canonical_entries s = Some rows \<and> mset rows = mset (os_entries s)
    \<and> sorted_wrt (\<lambda>a b. (entry_venue a, entry_client a) < (entry_venue b, entry_client b)) rows
    \<and> (\<forall>client. (\<exists>p i. client_search s client = Some (Ok (p, i)) \<and> i < length (os_entries s) \<and> entry_client (os_entries s ! i) = Some client)
          \<longleftrightarrow> (\<exists>e. e \<in> set (os_entries s) \<and> entry_client e = Some client))"
proof -
  obtain s where s: "run_steps (order_step config) PmOrderState_new operations = Some s" "orders_ok config s"
    using orders.run_total [OF orders_ok_new assms [unfolded list_all_iff]] by blast
  note inv = orders_okD(1) [OF s(2)]
  let ?rows = "view (os_entries s) (os_canonical_index s)"
  have "length (os_entries s) \<le> 1024"
    using inv by (simp add: order_inv_def MAX_PM_PRIVATE_ORDERS_def MAX_PM_RECONCILIATION_ORDERS_def)
  moreover have "sorted_wrt (\<lambda>a b. (entry_venue a, entry_client a) < (entry_venue b, entry_client b)) ?rows"
    using order_inv_canonical [OF inv] by (simp add: index_ok_def sorted_by_key_def entry_rank_def)
  moreover have "(\<exists>p i. client_search s client = Some (Ok (p, i)) \<and> i < length (os_entries s) \<and> entry_client (os_entries s ! i) = Some client)
      \<longleftrightarrow> (\<exists>e. e \<in> set (os_entries s) \<and> entry_client e = Some client)" for client
    using client_search_slot [OF inv] by (metis in_set_conv_nth)
  ultimately show ?thesis
    using s(1) rows_apart [OF inv] canonical_entries_eq [OF inv] inv
    by (intro exI [of _ s] exI [of _ ?rows]) (simp add: order_inv_def)
qed

theorem order_reducer_sound_witness:
  "\<exists>s rows. run_steps (order_step sample_config) PmOrderState_new sample_operations = Some s
    \<and> canonical_entries s = Some rows \<and> mset rows = mset (os_entries s)
    \<and> unat (os_live_count s) = length (filter is_live (os_entries s))"
  using order_reducer_sound [OF sample_operations_ok, of sample_config] by blast

text \<open>
  C4: an order's row is never lost and its history never goes back.  Over any sequence of
  operations other than compaction, every row of a reachable table is continued by a row with the
  same keys, instrument and registered terms, that is still proven owned if it was, whose event
  follows the earlier one (same source, side, price and size, no smaller fill, and unchanged once
  terminal), and whose last occurrence is not earlier.
\<close>

theorem order_rows_continue:
  assumes "order_reachable config s" and "list_all (\<lambda>operation. operation_ok operation \<and> retains_rows operation) operations"
    and "run_steps (order_step config) s operations = Some s'" and "e \<in> set (os_entries s)"
  shows "\<exists>e'. e' \<in> set (os_entries s') \<and> oe_instrument e' = oe_instrument e
    \<and> (entry_client e \<noteq> None \<longrightarrow> entry_client e' = entry_client e) \<and> (entry_venue e \<noteq> None \<longrightarrow> entry_venue e' = entry_venue e)
    \<and> (oe_ownership e = ProvenOwned \<longrightarrow> oe_ownership e' = ProvenOwned)
    \<and> (oe_registered_terms e \<noteq> None \<longrightarrow> oe_registered_terms e' = oe_registered_terms e)
    \<and> (\<forall>event. oe_event e = Some event \<longrightarrow> (\<exists>event'. oe_event e' = Some event' \<and> validate_order_lifecycle event event' = Ok ()))
    \<and> oe_last_occurrence e \<le> oe_last_occurrence e'"
proof -
  have "rows_continue (os_entries s) (os_entries s')"
    using orders.run_continues [OF reachable_orders_ok [OF assms(1)] _ _ assms(3)] assms(2) by (auto simp: list_all_iff)
  then obtain e' where "e' \<in> set (os_entries s')" "row_le e e'" using assms(4) by (auto simp: rows_continue_def)
  then show ?thesis by (auto simp: row_le_def lifecycle_le_def intro!: exI [of _ e'])
qed

lemma sample_reachable:
  assumes "run_steps (order_step config) s operations = Some s'" "order_reachable config s" "list_all operation_ok operations"
  shows "order_reachable config s'"
  using assms
proof (induction operations arbitrary: s)
  case (Cons operation operations)
  then obtain t where "order_step config s operation = Some t" "run_steps (order_step config) t operations = Some s'"
    by (auto simp: expect_Some)
  then show ?case using Cons order_reachable.step by fastforce
qed simp

theorem order_rows_continue_witness:
  "\<exists>s s' e'. run_steps (order_step sample_config) PmOrderState_new (take 1 sample_operations) = Some s
    \<and> run_steps (order_step sample_config) s (drop 1 sample_operations) = Some s'
    \<and> e' \<in> set (os_entries s') \<and> entry_client e' = Some sample_client \<and> oe_ownership e' = ProvenOwned"
proof -
  obtain c1 where 1: "register_owned PmOrderState_new sample_registration sample_config = Some (single (sample_owned None) 1 None c1, Ok ())"
    using sample_registered by blast
  obtain c where r: "run_steps (order_step sample_config) PmOrderState_new sample_operations = Some (single sample_row 1 (Some 2) c)"
    by (rule sample_operations_run)
  let ?s = "single (sample_owned None) 1 None c1"
  have first: "run_steps (order_step sample_config) PmOrderState_new (take 1 sample_operations) = Some ?s"
    using 1 by (simp add: sample_operations_def)
  then have rest: "run_steps (order_step sample_config) ?s (drop 1 sample_operations) = Some (single sample_row 1 (Some 2) c)"
    using r run_steps_append [of "order_step sample_config" PmOrderState_new "take 1 sample_operations" "drop 1 sample_operations"] by simp
  have "list_all operation_ok (take 1 sample_operations)" "list_all (\<lambda>operation. operation_ok operation \<and> retains_rows operation) (drop 1 sample_operations)"
    using sample_operations_ok by (simp_all add: sample_operations_def)
  then show ?thesis
    using order_rows_continue [OF sample_reachable [OF first order_reachable.new] _ rest, of "sample_owned None"] first rest
    by (fastforce simp: sample_owned_def owned_entry_def entry_client_def)
qed

text \<open>
  A complete snapshot with one open order, and one in which that order has another price.
\<close>

definition sample_open_orders :: "PmOrderEvent list \<Rightarrow> PmCompleteOpenOrdersSnapshot" where
  "sample_open_orders orders = \<lparr>open_source = PolymarketAccount 9 3, open_account_scope = sample_scope, open_snapshot = 4,
     open_boundary = \<lparr>request_sequence = 1, completion_sequence = 2\<rparr>, open_orders = orders\<rparr>"

definition repriced_event :: PmOrderEvent where
  "repriced_event = (sample_event Open U256_ZERO)\<lparr>order_price := PmPrice 510000\<rparr>"

lemma repriced_event_simps [simp]:
  "order_identity repriced_event = \<lparr>client_order_key = Some sample_client, venue_order_key = Some sample_venue\<rparr>"
  "order_price repriced_event = PmPrice 510000" "order_side repriced_event = Buy" "\<not> terminal_event repriced_event"
  "order_source repriced_event = PolymarketAccount 9 3"
  by (simp_all add: repriced_event_def terminal_event_def sample_event_def order_status_def PmOrderStatus_is_terminal_def)

lemma repriced_event_ok: "event_ok repriced_event"
  using sample_event_ok by (simp add: event_ok_def repriced_event_def)

lemma repriced_event_valid: "validate_event repriced_event (PolymarketAccount 9 3) sample_config = Ok ()"
  using sample_event_valid
  by (simp add: validate_event_def repriced_event_def PmOrderEvent_account_def PmPrice_validate_tick_def sample_metadata_def Let_def sample_event_def
      split: if_splits)

lemma sample_open_orders_ok:
  assumes "event_ok event" "order_source event = PolymarketAccount 9 3" "PmOrderEvent_account event = 3" "venue_order_key (order_identity event) \<noteq> None"
  shows "snapshot_ok (sample_open_orders [event])"
  using assms
  by (auto simp: snapshot_ok_def sample_open_orders_def open_orders_snapshot_Ok sample_scope_def map_filter_def split: option.splits)

lemma repriced_snapshot_refused:
  "apply_open_snapshot (single (sample_owned (Some sample_venue)) 1 None c) (sample_envelope 2 (Some 4) (sample_open_orders [repriced_event])) [] sample_config
   = Some (single (sample_owned (Some sample_venue)) 1 None c, Err ObservationConflict)"
  by (simp add: apply_open_snapshot_def validate_open_snapshot_def sample_envelope_def sample_open_orders_def Let_def repriced_event_valid
      validate_reservation_def companion_knowledge_def snapshot_stale_or_duplicate_def preflight_fresh_open_snapshot_def preflight_snapshot_capacity_def
      single_eval MAX_PM_PRIVATE_ORDERS_def MAX_PM_RECONCILIATION_ORDERS_def preflight_existing_update_def terms_differ_def sample_registration_def)


lemma sample_snapshot_applied:
  "\<exists>s. apply_open_snapshot (single (sample_owned (Some sample_venue)) 1 None c) (sample_envelope 2 (Some 4) (sample_open_orders [sample_event Open U256_ZERO])) [] sample_config
   = Some (s, Ok (Applied 0 1 0))"
  by (simp add: apply_open_snapshot_def validate_open_snapshot_def sample_envelope_def sample_open_orders_def Let_def sample_event_valid terminal_event_def PmOrderStatus_is_terminal_def
      validate_reservation_def companion_knowledge_def snapshot_stale_or_duplicate_def preflight_fresh_open_snapshot_def preflight_snapshot_capacity_def
      single_eval MAX_PM_PRIVATE_ORDERS_def MAX_PM_RECONCILIATION_ORDERS_def preflight_existing_update_def terms_differ_def sample_registration_def
      apply_fresh_open_snapshot_def reduce_snapshot_row_def update_existing_def updated_entry_def mark_missing_def missing_from_def saturating_add_def)

lemma sample_bound_reachable:
  obtains c where "order_reachable sample_config (single (sample_owned (Some sample_venue)) 1 None c)"
proof -
  obtain c where c: "register_owned PmOrderState_new sample_registration sample_config = Some (single (sample_owned None) 1 None c, Ok ())"
    using sample_registered by blast
  have "run_steps (order_step sample_config) PmOrderState_new [RegisterOwned sample_registration, BindOwnedVenue sample_client sample_venue]
      = Some (single (sample_owned (Some sample_venue)) 1 None c)"
    using c by (simp add: sample_bound)
  from sample_reachable [OF this order_reachable.new] show thesis by (intro that [of c]) simp
qed

text \<open>
  C2: a complete open-order snapshot is applied entirely or not at all.  If
  \<open>apply_open_snapshot\<close> returns an error, whatever the error and whichever row caused it, nothing
  of the reducer has changed but its counters.
\<close>

theorem open_snapshot_atomic:
  assumes "order_reachable config s" "snapshot_ok (env_payload envelope)"
    and "apply_open_snapshot s envelope reservations config = Some (s', Err e)"
  shows "s' = s\<lparr>os_counters := os_counters s'\<rparr>"
  by (rule apply_open_snapshot_error [OF reachable_orders_ok [OF assms(1)] assms(2,3)])

theorem open_snapshot_atomic_witness:
  "\<exists>s s'. order_reachable sample_config s \<and> os_entries s \<noteq> []
     \<and> apply_open_snapshot s (sample_envelope 2 (Some 4) (sample_open_orders [repriced_event])) [] sample_config = Some (s', Err ObservationConflict)
     \<and> s' = s\<lparr>os_counters := os_counters s'\<rparr>"
proof -
  obtain c where c: "order_reachable sample_config (single (sample_owned (Some sample_venue)) 1 None c)" by (rule sample_bound_reachable)
  have "snapshot_ok (env_payload (sample_envelope 2 (Some 4) (sample_open_orders [repriced_event])))"
    using sample_open_orders_ok [OF repriced_event_ok] by (simp add: sample_envelope_def PmOrderEvent_account_def PmOrderIdentity_account_def)
  from open_snapshot_atomic [OF c this repriced_snapshot_refused] show ?thesis
    using c repriced_snapshot_refused by (intro exI [of _ "single (sample_owned (Some sample_venue)) 1 None c"]) simp
qed

text \<open>
  C11: after a complete open-order snapshot was applied, every order it lists has a row that shares
  a key with it and whose last occurrence is the request or later; every live row that is not
  later than the request and shares no key with a listed order is marked as missing and kept; and
  the revision and completion of the snapshot are the latest.
\<close>

theorem open_snapshot_applied:
  assumes "order_reachable config s" "snapshot_ok (env_payload envelope)"
    and "apply_open_snapshot s envelope reservations config = Some (s', Ok (Applied inserted updated retained))"
  shows "list_all (\<lambda>event. \<exists>e. e \<in> set (os_entries s') \<and> identities_overlap (oe_identity e) (order_identity event)
      \<and> Some (snapshot_request envelope) \<le> oe_last_occurrence e) (open_orders (env_payload envelope))
    \<and> list_all (\<lambda>e. is_live e \<longrightarrow> \<not> later_than (snapshot_request envelope) e
      \<longrightarrow> list_all (\<lambda>event. \<not> identities_overlap (oe_identity e) (order_identity event)) (open_orders (env_payload envelope))
      \<longrightarrow> oe_missing_from_complete_open_snapshot e) (os_entries s')
    \<and> (\<forall>e. e \<in> set (os_entries s) \<longrightarrow> (\<exists>e'. e' \<in> set (os_entries s') \<and> row_le e e'))
    \<and> os_latest_snapshot_revision s' = Some (open_snapshot (env_payload envelope))
    \<and> os_latest_snapshot_completion s' = Some (snapshot_completion envelope)"
proof -
  note ok = reachable_orders_ok [OF assms(1)]
  have ev: "\<forall>event\<in>set (open_orders (env_payload envelope)). event_ok event" using assms(2) by (simp add: snapshot_ok_def)
  have "rows_continue (os_entries s) (os_entries s')"
    using apply_open_snapshot_keeps [OF ok ev] assms(3) by (metis keeps_Some)
  then show ?thesis
    using apply_open_snapshot_applied [OF ok ev assms(3)]
    by (auto simp: list_all_iff list_ex_iff tracked_def missing_from_def rows_continue_def)
qed

theorem open_snapshot_applied_witness:
  "\<exists>s s'. order_reachable sample_config s
     \<and> apply_open_snapshot s (sample_envelope 2 (Some 4) (sample_open_orders [sample_event Open U256_ZERO])) [] sample_config = Some (s', Ok (Applied 0 1 0))
     \<and> os_latest_snapshot_revision s' = Some 4"
proof -
  obtain c where c: "order_reachable sample_config (single (sample_owned (Some sample_venue)) 1 None c)" by (rule sample_bound_reachable)
  have ok: "snapshot_ok (env_payload (sample_envelope 2 (Some 4) (sample_open_orders [sample_event Open U256_ZERO])))"
    using sample_open_orders_ok [OF sample_event_ok] by (simp add: sample_envelope_def PmOrderEvent_account_def PmOrderIdentity_account_def sample_event_def)
  obtain s' where s': "apply_open_snapshot (single (sample_owned (Some sample_venue)) 1 None c)
      (sample_envelope 2 (Some 4) (sample_open_orders [sample_event Open U256_ZERO])) [] sample_config = Some (s', Ok (Applied 0 1 0))"
    using sample_snapshot_applied by blast
  from open_snapshot_applied [OF c ok s'] have "os_latest_snapshot_revision s' = Some 4"
    by (simp add: sample_envelope_def sample_open_orders_def)
  then show ?thesis using c s' by blast
qed

lemma totals_of_sums:
  "is_ok (totals_of rows (Ok (U256_ZERO, U256_ZERO))) \<longleftrightarrow> (\<forall>e\<in>set rows. \<not> reservation_unknown e)
     \<and> sum_list (map (reserved res_collateral) rows) < 2 ^ 256 \<and> sum_list (map (reserved res_outcome) rows) < 2 ^ 256"
  "totals_of rows (Ok (U256_ZERO, U256_ZERO)) = Ok (c, q) \<Longrightarrow>
     u256_nat c = sum_list (map (reserved res_collateral) rows) \<and> u256_nat q = sum_list (map (reserved res_outcome) rows)"
proof -
  have known: "\<forall>e\<in>set rows. \<not> reservation_unknown e" if "totals_of rows (Ok (U256_ZERO, U256_ZERO)) = Ok t" for t
    using totals_of_Ok_known [OF that] .
  show "is_ok (totals_of rows (Ok (U256_ZERO, U256_ZERO))) \<longleftrightarrow> (\<forall>e\<in>set rows. \<not> reservation_unknown e)
     \<and> sum_list (map (reserved res_collateral) rows) < 2 ^ 256 \<and> sum_list (map (reserved res_outcome) rows) < 2 ^ 256"
    using known by (cases "totals_of rows (Ok (U256_ZERO, U256_ZERO))") (auto simp: totals_of_known is_ok_def split: if_splits)
  show "totals_of rows (Ok (U256_ZERO, U256_ZERO)) = Ok (c, q) \<Longrightarrow>
     u256_nat c = sum_list (map (reserved res_collateral) rows) \<and> u256_nat q = sum_list (map (reserved res_outcome) rows)"
    using known by (auto simp: totals_of_known u256_nat_of_nat split: if_splits)
qed

text \<open>
  C9: the decision summary is exact.  For every reachable state the single scan over the dense
  rows, with its fallback to a second scan in canonical order, returns the number of live rows,
  the number of unresolved live rows, whether a live row has ambiguous ownership, and the first
  live row in canonical order whose ownership or reservation is undetermined.  The totals are Ok
  exactly when every live reservation is known and both sums fit 256 bits, and then they are the
  sums of the live reservations.
\<close>

theorem decision_summary_exact:
  assumes "order_reachable config s"
  shows "\<exists>rows d. canonical_entries s = Some rows \<and> decision_summary s = Some d
    \<and> unat (sum_live_count d) = length (filter is_live (os_entries s))
    \<and> unat (sum_unresolved_count d) = length (filter (\<lambda>e. is_live e \<and> unresolved e) (os_entries s))
    \<and> sum_unmanaged_ambiguity d = list_ex (\<lambda>e. is_live e \<and> oe_ownership e = Ambiguous) (os_entries s)
    \<and> sum_first_unknown_reservation d = map_option oe_identity (find undetermined (filter is_live rows))
    \<and> (is_ok (sum_reservation_totals d) \<longleftrightarrow>
        list_all (\<lambda>e. is_live e \<longrightarrow> oe_reservation e \<noteq> Some PmReservationKnowledge.Unknown) (os_entries s)
        \<and> sum_list (map (reserved res_collateral) (filter is_live (os_entries s))) < 2 ^ 256
        \<and> sum_list (map (reserved res_outcome) (filter is_live (os_entries s))) < 2 ^ 256)
    \<and> (\<forall>collateral outcome. sum_reservation_totals d = Ok (collateral, outcome) \<longrightarrow>
        u256_nat collateral = sum_list (map (reserved res_collateral) (filter is_live (os_entries s)))
        \<and> u256_nat outcome = sum_list (map (reserved res_outcome) (filter is_live (os_entries s))))"
proof -
  note ok = reachable_orders_ok [OF assms]
  obtain rows where rows: "canonical_entries s = Some rows" "mset rows = mset (os_entries s)"
    "decision_summary s = Some (summary_of (filter is_live rows))"
    by (rule decision_summary_eq [OF ok])
  let ?L = "filter is_live rows" and ?E = "filter is_live (os_entries s)"
  have m: "mset ?L = mset ?E" "set rows = set (os_entries s)" using rows(2) by (simp, metis set_mset_mset)
  have len: "length ?L = length ?E" "length (filter unresolved ?L) = length (filter unresolved ?E)"
    using m(1) by (metis size_mset, metis mset_filter size_mset)
  have sums: "sum_list (map f ?L) = sum_list (map f ?E)" for f :: "OrderEntry \<Rightarrow> nat"
    by (metis m(1) mset_map sum_mset_sum_list)
  have small: "length ?E < 65536" "length (filter unresolved ?E) < 65536"
    using order_inv_small [OF orders_okD(1) [OF ok]] le_less_trans [OF length_filter_le] by blast+
  have counts: "unat (sum_live_count (summary_of ?L)) = length ?E" "unat (sum_unresolved_count (summary_of ?L)) = length (filter unresolved ?E)"
    using small len by (simp_all add: summary_of_def unat_of_nat take_bit_eq_mod del: filter_filter)
  have totals: "is_ok (sum_reservation_totals (summary_of ?L)) \<longleftrightarrow> list_all (\<lambda>e. is_live e \<longrightarrow> \<not> reservation_unknown e) (os_entries s)
      \<and> sum_list (map (reserved res_collateral) ?E) < 2 ^ 256 \<and> sum_list (map (reserved res_outcome) ?E) < 2 ^ 256"
    "sum_reservation_totals (summary_of ?L) = Ok (c, q) \<Longrightarrow>
       u256_nat c = sum_list (map (reserved res_collateral) ?E) \<and> u256_nat q = sum_list (map (reserved res_outcome) ?E)" for c q
    using totals_of_sums [of ?L] m(2) by (simp_all add: summary_of_def sums list_all_iff Ball_def imp_conjL)
  show ?thesis
    using rows(1,3) counts totals m(2)
    by (intro exI [of _ rows] exI [of _ "summary_of ?L"]) (auto simp: summary_of_def list_ex_iff conj_commute)
qed

theorem decision_summary_exact_witness:
  "\<exists>s d. run_steps (order_step sample_config) PmOrderState_new sample_operations = Some s \<and> decision_summary s = Some d
    \<and> unat (sum_live_count d) = length (filter is_live (os_entries s))"
proof -
  obtain c where c: "run_steps (order_step sample_config) PmOrderState_new sample_operations = Some (single sample_row 1 (Some 2) c)"
    by (rule sample_operations_run)
  show ?thesis
    using c decision_summary_exact [OF sample_reachable [OF c order_reachable.new sample_operations_ok]] by blast
qed

text \<open>
  C13: two-phase admission does what direct registration does.  On every reachable state either
  \<open>prepare_owned_registration\<close> returns a plan, committing it does not panic, and the state is the
  one \<open>register_owned\<close> reaches; or both refuse with the same error and the rows are unchanged; or
  the preparation refuses a repeated client order with the same reservation and other terms, which
  \<open>register_owned\<close> accepts as a repetition without changing the state.
\<close>

theorem owned_admission_agrees:
  assumes "order_reachable config s"
  shows "(\<exists>plan s'. prepare_owned_registration s registration config = Some (Ok plan)
        \<and> commit_preflighted_owned_registration s plan = Some s' \<and> register_owned s registration config = Some (s', Ok ()))
    \<or> (\<exists>e s'. prepare_owned_registration s registration config = Some (Err e)
        \<and> register_owned s registration config = Some (s', Err e) \<and> os_entries s' = os_entries s)
    \<or> (\<exists>row. prepare_owned_registration s registration config = Some (Err IdentityConflict)
        \<and> register_owned s registration config = Some (s, Ok ())
        \<and> row \<in> set (os_entries s) \<and> entry_client row = Some (reg_client_order registration)
        \<and> oe_reservation row = Some (Known (reg_reservation registration))
        \<and> oe_registered_terms row \<noteq> Some (reg_side registration, reg_price registration, reg_quantity registration))"
  using reachable_orders_ok [OF assms]
  by (cases rule: admission_cases [where registration = registration]) (blast, blast, metis nth_mem)

theorem owned_admission_agrees_witness:
  "\<exists>plan s'. prepare_owned_registration PmOrderState_new sample_registration sample_config = Some (Ok plan)
     \<and> commit_preflighted_owned_registration PmOrderState_new plan = Some s'
     \<and> register_owned PmOrderState_new sample_registration sample_config = Some (s', Ok ())"
  using owned_admission_agrees [OF order_reachable.new, of sample_registration sample_config] sample_registered
  by (auto simp: PmOrderState_new_def)

lemma bind_found_outcome:
  assumes ok: "orders_ok config t" and n: "sole (os_entries t) n identity" and id: "identity_in (cfg_account config) identity"
    and ens: "ensure_identity_merge (oe_identity (os_entries t ! n)) identity = Ok u"
  shows "\<exists>s'. expect (merge_identity (oe_identity (os_entries t ! n)) identity) (\<lambda>merged.
    replace_ordered t n ((os_entries t ! n)\<lparr>oe_identity := merged\<rparr>)) = Some (s', Ok ())"
proof -
  have n': "n < length (os_entries t)" using n by (simp add: sole_def)
  obtain m where m: "merge_identity (oe_identity (os_entries t ! n)) identity = Some m" "identity_in (cfg_account config) m"
    using merge_identity_in [of "cfg_account config" "oe_identity (os_entries t ! n)" identity] orders_okD(2) [OF ok n'] id by blast
  from replace_ordered_ok [OF orders_okD(1) [OF ok] n', of "(os_entries t ! n)\<lparr>oe_identity := m\<rparr>"]
  obtain s' where "replace_ordered t n ((os_entries t ! n)\<lparr>oe_identity := m\<rparr>) = Some (s', Ok ())"
    using m(2) sole_merged [OF orders_okD(1) [OF ok] n m(1)] by auto
  then show ?thesis using m(1) by simp
qed

text \<open>
  C14: \<open>preflight_bind_owned_venue\<close> accepts a binding exactly when \<open>bind_owned_venue\<close> will succeed on
  the same state, and neither panics.
\<close>

theorem bind_preflight_exact:
  assumes "order_reachable config s"
  shows "\<exists>verdict s' outcome. preflight_bind_owned_venue s client venue config = Some verdict
    \<and> bind_owned_venue s client venue config = Some (s', outcome) \<and> (is_ok verdict \<longleftrightarrow> is_ok outcome)"
proof (cases "client_account client = cfg_account config \<and> venue_account venue = cfg_account config")
  case False
  then show ?thesis by (auto simp: preflight_bind_owned_venue_def bind_owned_venue_def is_ok_def)
next
  case True
  note ok = reachable_orders_ok [OF assms]
  obtain identity where i: "PmOrderIdentity_new (Some client) (Some venue) = Ok identity" "identity_in (cfg_account config) identity"
    using True by (blast elim: identity_merge_Some)
  note inv = orders_okD(1) [OF ok]
  from inv show ?thesis
  proof (cases rule: overlaps_touched [where identity = identity])
    case none
    then show ?thesis using True i by (auto simp: preflight_bind_owned_venue_def bind_owned_venue_def is_ok_def)
  next
    case (one n)
    have n: "nth_entry (os_entries s) n = Some (os_entries s ! n)" using one(2) by (simp add: nth_entry_def sole_def)
    show ?thesis
      using True i one(1) n find_order_sole [OF inv one(2)] bind_found_outcome [OF ok one(2) i(2)]
      by (cases "ensure_identity_merge (oe_identity (os_entries s ! n)) identity")
        (auto simp: preflight_bind_owned_venue_def bind_owned_venue_def is_ok_def)
  next
    case (bridge n k)
    have n: "nth_entry (os_entries s) n = Some (os_entries s ! n)" "nth_entry (os_entries s) k = Some (os_entries s ! k)"
      using bridge by (simp_all add: nth_entry_def)
    from ok bridge(2-4,7,8) show ?thesis
    proof (cases rule: coalesce_bridge)
      case (conflict e)
      then show ?thesis using True i bridge(1) n by (auto simp: preflight_bind_owned_venue_def bind_owned_venue_def is_ok_def)
    next
      case (merged m t j R)
      have j: "nth_entry (os_entries t) j = Some m" using merged(6,7) by (simp add: nth_entry_def sole_def)
      show ?thesis
        using True i bridge(1) n merged(1,2,5,7) j bind_found_outcome [OF merged(3,6) i(2)]
        by (cases "ensure_identity_merge (oe_identity m) identity")
          (auto simp: preflight_bind_owned_venue_def bind_owned_venue_def is_ok_def)
    qed
  qed
qed

theorem bind_preflight_exact_witness:
  "\<exists>s verdict s' outcome. order_reachable sample_config s
    \<and> preflight_bind_owned_venue s sample_client sample_venue sample_config = Some verdict
    \<and> bind_owned_venue s sample_client sample_venue sample_config = Some (s', outcome) \<and> (is_ok verdict \<longleftrightarrow> is_ok outcome)"
proof -
  obtain c where c: "order_reachable sample_config (single (sample_owned (Some sample_venue)) 1 None c)" by (rule sample_bound_reachable)
  then show ?thesis using bind_preflight_exact [OF c, of sample_client sample_venue] by blast
qed

section \<open>Deviations\<close>

text \<open>
  An owned order that exact detail reported absent, and that is then observed open, is live and
  proven owned but has lost the reservation it was registered with: the totals of the decision
  summary are zero while the order may still be filled.
\<close>

theorem revived_order_unreserved:
  "\<exists>s d. run_steps (order_step sample_config) PmOrderState_new sample_operations = Some s
    \<and> list_all operation_ok sample_operations
    \<and> list_ex (\<lambda>e. is_live e \<and> oe_ownership e = ProvenOwned \<and> oe_event e \<noteq> None) (os_entries s)
    \<and> u256_nat (res_collateral (reg_reservation sample_registration)) = 5100000
    \<and> decision_summary s = Some d \<and> sum_live_count d = 1 \<and> sum_reservation_totals d = Ok (U256_ZERO, U256_ZERO)"
proof -
  obtain c where c: "run_steps (order_step sample_config) PmOrderState_new sample_operations = Some (single sample_row 1 (Some 2) c)"
    by (rule sample_operations_run)
  have "summarize [sample_row] = Some (summary_of [sample_row], False)"
    by (simp add: summarize_eq sample_row_simps undetermined_def)
  then have "decision_summary (single sample_row 1 (Some 2) c) = Some (summary_of [sample_row])"
    by (simp add: decision_summary_def)
  then show ?thesis
    using c sample_operations_ok
    by (simp add: sample_row_simps summary_of_def add_reservation_def) (simp add: sample_registration_def)
qed

text \<open>
  A repeated registration with the same reservation and another size is a repetition for
  \<open>register_owned\<close> and a conflict for \<open>prepare_owned_registration\<close>.
\<close>

definition resized_registration :: PmOwnedOrderRegistration where
  "resized_registration = sample_registration\<lparr>reg_quantity := PmQuantity (U256 5000000 0 0 0)\<rparr>"

lemma resized_registration_new:
  "PmOwnedOrderRegistration_new sample_client sample_instrument Buy (PmPrice 500000) (PmQuantity (U256 5000000 0 0 0))
     (reg_reservation sample_registration) = Ok resized_registration"
  by (simp add: PmOwnedOrderRegistration_new_def resized_registration_def sample_registration_def validate_requirement_def
     PmQuantity_from_protocol_units_def exact_order_amounts_eq price_ok_def Let_def u256_less_iff u256_nat_of_nat)

theorem registration_terms_ignored:
  "\<exists>s. order_reachable sample_config s
    \<and> register_owned s resized_registration sample_config = Some (s, Ok ())
    \<and> prepare_owned_registration s resized_registration sample_config = Some (Err IdentityConflict)"
proof -
  obtain c where c: "register_owned PmOrderState_new sample_registration sample_config = Some (single (sample_owned None) 1 None c, Ok ())"
    using sample_registered by blast
  have "run_steps (order_step sample_config) PmOrderState_new [RegisterOwned sample_registration] = Some (single (sample_owned None) 1 None c)"
    using c by simp
  from sample_reachable [OF this order_reachable.new]
  have "order_reachable sample_config (single (sample_owned None) 1 None c)" by simp
  moreover have "validate_registration resized_registration sample_config = Ok ()"
    "client_identity (reg_client_order resized_registration) = Some \<lparr>client_order_key = Some sample_client, venue_order_key = None\<rparr>"
    by (simp_all add: resized_registration_def validate_registration_def sample_registration_def client_identity_def PmOrderIdentity_new_def)
  ultimately show ?thesis
    by (intro exI [of _ "single (sample_owned None) 1 None c"])
      (simp add: register_owned_def prepare_owned_registration_def single_eval Let_def, simp add: resized_registration_def sample_registration_def)
qed

text \<open>
  Merging a registered row with an observed one does not compare the registered terms with the
  observed price: the merged row is proven owned at one price with an event at another.
\<close>

theorem merge_ignores_observed_terms:
  "\<exists>m event. merge_entries (sample_owned None) (remote_entry (repriced_event\<lparr>order_identity := \<lparr>client_order_key = None, venue_order_key = Some sample_venue\<rparr>\<rparr>)
       Unmanaged PmReservationKnowledge.Unknown (PmPrivateOccurrence 1 1)) = Some (Ok m)
    \<and> oe_ownership m = ProvenOwned \<and> oe_event m = Some event \<and> terms_differ event (oe_registered_terms m)"
  by (simp add: merge_entries_def remote_entry_def sample_owned_def owned_entry_def sample_registration_def repriced_event_def sample_event_def
      ensure_identity_merge_def merge_registered_terms_def merge_entry_ownership_def merge_lifecycle_def merge_selected_def merge_owned_reservation_def
      merge_identity_def PmOrderIdentity_new_def terms_differ_def compare_of_def Let_def)

end
