(* ===== verification/Pm_Account.thy ===== *)
theory Pm_Account
  imports Pm_Reconciliation Reap_Slots
begin

text \<open>
  The account projection of \<open>crates/reap-pm-state/src/account.rs\<close>: what the last complete account
  snapshot says about the configured collateral, outcome token, position and spender allowances,
  with the rows outside the configured scope kept for diagnosis.  \<open>None\<close> as the outcome of a
  method is a panic of one of its \<open>expect\<close>s.
\<close>

section \<open>What is known of the account\<close>

datatype PmObservedAmount = Unavailable | ExplicitAbsent | Present U256

primrec PmObservedAmount_value :: "PmObservedAmount \<Rightarrow> U256 option" where
  "PmObservedAmount_value PmObservedAmount.Unavailable = None"
| "PmObservedAmount_value PmObservedAmount.ExplicitAbsent = Some U256_ZERO"
| "PmObservedAmount_value (PmObservedAmount.Present value) = Some value"

datatype PmAllowanceKnowledge = Unconfigured | Unavailable | ExplicitAbsent | Present PmAllowanceValue

datatype PmPositionKnowledge =
    Unavailable
  | ExplicitAbsent
  | Tradable U256
  | ResolvedUnredeemed U256
  | VenueUnavailable U256

primrec tradable_units :: "PmPositionKnowledge \<Rightarrow> U256 option" where
  "tradable_units PmPositionKnowledge.ExplicitAbsent = Some U256_ZERO"
| "tradable_units (PmPositionKnowledge.Tradable quantity) = Some quantity"
| "tradable_units PmPositionKnowledge.Unavailable = None"
| "tradable_units (PmPositionKnowledge.ResolvedUnredeemed quantity) = None"
| "tradable_units (VenueUnavailable quantity) = None"

record PmAccountSnapshotProjection =
  ap_source :: "PmProductSource option"
  ap_snapshot :: "PmSnapshotEvidence option"
  ap_completion :: "PmPrivateOccurrence option"
  ap_local_wall_receive_ns :: "u64 option"
  ap_monotonic_receive_ns :: "u64 option"
  ap_monotonic_service_ns :: "u64 option"
  ap_collateral :: PmObservedAmount
  ap_outcome_balance :: PmObservedAmount
  ap_position :: PmPositionKnowledge
  ap_unknown_balance_rows :: u8
  ap_unknown_allowance_rows :: u8
  ap_unknown_position_rows :: u8

datatype PmAccountSnapshotApply =
    Applied SnapshotRevision u8
  | Duplicate SnapshotRevision
  | IgnoredStale SnapshotRevision SnapshotRevision

record PmAccountCounters =
  ac_applied :: u64
  ac_duplicates :: u64
  ac_stale :: u64
  ac_contract_violations :: u64
  ac_unknown_rows :: u64

datatype PmAccountStateError =
    ScopeMismatch
  | ExpectedScopeMismatch
  | EnvelopeRevisionMismatch
  | CompletionSequenceMismatch

record AllowanceEntry =
  ae_spender :: PmSpenderId
  ae_knowledge :: PmAllowanceKnowledge

record PmAccountState =
  as_source :: "PmProductSource option"
  as_snapshot :: "PmSnapshotEvidence option"
  as_completion :: "PmPrivateOccurrence option"
  as_local_wall_receive_ns :: "u64 option"
  as_monotonic_receive_ns :: "u64 option"
  as_monotonic_service_ns :: "u64 option"
  as_collateral :: PmObservedAmount
  as_outcome_balance :: PmObservedAmount
  as_position :: PmPositionKnowledge
  as_allowances :: "AllowanceEntry list"
  as_diagnostic_balances :: "PmBalanceEvent list"
  as_diagnostic_allowances :: "PmAllowanceEvent list"
  as_diagnostic_positions :: "PmPositionEvent list"
  as_unknown_balance_rows :: u8
  as_unknown_allowance_rows :: u8
  as_unknown_position_rows :: u8
  as_counters :: PmAccountCounters

definition PmAccountState_new :: "PmPrivateStateConfig \<Rightarrow> PmAccountState" where
  "PmAccountState_new config =
     \<lparr>as_source = None, as_snapshot = None, as_completion = None, as_local_wall_receive_ns = None,
      as_monotonic_receive_ns = None, as_monotonic_service_ns = None,
      as_collateral = PmObservedAmount.Unavailable, as_outcome_balance = PmObservedAmount.Unavailable,
      as_position = PmPositionKnowledge.Unavailable,
      as_allowances = map (\<lambda>spender. \<lparr>ae_spender = spender, ae_knowledge = PmAllowanceKnowledge.Unavailable\<rparr>)
        (cfg_required_spenders config),
      as_diagnostic_balances = [], as_diagnostic_allowances = [], as_diagnostic_positions = [],
      as_unknown_balance_rows = 0, as_unknown_allowance_rows = 0, as_unknown_position_rows = 0,
      as_counters = \<lparr>ac_applied = 0, ac_duplicates = 0, ac_stale = 0, ac_contract_violations = 0, ac_unknown_rows = 0\<rparr>\<rparr>"

section \<open>Reading a snapshot\<close>

definition validate_account_envelope ::
    "PmCompleteAccountSnapshot EventEnvelope \<Rightarrow> PmPrivateStateConfig \<Rightarrow> (unit, PmAccountStateError) result" where
  "validate_account_envelope envelope config =
     (let snapshot = env_payload envelope
      in if env_source envelope \<noteq> cfg_source config \<or> acct_account_scope snapshot \<noteq> cfg_account_scope config
         then Err ScopeMismatch
         else if \<not> expected_assets_match config (acct_expected_assets snapshot)
              \<or> \<not> expected_spenders_match config (acct_expected_spenders snapshot)
              \<or> \<not> expected_instruments_match config (acct_expected_instruments snapshot)
         then Err ExpectedScopeMismatch
         else if snapshot_revision (env_ordering envelope) \<noteq> Some (acct_snapshot snapshot)
         then Err EnvelopeRevisionMismatch
         else if local_ingress_sequence (env_ordering envelope) \<noteq> completion_sequence (acct_boundary snapshot)
         then Err CompletionSequenceMismatch
         else Ok ())"

definition observed_balance :: "PmCompleteAccountSnapshot \<Rightarrow> PmAssetId \<Rightarrow> PmObservedAmount option" where
  "observed_balance snapshot asset =
     expect (expected_balance snapshot asset) (\<lambda>found. Some (case found of
       Some row \<Rightarrow> PmObservedAmount.Present (balance_units row)
     | None \<Rightarrow> PmObservedAmount.ExplicitAbsent))"

definition observed_position :: "PmCompleteAccountSnapshot \<Rightarrow> PmInstrumentHandle \<Rightarrow> PmPositionKnowledge option" where
  "observed_position snapshot instrument =
     expect (expected_position snapshot instrument) (\<lambda>found. Some (case found of
       None \<Rightarrow> PmPositionKnowledge.ExplicitAbsent
     | Some row \<Rightarrow>
         (case position_availability row of
            PmPositionAvailability.Tradable \<Rightarrow> PmPositionKnowledge.Tradable (position_quantity row)
          | PmPositionAvailability.ResolvedUnredeemed \<Rightarrow> PmPositionKnowledge.ResolvedUnredeemed (position_quantity row)
          | PmPositionAvailability.Unavailable \<Rightarrow> VenueUnavailable (position_quantity row))))"

text \<open>\<open>u8::try_from(n).expect(..)\<close>.\<close>

definition u8_of :: "nat \<Rightarrow> u8 option" where
  "u8_of n = (if n < 256 then Some (of_nat n) else None)"

definition count_absences ::
    "PmObservedAmount \<Rightarrow> PmObservedAmount \<Rightarrow> PmPositionKnowledge \<Rightarrow> PmCompleteAccountSnapshot \<Rightarrow> PmPrivateStateConfig
      \<Rightarrow> u8 option" where
  "count_absences collateral outcome_balance position snapshot config =
     expect (u8_of (length (filter (\<lambda>spender. expected_allowance snapshot spender = Some None)
       (cfg_required_spenders config)))) (\<lambda>missing_allowances.
     Some (of_bool (collateral = PmObservedAmount.ExplicitAbsent)
       + of_bool (outcome_balance = PmObservedAmount.ExplicitAbsent)
       + of_bool (position = PmPositionKnowledge.ExplicitAbsent) + missing_allowances))"

section \<open>Applying a snapshot\<close>

text \<open>The completion of a snapshot, as the private occurrence it is ordered by.\<close>

definition account_completion :: "PmCompleteAccountSnapshot EventEnvelope \<Rightarrow> PmPrivateOccurrence" where
  "account_completion envelope =
     PmPrivateOccurrence (connection_epoch (env_ordering envelope)) (completion_sequence (acct_boundary (env_payload envelope)))"

definition account_preview ::
    "PmAccountState \<Rightarrow> PmCompleteAccountSnapshot EventEnvelope \<Rightarrow> PmPrivateStateConfig
      \<Rightarrow> (PmAccountSnapshotApply, PmAccountStateError) result" where
  "account_preview s envelope config =
     bind_result (validate_account_envelope envelope config) (\<lambda>_.
     let received = acct_snapshot (env_payload envelope);
         completion = account_completion envelope
     in case as_snapshot s of
          None \<Rightarrow> Ok (Applied received 0)
        | Some current \<Rightarrow>
            if received = current \<and> as_completion s = Some completion then Ok (Duplicate received)
            else let stale_occurrence = is_some_and (\<lambda>prior. completion \<le> prior) (as_completion s);
                     stale_revision_same_epoch =
                       is_some_and (\<lambda>prior. occ_epoch prior = occ_epoch completion \<and> received \<le> current) (as_completion s)
                 in if stale_occurrence \<or> stale_revision_same_epoch then Ok (IgnoredStale received current)
                    else Ok (Applied received 0))"

definition count_non_applied :: "PmAccountState \<Rightarrow> PmAccountSnapshotApply \<Rightarrow> PmAccountState" where
  "count_non_applied s outcome =
     (case outcome of
        Duplicate _ \<Rightarrow> s\<lparr>as_counters := ac_duplicates_update (\<lambda>n. saturating_add n 1) (as_counters s)\<rparr>
      | IgnoredStale _ _ \<Rightarrow> s\<lparr>as_counters := ac_stale_update (\<lambda>n. saturating_add n 1) (as_counters s)\<rparr>
      | Applied _ _ \<Rightarrow> s)"

text \<open>\<open>None\<close>: the \<open>unreachable!\<close> of a spender the snapshot does not expect.\<close>

primrec replaced_allowances :: "PmCompleteAccountSnapshot \<Rightarrow> AllowanceEntry list \<Rightarrow> AllowanceEntry list option" where
  "replaced_allowances snapshot [] = Some []"
| "replaced_allowances snapshot (entry # entries) =
     expect (expected_allowance snapshot (ae_spender entry)) (\<lambda>found.
     expect (replaced_allowances snapshot entries) (\<lambda>rest.
       Some (entry\<lparr>ae_knowledge := (case found of
           Some row \<Rightarrow> PmAllowanceKnowledge.Present (allowance_value row)
         | None \<Rightarrow> PmAllowanceKnowledge.ExplicitAbsent)\<rparr> # rest)))"

definition replace_diagnostics ::
    "PmAccountState \<Rightarrow> PmCompleteAccountSnapshot \<Rightarrow> PmPrivateStateConfig \<Rightarrow> PmAccountState" where
  "replace_diagnostics s snapshot config =
     s\<lparr>as_diagnostic_balances :=
         filter (\<lambda>row. balance_asset row \<noteq> gf_collateral (cfg_trading_domain config)
           \<and> balance_asset row \<noteq> gf_outcome (cfg_trading_domain config)) (acct_balances snapshot),
       as_diagnostic_allowances :=
         filter (\<lambda>row. allowance_spender row \<notin> set (cfg_required_spenders config)) (acct_allowances snapshot),
       as_diagnostic_positions :=
         filter (\<lambda>row. position_instrument row \<noteq> cfg_instrument config) (acct_positions snapshot)\<rparr>"

definition account_apply ::
    "PmAccountState \<Rightarrow> PmCompleteAccountSnapshot EventEnvelope \<Rightarrow> PmPrivateStateConfig
      \<Rightarrow> (PmAccountState, PmAccountSnapshotApply, PmAccountStateError) outcome" where
  "account_apply s envelope config =
     (let snapshot = env_payload envelope
      in case account_preview s envelope config of
        Err error \<Rightarrow>
          Some (s\<lparr>as_counters := ac_contract_violations_update (\<lambda>n. saturating_add n 1) (as_counters s)\<rparr>, Err error)
      | Ok (Applied _ _) \<Rightarrow>
          expect (observed_balance snapshot (gf_collateral (cfg_trading_domain config))) (\<lambda>collateral.
          expect (observed_balance snapshot (gf_outcome (cfg_trading_domain config))) (\<lambda>outcome_balance.
          expect (observed_position snapshot (cfg_instrument config)) (\<lambda>position.
          expect (count_absences collateral outcome_balance position snapshot config) (\<lambda>explicit_absences.
          expect (replaced_allowances snapshot (as_allowances s)) (\<lambda>allowances.
          let s = replace_diagnostics (s\<lparr>as_allowances := allowances\<rparr>) snapshot config;
              s = s\<lparr>as_source := Some (env_source envelope), as_snapshot := Some (acct_snapshot snapshot),
                    as_completion := Some (account_completion envelope),
                    as_local_wall_receive_ns := Some (local_wall_receive_ns (env_clock envelope)),
                    as_monotonic_receive_ns := Some (monotonic_receive_ns (env_clock envelope)),
                    as_monotonic_service_ns := Some (monotonic_service_ns (env_clock envelope)),
                    as_collateral := collateral, as_outcome_balance := outcome_balance, as_position := position\<rparr>
          in expect (u8_of (length (as_diagnostic_balances s))) (\<lambda>balances.
             expect (u8_of (length (as_diagnostic_allowances s))) (\<lambda>allowances.
             expect (u8_of (length (as_diagnostic_positions s))) (\<lambda>positions.
             let unknown = ucast balances + ucast allowances + ucast positions
             in Some (s\<lparr>as_unknown_balance_rows := balances, as_unknown_allowance_rows := allowances,
                      as_unknown_position_rows := positions,
                      as_counters := ac_unknown_rows_update (\<lambda>n. saturating_add n unknown)
                        (ac_applied_update (\<lambda>n. saturating_add n 1) (as_counters s))\<rparr>,
                   Ok (Applied (acct_snapshot snapshot) explicit_absences))))))))))
      | Ok preview \<Rightarrow> Some (count_non_applied s preview, Ok preview))"

section \<open>Reads\<close>

definition account_allowance :: "PmAccountState \<Rightarrow> PmSpenderId \<Rightarrow> PmAllowanceKnowledge" where
  "account_allowance s spender =
     (case find (\<lambda>entry. ae_spender entry = spender) (as_allowances s) of
        None \<Rightarrow> Unconfigured
      | Some entry \<Rightarrow> ae_knowledge entry)"

definition account_projection :: "PmAccountState \<Rightarrow> PmAccountSnapshotProjection" where
  "account_projection s =
     \<lparr>ap_source = as_source s, ap_snapshot = as_snapshot s, ap_completion = as_completion s,
      ap_local_wall_receive_ns = as_local_wall_receive_ns s, ap_monotonic_receive_ns = as_monotonic_receive_ns s,
      ap_monotonic_service_ns = as_monotonic_service_ns s, ap_collateral = as_collateral s,
      ap_outcome_balance = as_outcome_balance s, ap_position = as_position s,
      ap_unknown_balance_rows = as_unknown_balance_rows s, ap_unknown_allowance_rows = as_unknown_allowance_rows s,
      ap_unknown_position_rows = as_unknown_position_rows s\<rparr>"

definition account_invalidate_freshness :: "PmAccountState \<Rightarrow> PmAccountState" where
  "account_invalidate_freshness s = s\<lparr>as_monotonic_service_ns := None\<rparr>"

text \<open>\<open>None\<close> is the \<open>None\<close> the source returns: the sum or difference does not fit.\<close>

definition apply_signed :: "U256 \<Rightarrow> PmSignedUnits \<Rightarrow> U256 option" where
  "apply_signed base delta =
     (case sign delta of
        Positive \<Rightarrow> expect_ok (U256_checked_add base (magnitude delta))
      | Negative \<Rightarrow> expect_ok (U256_checked_sub base (magnitude delta)))"

end
