(* ===== verification/Pm_Account_Properties.thy ===== *)
theory Pm_Account_Properties
  imports Pm_Account "HOL-Library.Option_ord"
begin

text \<open>
  What the account projection shows after a run of complete snapshots: the reachable states, the
  reads of a snapshot in the configured scope, and the exact effect of every application.
\<close>

section \<open>The configured scope of a snapshot\<close>

inductive account_reachable :: "PmPrivateStateConfig \<Rightarrow> PmAccountState \<Rightarrow> bool" for config where
  initial: "account_reachable config (PmAccountState_new config)"
| applied: "account_reachable config s \<Longrightarrow> PmCompleteAccountSnapshot_new raw = Ok (env_payload envelope)
    \<Longrightarrow> account_apply s envelope config = Some (t, r) \<Longrightarrow> account_reachable config t"
| invalidated: "account_reachable config s \<Longrightarrow> account_reachable config (account_invalidate_freshness s)"

lemma replaced_allowances_spenders:
  "replaced_allowances snapshot entries = Some entries' \<Longrightarrow> map ae_spender entries' = map ae_spender entries"
  by (induction entries arbitrary: entries') (auto simp: expect_Some)

lemma account_apply_spenders:
  "account_apply s envelope config = Some (t, r) \<Longrightarrow> map ae_spender (as_allowances t) = map ae_spender (as_allowances s)"
  by (auto simp: account_apply_def count_non_applied_def replace_diagnostics_def Let_def expect_Some
      dest!: replaced_allowances_spenders split: result.splits PmAccountSnapshotApply.splits)

lemma reachable_spenders:
  "account_reachable config s \<Longrightarrow> map ae_spender (as_allowances s) = cfg_required_spenders config"
proof (induction rule: account_reachable.induct)
  case initial
  then show ?case by (simp add: PmAccountState_new_def comp_def)
next
  case (applied s raw envelope t r)
  then show ?case using account_apply_spenders by simp
next
  case (invalidated s)
  then show ?case by (simp add: account_invalidate_freshness_def)
qed

lemma reachable_snapshot_completion:
  "account_reachable config s \<Longrightarrow> as_snapshot s = None \<longleftrightarrow> as_completion s = None"
proof (induction rule: account_reachable.induct)
  case initial
  then show ?case by (simp add: PmAccountState_new_def)
next
  case (applied s raw envelope t r)
  then show ?case
    by (auto simp: account_apply_def count_non_applied_def replace_diagnostics_def Let_def expect_Some
      split: result.splits PmAccountSnapshotApply.splits)
next
  case (invalidated s)
  then show ?case by (simp add: account_invalidate_freshness_def)
qed

lemma validate_account_envelope_Ok:
  "validate_account_envelope envelope config = Ok u \<longleftrightarrow>
     env_source envelope = cfg_source config \<and> acct_account_scope (env_payload envelope) = cfg_account_scope config
     \<and> expected_assets_match config (acct_expected_assets (env_payload envelope))
     \<and> expected_spenders_match config (acct_expected_spenders (env_payload envelope))
     \<and> expected_instruments_match config (acct_expected_instruments (env_payload envelope))
     \<and> snapshot_revision (env_ordering envelope) = Some (acct_snapshot (env_payload envelope))
     \<and> local_ingress_sequence (env_ordering envelope) = completion_sequence (acct_boundary (env_payload envelope))"
  by (auto simp: validate_account_envelope_def Let_def)

lemma unat_u8_of: "u8_of n = Some w \<Longrightarrow> unat w = n"
  by (auto simp: u8_of_def unat_of_nat split: if_splits)

lemma u8_of_small: "n < 256 \<Longrightarrow> u8_of n = Some (of_nat n)"
  by (simp add: u8_of_def)

lemma unat_absences:
  assumes "n \<le> 8"
  shows "unat (of_bool a + of_bool b + of_bool c + of_nat n :: u8) = of_bool a + of_bool b + of_bool c + n"
proof -
  have "of_bool a + of_bool b + of_bool c + of_nat n = (of_nat (of_bool a + of_bool b + of_bool c + n) :: u8)" by simp
  moreover have "of_bool a + of_bool b + of_bool c + n < (256 :: nat)" using assms by (auto simp: of_bool_def)
  ultimately show ?thesis by (simp add: unat_of_nat del: of_nat_add)
qed

lemma unique_row:
  assumes "\<And>row'. Some row = Some row' \<longleftrightarrow> row' \<in> rows \<and> key row' = k"
  shows "(\<exists>row'\<in>rows. key row' = k \<and> P row') \<longleftrightarrow> P row" "k \<in> key ` rows"
proof -
  have row: "row \<in> rows" "key row = k" using assms [of row] by simp_all
  have "row' = row" if "row' \<in> rows" "key row' = k" for row' using assms [of row'] that by simp
  then show "(\<exists>row'\<in>rows. key row' = k \<and> P row') \<longleftrightarrow> P row" using row by blast
  show "k \<in> key ` rows" using row by blast
qed

text \<open>
  The amount of an asset is \<open>Present\<close> with the units of its row, and \<open>ExplicitAbsent\<close> when it has no
  row; read as a value, an absent row is zero.
\<close>

definition balance_shows :: "PmCompleteAccountSnapshot \<Rightarrow> PmAssetId \<Rightarrow> PmObservedAmount \<Rightarrow> bool" where
  "balance_shows snapshot asset amount \<longleftrightarrow>
     (\<forall>units. amount = PmObservedAmount.Present units \<longleftrightarrow>
        (\<exists>row\<in>set (acct_balances snapshot). balance_asset row = asset \<and> balance_units row = units))
     \<and> (amount = PmObservedAmount.ExplicitAbsent \<longleftrightarrow> asset \<notin> balance_asset ` set (acct_balances snapshot))
     \<and> (\<forall>units. PmObservedAmount_value amount = Some units \<longleftrightarrow>
        (\<exists>row\<in>set (acct_balances snapshot). balance_asset row = asset \<and> balance_units row = units)
        \<or> (asset \<notin> balance_asset ` set (acct_balances snapshot) \<and> units = U256_ZERO))"

text \<open>
  The position of an instrument has the availability and the quantity of its row: the three
  availabilities are three different states, and only a tradable or an absent row can be traded.
\<close>

definition position_shows :: "PmCompleteAccountSnapshot \<Rightarrow> PmInstrumentHandle \<Rightarrow> PmPositionKnowledge \<Rightarrow> bool" where
  "position_shows snapshot instrument position \<longleftrightarrow>
     (\<forall>units. position = PmPositionKnowledge.Tradable units \<longleftrightarrow>
        (\<exists>row\<in>set (acct_positions snapshot). position_instrument row = instrument
           \<and> position_availability row = PmPositionAvailability.Tradable \<and> position_quantity row = units))
     \<and> (\<forall>units. position = PmPositionKnowledge.ResolvedUnredeemed units \<longleftrightarrow>
        (\<exists>row\<in>set (acct_positions snapshot). position_instrument row = instrument
           \<and> position_availability row = PmPositionAvailability.ResolvedUnredeemed \<and> position_quantity row = units))
     \<and> (\<forall>units. position = VenueUnavailable units \<longleftrightarrow>
        (\<exists>row\<in>set (acct_positions snapshot). position_instrument row = instrument
           \<and> position_availability row = PmPositionAvailability.Unavailable \<and> position_quantity row = units))
     \<and> (position = PmPositionKnowledge.ExplicitAbsent \<longleftrightarrow> instrument \<notin> position_instrument ` set (acct_positions snapshot))
     \<and> (\<forall>units. tradable_units position = Some units \<longleftrightarrow>
        (\<exists>row\<in>set (acct_positions snapshot). position_instrument row = instrument
           \<and> position_availability row = PmPositionAvailability.Tradable \<and> position_quantity row = units)
        \<or> (instrument \<notin> position_instrument ` set (acct_positions snapshot) \<and> units = U256_ZERO))"

lemma observed_balance_exact:
  assumes "PmCompleteAccountSnapshot_new raw = Ok snapshot" "asset \<in> set (acct_expected_assets snapshot)"
  shows "\<exists>amount. observed_balance snapshot asset = Some amount \<and> balance_shows snapshot asset amount"
proof -
  obtain found where found: "expected_balance snapshot asset = Some found"
    "\<And>row. found = Some row \<longleftrightarrow> row \<in> set (acct_balances snapshot) \<and> balance_asset row = asset"
    using expected_balance_iff [OF assms] by blast
  show ?thesis
  proof (cases found)
    case None
    then have "asset \<notin> balance_asset ` set (acct_balances snapshot)" using found(2) by auto
    then show ?thesis using None found(1) by (auto simp: observed_balance_def balance_shows_def)
  next
    case (Some row)
    note row = unique_row [OF found(2) [unfolded Some]]
    show ?thesis using Some found(1) by (auto simp: observed_balance_def balance_shows_def row)
  qed
qed

lemma observed_position_exact:
  assumes "PmCompleteAccountSnapshot_new raw = Ok snapshot" "instrument \<in> set (acct_expected_instruments snapshot)"
  shows "\<exists>position. observed_position snapshot instrument = Some position \<and> position_shows snapshot instrument position"
proof -
  obtain found where found: "expected_position snapshot instrument = Some found"
    "\<And>row. found = Some row \<longleftrightarrow> row \<in> set (acct_positions snapshot) \<and> position_instrument row = instrument"
    using expected_position_iff [OF assms] by blast
  show ?thesis
  proof (cases found)
    case None
    then have "instrument \<notin> position_instrument ` set (acct_positions snapshot)" using found(2) by auto
    then show ?thesis using None found(1) by (auto simp: observed_position_def position_shows_def)
  next
    case (Some row)
    note row = unique_row [OF found(2) [unfolded Some]]
    show ?thesis
      using Some found(1)
      by (cases "position_availability row") (auto simp: observed_position_def position_shows_def row)
  qed
qed

definition row_allowance :: "PmCompleteAccountSnapshot \<Rightarrow> PmSpenderId \<Rightarrow> PmAllowanceKnowledge" where
  "row_allowance snapshot spender =
     (case find (\<lambda>row. allowance_spender row = spender) (acct_allowances snapshot) of
        Some row \<Rightarrow> PmAllowanceKnowledge.Present (allowance_value row)
      | None \<Rightarrow> PmAllowanceKnowledge.ExplicitAbsent)"

lemma find_row:
  "distinct (map key rows) \<Longrightarrow>
     (\<exists>row\<in>set rows. key row = k \<and> P row) \<longleftrightarrow> (\<exists>row. find (\<lambda>row. key row = k) rows = Some row \<and> P row)"
  by (auto simp: find_unique_key)

lemma row_allowance_exact:
  assumes "PmCompleteAccountSnapshot_new raw = Ok snapshot"
  shows "row_allowance snapshot spender = PmAllowanceKnowledge.Present value \<longleftrightarrow>
      (\<exists>row\<in>set (acct_allowances snapshot). allowance_spender row = spender \<and> allowance_value row = value)"
    "row_allowance snapshot spender = PmAllowanceKnowledge.ExplicitAbsent \<longleftrightarrow>
      spender \<notin> allowance_spender ` set (acct_allowances snapshot)"
    "row_allowance snapshot spender \<noteq> Unconfigured"
proof -
  have "distinct (map allowance_spender (acct_allowances snapshot))"
    using assms by (simp add: account_snapshot_Ok rows_fit_def)
  note row = find_row [OF this, of spender]
  show "row_allowance snapshot spender = PmAllowanceKnowledge.Present value \<longleftrightarrow>
      (\<exists>row\<in>set (acct_allowances snapshot). allowance_spender row = spender \<and> allowance_value row = value)"
    unfolding row by (simp add: row_allowance_def split: option.split)
  show "row_allowance snapshot spender = PmAllowanceKnowledge.ExplicitAbsent \<longleftrightarrow>
      spender \<notin> allowance_spender ` set (acct_allowances snapshot)"
    using row [of "\<lambda>row. True"] by (auto simp: row_allowance_def image_iff split: option.split)
  show "row_allowance snapshot spender \<noteq> Unconfigured" by (simp add: row_allowance_def split: option.split)
qed

lemma replaced_allowances_eq:
  assumes "ae_spender ` set entries \<subseteq> set (acct_expected_spenders snapshot)"
  shows "replaced_allowances snapshot entries
    = Some (map (\<lambda>entry. entry\<lparr>ae_knowledge := row_allowance snapshot (ae_spender entry)\<rparr>) entries)"
  using assms by (induction entries) (auto simp: expected_allowance_def row_allowance_def)

lemma find_allowance:
  "find (\<lambda>entry. ae_spender entry = spender) (map (\<lambda>entry. entry\<lparr>ae_knowledge := f (ae_spender entry)\<rparr>) entries)
     = map_option (\<lambda>entry. entry\<lparr>ae_knowledge := f spender\<rparr>) (find (\<lambda>entry. ae_spender entry = spender) entries)"
  by (induction entries) auto

lemma account_allowance_eq:
  assumes "as_allowances t = map (\<lambda>entry. entry\<lparr>ae_knowledge := f (ae_spender entry)\<rparr>) entries"
  shows "account_allowance t spender = (if spender \<in> ae_spender ` set entries then f spender else Unconfigured)"
proof (cases "find (\<lambda>entry. ae_spender entry = spender) entries")
  case None
  then have "spender \<notin> ae_spender ` set entries" by (auto simp: find_None_iff)
  with None show ?thesis by (simp add: account_allowance_def assms find_allowance)
next
  case (Some entry)
  then have "spender \<in> ae_spender ` set entries" by (auto simp: find_Some_iff)
  with Some show ?thesis by (simp add: account_allowance_def assms find_allowance)
qed

text \<open>The rows outside the configured scope are the diagnostic rows of the snapshot: at most eight.\<close>

lemma diagnostic_rows_bound:
  assumes "rows_fit expected key rows" "\<And>row. outside (key row) \<Longrightarrow> key row \<notin> set expected"
  shows "length (filter (\<lambda>row. outside (key row)) rows) < 256"
proof -
  have "length (filter (\<lambda>row. outside (key row)) rows) = length (filter (\<lambda>row. outside (key row)) (filter (\<lambda>row. key row \<notin> set expected) rows))"
    unfolding filter_filter using assms(2) by (intro arg_cong [where f = length] filter_cong) auto
  also have "\<dots> \<le> length (filter (\<lambda>row. key row \<notin> set expected) rows)" by (rule length_filter_le)
  also have "\<dots> \<le> 8" using assms(1) by (simp add: rows_fit_def)
  finally show ?thesis by simp
qed

text \<open>What an applied snapshot leaves in the state, for a snapshot in the configured scope.\<close>

definition account_reads :: "PmAccountState \<Rightarrow> PmCompleteAccountSnapshot EventEnvelope \<Rightarrow> PmPrivateStateConfig \<Rightarrow> PmAccountState \<Rightarrow> u8 \<Rightarrow> bool" where
  "account_reads s envelope config t absences \<longleftrightarrow>
     (let snapshot = env_payload envelope
      in observed_balance snapshot (gf_collateral (cfg_trading_domain config)) = Some (as_collateral t)
       \<and> observed_balance snapshot (gf_outcome (cfg_trading_domain config)) = Some (as_outcome_balance t)
       \<and> observed_position snapshot (cfg_instrument config) = Some (as_position t)
       \<and> as_allowances t = map (\<lambda>entry. entry\<lparr>ae_knowledge := row_allowance snapshot (ae_spender entry)\<rparr>) (as_allowances s)
       \<and> as_diagnostic_balances t = filter (\<lambda>row. balance_asset row \<noteq> gf_collateral (cfg_trading_domain config)
           \<and> balance_asset row \<noteq> gf_outcome (cfg_trading_domain config)) (acct_balances snapshot)
       \<and> as_diagnostic_allowances t
           = filter (\<lambda>row. allowance_spender row \<notin> set (cfg_required_spenders config)) (acct_allowances snapshot)
       \<and> as_diagnostic_positions t = filter (\<lambda>row. position_instrument row \<noteq> cfg_instrument config) (acct_positions snapshot)
       \<and> unat (as_unknown_balance_rows t) = length (as_diagnostic_balances t)
       \<and> unat (as_unknown_allowance_rows t) = length (as_diagnostic_allowances t)
       \<and> unat (as_unknown_position_rows t) = length (as_diagnostic_positions t)
       \<and> as_source t = Some (env_source envelope) \<and> as_snapshot t = Some (acct_snapshot snapshot)
       \<and> as_completion t = Some (account_completion envelope)
       \<and> as_local_wall_receive_ns t = Some (local_wall_receive_ns (env_clock envelope))
       \<and> as_monotonic_receive_ns t = Some (monotonic_receive_ns (env_clock envelope))
       \<and> as_monotonic_service_ns t = Some (monotonic_service_ns (env_clock envelope))
       \<and> as_counters t = (as_counters s)\<lparr>ac_applied := saturating_add (ac_applied (as_counters s)) 1,
           ac_unknown_rows := saturating_add (ac_unknown_rows (as_counters s))
             (word_of_nat (length (as_diagnostic_balances t) + length (as_diagnostic_allowances t) + length (as_diagnostic_positions t)))\<rparr>
       \<and> unat absences = of_bool (as_collateral t = PmObservedAmount.ExplicitAbsent)
           + of_bool (as_outcome_balance t = PmObservedAmount.ExplicitAbsent)
           + of_bool (as_position t = PmPositionKnowledge.ExplicitAbsent)
           + length (filter (\<lambda>spender. row_allowance snapshot spender = PmAllowanceKnowledge.ExplicitAbsent)
               (cfg_required_spenders config)))"

lemma ucast_of_small: "n < 256 \<Longrightarrow> (ucast (word_of_nat n :: u8) :: u64) = word_of_nat n"
  by (simp add: unsigned_of_nat take_bit_nat_eq_self)

lemma account_applied_reads:
  assumes config: "PmPrivateStateConfig_new source scope instrument md = Some (Ok config)"
    and reach: "account_reachable config s"
    and new: "PmCompleteAccountSnapshot_new raw = Ok (env_payload envelope)"
    and preview: "account_preview s envelope config = Ok (Applied revision zero)"
  shows "\<exists>t absences. account_apply s envelope config = Some (t, Ok (Applied (acct_snapshot (env_payload envelope)) absences))
    \<and> account_reads s envelope config t absences"
proof -
  let ?snapshot = "env_payload envelope" and ?domain = "cfg_trading_domain config"
  have valid: "validate_account_envelope envelope config = Ok ()"
    using preview by (auto simp: account_preview_def)
  note scope = configured_snapshot_scope [OF config new]
  have assets: "set (acct_expected_assets ?snapshot) = {gf_collateral ?domain, gf_outcome ?domain}"
    and spenders: "set (acct_expected_spenders ?snapshot) = set (cfg_required_spenders config)"
    and instruments: "acct_expected_instruments ?snapshot = [instrument]"
    using scope valid by (auto simp: validate_account_envelope_Ok)
  have inst: "cfg_instrument config = instrument" and two: "length (cfg_required_spenders config) = 2"
    by (rule private_config_Ok [OF config], blast)+
  have mem: "gf_collateral ?domain \<in> set (acct_expected_assets ?snapshot)"
    "gf_outcome ?domain \<in> set (acct_expected_assets ?snapshot)"
    "cfg_instrument config \<in> set (acct_expected_instruments ?snapshot)"
    using assets instruments inst by simp_all
  obtain collateral where c: "observed_balance ?snapshot (gf_collateral ?domain) = Some collateral"
    using observed_balance_exact [OF new mem(1)] by blast
  obtain outcome_balance where o: "observed_balance ?snapshot (gf_outcome ?domain) = Some outcome_balance"
    using observed_balance_exact [OF new mem(2)] by blast
  obtain position where p: "observed_position ?snapshot (cfg_instrument config) = Some position"
    using observed_position_exact [OF new mem(3)] by blast
  have entries: "ae_spender ` set (as_allowances s) \<subseteq> set (acct_expected_spenders ?snapshot)"
    using arg_cong [OF reachable_spenders [OF reach], of set] spenders by simp
  have missing: "filter (\<lambda>spender. expected_allowance ?snapshot spender = Some None) (cfg_required_spenders config)
      = filter (\<lambda>spender. row_allowance ?snapshot spender = PmAllowanceKnowledge.ExplicitAbsent) (cfg_required_spenders config)"
    using spenders by (intro filter_cong) (auto simp: expected_allowance_def row_allowance_def split: option.split)
  have few: "length (filter P (cfg_required_spenders config)) \<le> 8" for P
    using length_filter_le [of P "cfg_required_spenders config"] two by linarith
  have fit: "rows_fit (acct_expected_assets ?snapshot) balance_asset (acct_balances ?snapshot)"
    "rows_fit (acct_expected_spenders ?snapshot) allowance_spender (acct_allowances ?snapshot)"
    "rows_fit (acct_expected_instruments ?snapshot) position_instrument (acct_positions ?snapshot)"
    using new by (auto simp: account_snapshot_Ok)
  have b: "length (filter (\<lambda>row. balance_asset row \<noteq> gf_collateral ?domain \<and> balance_asset row \<noteq> gf_outcome ?domain)
      (acct_balances ?snapshot)) < 256"
    using diagnostic_rows_bound [OF fit(1), of "\<lambda>asset. asset \<noteq> gf_collateral ?domain \<and> asset \<noteq> gf_outcome ?domain"] assets
    by auto
  have a: "length (filter (\<lambda>row. allowance_spender row \<notin> set (cfg_required_spenders config)) (acct_allowances ?snapshot)) < 256"
    using diagnostic_rows_bound [OF fit(2), of "\<lambda>spender. spender \<notin> set (cfg_required_spenders config)"] spenders by auto
  have q: "length (filter (\<lambda>row. position_instrument row \<noteq> cfg_instrument config) (acct_positions ?snapshot)) < 256"
    using diagnostic_rows_bound [OF fit(3), of "\<lambda>i. i \<noteq> cfg_instrument config"] instruments inst by auto
  have small: "length (filter P (cfg_required_spenders config)) < 256" for P using few [of P] by linarith
  show ?thesis
    unfolding account_apply_def Let_def preview account_reads_def result.case PmAccountSnapshotApply.case
    by (simp add: c o p count_absences_def u8_of_small small b a q replaced_allowances_eq [OF entries] replace_diagnostics_def
        missing unat_absences [OF few] unat_of_nat ucast_of_small)
qed

lemma account_preview_cases:
  assumes "as_snapshot s = None \<longleftrightarrow> as_completion s = None"
  shows "case account_preview s envelope config of
      Err e \<Rightarrow> validate_account_envelope envelope config = Err e
    | Ok (Duplicate revision) \<Rightarrow> validate_account_envelope envelope config = Ok ()
        \<and> as_snapshot s = Some revision \<and> revision = acct_snapshot (env_payload envelope)
        \<and> as_completion s = Some (account_completion envelope)
    | Ok (IgnoredStale received current) \<Rightarrow> validate_account_envelope envelope config = Ok ()
        \<and> as_snapshot s = Some current \<and> received = acct_snapshot (env_payload envelope)
        \<and> \<not> (received = current \<and> as_completion s = Some (account_completion envelope))
        \<and> (Some (account_completion envelope) \<le> as_completion s
           \<or> (map_option occ_epoch (as_completion s) = Some (occ_epoch (account_completion envelope)) \<and> received \<le> current))
    | Ok (Applied revision absences) \<Rightarrow> validate_account_envelope envelope config = Ok ()
        \<and> as_completion s < Some (account_completion envelope)
        \<and> (map_option occ_epoch (as_completion s) = Some (occ_epoch (account_completion envelope)) \<longrightarrow>
             as_snapshot s < Some (acct_snapshot (env_payload envelope)))"
proof (cases "validate_account_envelope envelope config")
  case (Ok u)
  show ?thesis
  proof (cases "as_snapshot s")
    case None
    then show ?thesis using Ok assms by (simp add: account_preview_def)
  next
    case (Some current)
    then obtain prior where "as_completion s = Some prior" using assms by (cases "as_completion s") auto
    with Some Ok show ?thesis by (auto simp: account_preview_def Let_def)
  qed
qed (simp add: account_preview_def)

section \<open>Properties\<close>

text \<open>
  The state shows a snapshot: its balances, position and allowances of the configured scope are
  the rows of the snapshot; no other spender has an allowance; the rows outside the configured
  scope are the diagnostic rows, in the order of the snapshot, and are counted.
\<close>

definition account_shows :: "PmPrivateStateConfig \<Rightarrow> PmCompleteAccountSnapshot \<Rightarrow> PmAccountState \<Rightarrow> bool" where
  "account_shows config snapshot t \<longleftrightarrow>
     balance_shows snapshot (gf_collateral (cfg_trading_domain config)) (as_collateral t)
     \<and> balance_shows snapshot (gf_outcome (cfg_trading_domain config)) (as_outcome_balance t)
     \<and> position_shows snapshot (cfg_instrument config) (as_position t)
     \<and> (\<forall>spender value. account_allowance t spender = PmAllowanceKnowledge.Present value \<longleftrightarrow>
        spender \<in> set (cfg_required_spenders config)
        \<and> (\<exists>row\<in>set (acct_allowances snapshot). allowance_spender row = spender \<and> allowance_value row = value))
     \<and> (\<forall>spender. account_allowance t spender = PmAllowanceKnowledge.ExplicitAbsent \<longleftrightarrow>
        spender \<in> set (cfg_required_spenders config) \<and> spender \<notin> allowance_spender ` set (acct_allowances snapshot))
     \<and> as_diagnostic_balances t = filter (\<lambda>row. balance_asset row \<noteq> gf_collateral (cfg_trading_domain config)
         \<and> balance_asset row \<noteq> gf_outcome (cfg_trading_domain config)) (acct_balances snapshot)
     \<and> as_diagnostic_allowances t
         = filter (\<lambda>row. allowance_spender row \<notin> set (cfg_required_spenders config)) (acct_allowances snapshot)
     \<and> as_diagnostic_positions t = filter (\<lambda>row. position_instrument row \<noteq> cfg_instrument config) (acct_positions snapshot)
     \<and> unat (as_unknown_balance_rows t) = length (as_diagnostic_balances t)
     \<and> unat (as_unknown_allowance_rows t) = length (as_diagnostic_allowances t)
     \<and> unat (as_unknown_position_rows t) = length (as_diagnostic_positions t)"

lemma account_reads_shows:
  assumes config: "PmPrivateStateConfig_new source scope instrument md = Some (Ok config)"
    and reach: "account_reachable config s" and new: "PmCompleteAccountSnapshot_new raw = Ok (env_payload envelope)"
    and valid: "validate_account_envelope envelope config = Ok ()" and reads: "account_reads s envelope config t absences"
  shows "account_shows config (env_payload envelope) t"
    "account_allowance t spender
       = (if spender \<in> set (cfg_required_spenders config) then row_allowance (env_payload envelope) spender else Unconfigured)"
proof -
  let ?snapshot = "env_payload envelope"
  have mem: "gf_collateral (cfg_trading_domain config) \<in> set (acct_expected_assets ?snapshot)"
    "gf_outcome (cfg_trading_domain config) \<in> set (acct_expected_assets ?snapshot)"
    "cfg_instrument config \<in> set (acct_expected_instruments ?snapshot)"
    using valid by (auto simp: validate_account_envelope_Ok expected_assets_match_def expected_instruments_match_def)
  have obs: "observed_balance ?snapshot (gf_collateral (cfg_trading_domain config)) = Some (as_collateral t)"
    "observed_balance ?snapshot (gf_outcome (cfg_trading_domain config)) = Some (as_outcome_balance t)"
    "observed_position ?snapshot (cfg_instrument config) = Some (as_position t)"
    "as_allowances t = map (\<lambda>entry. entry\<lparr>ae_knowledge := row_allowance ?snapshot (ae_spender entry)\<rparr>) (as_allowances s)"
    using reads by (simp_all add: account_reads_def Let_def)
  have spenders: "ae_spender ` set (as_allowances s) = set (cfg_required_spenders config)"
    using arg_cong [OF reachable_spenders [OF reach], of set] by simp
  show allowance: "account_allowance t spender
       = (if spender \<in> set (cfg_required_spenders config) then row_allowance ?snapshot spender else Unconfigured)" for spender
    using account_allowance_eq [OF obs(4)] spenders by simp
  note rows = observed_balance_exact [OF new mem(1)] observed_balance_exact [OF new mem(2)] observed_position_exact [OF new mem(3)]
  show "account_shows config ?snapshot t"
    unfolding account_shows_def allowance
    using rows reads row_allowance_exact [OF new] by (simp add: obs account_reads_def Let_def)
qed

text \<open>
  C12: applying a complete account snapshot never panics.  A refused snapshot, the snapshot that
  is current and a stale one change nothing but their own counter.  An applied snapshot completed
  strictly later than the one before it, with a later revision in the same connection epoch, and
  the state then shows exactly its rows: an amount is the one of its row or explicitly absent, a
  tradable, a resolved and a venue-unavailable position are kept apart with the quantity of the
  row, and the rows outside the configured scope are diagnostics.  The source and the clocks are
  those of the envelope, the answer counts the configured rows that are absent, and the counters
  add one application and the diagnostic rows.
\<close>

theorem account_apply_exact:
  assumes config: "PmPrivateStateConfig_new source scope instrument md = Some (Ok config)"
    and reach: "account_reachable config s"
    and new: "PmCompleteAccountSnapshot_new raw = Ok (env_payload envelope)"
  shows "\<exists>t r. account_apply s envelope config = Some (t, r) \<and> (case r of
      Err e \<Rightarrow> validate_account_envelope envelope config = Err e
        \<and> t = s\<lparr>as_counters := (as_counters s)\<lparr>ac_contract_violations := saturating_add (ac_contract_violations (as_counters s)) 1\<rparr>\<rparr>
    | Ok (Duplicate revision) \<Rightarrow> validate_account_envelope envelope config = Ok ()
        \<and> as_snapshot s = Some revision \<and> revision = acct_snapshot (env_payload envelope)
        \<and> as_completion s = Some (account_completion envelope)
        \<and> t = s\<lparr>as_counters := (as_counters s)\<lparr>ac_duplicates := saturating_add (ac_duplicates (as_counters s)) 1\<rparr>\<rparr>
    | Ok (IgnoredStale received current) \<Rightarrow> validate_account_envelope envelope config = Ok ()
        \<and> as_snapshot s = Some current \<and> received = acct_snapshot (env_payload envelope)
        \<and> \<not> (received = current \<and> as_completion s = Some (account_completion envelope))
        \<and> (Some (account_completion envelope) \<le> as_completion s
           \<or> (map_option occ_epoch (as_completion s) = Some (occ_epoch (account_completion envelope)) \<and> received \<le> current))
        \<and> t = s\<lparr>as_counters := (as_counters s)\<lparr>ac_stale := saturating_add (ac_stale (as_counters s)) 1\<rparr>\<rparr>
    | Ok (Applied revision absences) \<Rightarrow> validate_account_envelope envelope config = Ok ()
        \<and> as_completion s < as_completion t \<and> as_completion t = Some (account_completion envelope)
        \<and> as_snapshot t = Some revision \<and> revision = acct_snapshot (env_payload envelope)
        \<and> (map_option occ_epoch (as_completion s) = map_option occ_epoch (as_completion t) \<longrightarrow> as_snapshot s < as_snapshot t)
        \<and> account_shows config (env_payload envelope) t
        \<and> as_source t = Some (env_source envelope)
        \<and> as_local_wall_receive_ns t = Some (local_wall_receive_ns (env_clock envelope))
        \<and> as_monotonic_receive_ns t = Some (monotonic_receive_ns (env_clock envelope))
        \<and> as_monotonic_service_ns t = Some (monotonic_service_ns (env_clock envelope))
        \<and> as_counters t = (as_counters s)\<lparr>ac_applied := saturating_add (ac_applied (as_counters s)) 1,
            ac_unknown_rows := saturating_add (ac_unknown_rows (as_counters s)) (word_of_nat
              (length (as_diagnostic_balances t) + length (as_diagnostic_allowances t) + length (as_diagnostic_positions t)))\<rparr>
        \<and> unat absences = of_bool (as_collateral t = PmObservedAmount.ExplicitAbsent)
             + of_bool (as_outcome_balance t = PmObservedAmount.ExplicitAbsent)
             + of_bool (as_position t = PmPositionKnowledge.ExplicitAbsent)
             + length (filter (\<lambda>spender. account_allowance t spender = PmAllowanceKnowledge.ExplicitAbsent)
                 (cfg_required_spenders config)))"
proof -
  note preview = account_preview_cases [OF reachable_snapshot_completion [OF reach], of envelope config]
  show ?thesis
  proof (cases "\<exists>revision zero. account_preview s envelope config = Ok (Applied revision zero)")
    case True
    then obtain revision zero where a: "account_preview s envelope config = Ok (Applied revision zero)" by blast
    have valid: "validate_account_envelope envelope config = Ok ()" and later: "as_completion s < Some (account_completion envelope)"
      "map_option occ_epoch (as_completion s) = Some (occ_epoch (account_completion envelope)) \<longrightarrow>
         as_snapshot s < Some (acct_snapshot (env_payload envelope))"
      using preview by (simp_all add: a)
    obtain t absences where t: "account_apply s envelope config = Some (t, Ok (Applied (acct_snapshot (env_payload envelope)) absences))"
      and reads: "account_reads s envelope config t absences"
      using account_applied_reads [OF config reach new a] by blast
    note seen = account_reads_shows [OF config reach new valid reads]
    have "filter (\<lambda>spender. account_allowance t spender = PmAllowanceKnowledge.ExplicitAbsent) (cfg_required_spenders config)
        = filter (\<lambda>spender. row_allowance (env_payload envelope) spender = PmAllowanceKnowledge.ExplicitAbsent) (cfg_required_spenders config)"
      by (rule filter_cong) (simp_all add: seen(2))
    then show ?thesis
      using valid later seen(1) reads by (simp add: t account_reads_def Let_def)
  next
    case False
    show ?thesis
    proof (cases "account_preview s envelope config")
      case (Ok outcome)
      with False preview show ?thesis
        by (cases outcome) (simp_all add: account_apply_def count_non_applied_def)
    next
      case (Err e)
      with preview show ?thesis by (simp add: account_apply_def)
    qed
  qed
qed

definition sample_account_envelope :: "PmCompleteAccountSnapshot EventEnvelope" where
  "sample_account_envelope = \<lparr>env_venue = Polymarket, env_source = PolymarketAccount 9 3,
     env_connection_id = BoundedAscii 1 (99 # replicate 95 0),
     env_clock = \<lparr>venue_event_timestamp_ns = None, local_wall_receive_ns = 1, monotonic_receive_ns = 1, monotonic_service_ns = 2\<rparr>,
     env_ordering = \<lparr>connection_epoch = 1, snapshot_revision = Some 4, venue_sequence = None, venue_hash = None,
       local_ingress_sequence = 2\<rparr>, env_payload = sample_account_snapshot\<rparr>"

lemma sample_account_applied:
  "account_preview (PmAccountState_new sample_config) sample_account_envelope sample_config = Ok (Applied 4 0)"
  by (simp add: account_preview_def validate_account_envelope_Ok [where u = "()"] sample_account_envelope_def PmAccountState_new_def
      sample_account_snapshot_def Let_def expected_assets_match_def expected_spenders_match_def expected_instruments_match_def
      sample_config_def sample_scope_def)

theorem account_apply_exact_witness:
  "\<exists>t absences. account_apply (PmAccountState_new sample_config) sample_account_envelope sample_config = Some (t, Ok (Applied 4 absences))
     \<and> as_completion t = Some (PmPrivateOccurrence 1 2) \<and> account_shows sample_config sample_account_snapshot t
     \<and> as_collateral t = PmObservedAmount.Present (U256 5 0 0 0)"
proof -
  have payload: "env_payload sample_account_envelope = sample_account_snapshot" by (simp add: sample_account_envelope_def)
  have new: "PmCompleteAccountSnapshot_new sample_account_snapshot = Ok (env_payload sample_account_envelope)"
    unfolding payload by (rule sample_account_snapshot_new)
  have completion: "account_completion sample_account_envelope = PmPrivateOccurrence 1 2" "acct_snapshot sample_account_snapshot = 4"
    by (simp_all add: account_completion_def sample_account_envelope_def sample_account_snapshot_def Let_def)
  have row: "\<exists>row\<in>set (acct_balances sample_account_snapshot).
      balance_asset row = gf_collateral (cfg_trading_domain sample_config) \<and> balance_units row = U256 5 0 0 0"
    by (simp add: sample_account_snapshot_def Let_def)
  obtain t absences where t: "account_apply (PmAccountState_new sample_config) sample_account_envelope sample_config
      = Some (t, Ok (Applied 4 absences))"
    using account_applied_reads [OF sample_config_new account_reachable.initial new sample_account_applied]
    by (auto simp: payload completion)
  have "as_completion t = Some (PmPrivateOccurrence 1 2) \<and> account_shows sample_config sample_account_snapshot t"
    using account_apply_exact [OF sample_config_new account_reachable.initial new] by (simp add: t payload completion)
  then show ?thesis using t row by (auto simp: account_shows_def balance_shows_def)
qed

end
