(* ===== verification/Pm_Refresh.thy ===== *)
theory Pm_Refresh
  imports Pm_Identity Reap_Reducer
begin

text \<open>
  The refresh obligations of \<open>crates/reap-pm-state/src/refresh.rs\<close>: a bounded table, sorted by
  key, of the reconciliation work the private state still owes, with the generation last required
  and the generation in flight.  Owner identities and generations, one-field structs in the
  source, are \<open>u64\<close>.  The array of 128 optional entries is a list of that length.
  \<open>None\<close> as the outcome of a method is a panic.
\<close>

section \<open>Keys, tickets and outcomes\<close>

definition MAX_PM_REFRESH_OBLIGATIONS :: nat where
  "MAX_PM_REFRESH_OBLIGATIONS = 128"


datatype PmRefreshReason =
    PrivateReconnect
  | FillObserved
  | FillFeeUnknown
  | FillConflict
  | FillSettlementRetrying
  | FillSettlementFailed
  | UnresolvedFill
  | UnmanagedOrder
  | AmbiguousOrder
  | MissingOrderDetail
  | AccountSnapshotStale
  | AccountDivergence
  | PositionUnavailable
  | AllowanceUnavailable
  | ExternalIngressFault
  | StateCapacity
  | RiskBreach

text \<open>The derived order of the variants.\<close>

primrec refresh_reason_rank :: "PmRefreshReason \<Rightarrow> nat" where
  "refresh_reason_rank PrivateReconnect = 0"
| "refresh_reason_rank FillObserved = 1"
| "refresh_reason_rank FillFeeUnknown = 2"
| "refresh_reason_rank FillConflict = 3"
| "refresh_reason_rank FillSettlementRetrying = 4"
| "refresh_reason_rank FillSettlementFailed = 5"
| "refresh_reason_rank UnresolvedFill = 6"
| "refresh_reason_rank UnmanagedOrder = 7"
| "refresh_reason_rank AmbiguousOrder = 8"
| "refresh_reason_rank MissingOrderDetail = 9"
| "refresh_reason_rank AccountSnapshotStale = 10"
| "refresh_reason_rank AccountDivergence = 11"
| "refresh_reason_rank PositionUnavailable = 12"
| "refresh_reason_rank AllowanceUnavailable = 13"
| "refresh_reason_rank ExternalIngressFault = 14"
| "refresh_reason_rank StateCapacity = 15"
| "refresh_reason_rank RiskBreach = 16"

datatype PmRefreshKey =
  PmRefreshKey (refresh_account: PmAccountHandle) (refresh_instrument: PmInstrumentHandle)
    (refresh_reason: PmRefreshReason)

definition refresh_key_rank :: "PmRefreshKey \<Rightarrow> u16 \<times> u16 \<times> u16 \<times> nat" where
  "refresh_key_rank key =
     (refresh_account key, handle_market (refresh_instrument key), handle_token (refresh_instrument key),
      refresh_reason_rank (refresh_reason key))"

lemma refresh_reason_rank_inject: "refresh_reason_rank a = refresh_reason_rank b \<Longrightarrow> a = b"
  by (cases a; cases b) simp_all

lemma refresh_key_rank_inject: "refresh_key_rank a = refresh_key_rank b \<Longrightarrow> a = b"
  by (auto simp: refresh_key_rank_def intro!: PmRefreshKey.expand PmInstrumentHandle.expand refresh_reason_rank_inject)

instantiation PmRefreshKey :: linorder
begin

definition less_eq_PmRefreshKey :: "PmRefreshKey \<Rightarrow> PmRefreshKey \<Rightarrow> bool" where
  "less_eq_PmRefreshKey a b \<longleftrightarrow> refresh_key_rank a \<le> refresh_key_rank b"

definition less_PmRefreshKey :: "PmRefreshKey \<Rightarrow> PmRefreshKey \<Rightarrow> bool" where
  "less_PmRefreshKey a b \<longleftrightarrow> refresh_key_rank a < refresh_key_rank b"

instance
  by standard
    (auto simp: less_eq_PmRefreshKey_def less_PmRefreshKey_def less_le_not_le intro: refresh_key_rank_inject)

end

record PmRefreshTicket =
  ticket_owner :: u64
  ticket_key :: PmRefreshKey
  ticket_generation :: u64

datatype PmRefreshRequired =
    Inserted PmRefreshTicket
  | AlreadyRequired PmRefreshTicket
  | SupersededInFlight PmRefreshTicket PmRefreshTicket
  | Saturated PmRefreshKey

datatype PmRefreshAdmission =
    Admitted PmRefreshTicket
  | AlreadyInFlight PmRefreshTicket
  | NotRequired PmRefreshKey
  | Stale PmRefreshTicket

datatype PmRefreshCompletion =
    Cleared PmRefreshTicket
  | NewerRequirementRetained PmRefreshTicket PmRefreshTicket
  | Stale PmRefreshTicket

record PmRefreshCounters =
  rc_requirements :: u64
  rc_deduplicated :: u64
  rc_superseded_in_flight :: u64
  rc_admissions :: u64
  rc_completions :: u64
  rc_stale_completions :: u64
  rc_saturations :: u64
  rc_high_water :: nat

datatype PmRefreshError = OwnerIdentityExhausted | GenerationExhausted

text \<open>
  \<open>fetch_update\<close> on the static counter of owner identities: the counter after the call and the
  identity it held before.
\<close>

definition PmRefreshOwnerId_allocate :: "u64 \<Rightarrow> u64 \<times> (u64, PmRefreshError) result" where
  "PmRefreshOwnerId_allocate current =
     (case checked_add_word current 1 of
        Some next_owner \<Rightarrow> (next_owner, Ok current)
      | None \<Rightarrow> (current, Err OwnerIdentityExhausted))"

section \<open>The obligation table\<close>

record PmRefreshEntry =
  re_key :: PmRefreshKey
  re_required_generation :: u64
  re_in_flight_generation :: "u64 option"

definition required_ticket :: "u64 \<Rightarrow> PmRefreshEntry \<Rightarrow> PmRefreshTicket" where
  "required_ticket owner entry =
     \<lparr>ticket_owner = owner, ticket_key = re_key entry, ticket_generation = re_required_generation entry\<rparr>"

definition in_flight_ticket :: "u64 \<Rightarrow> PmRefreshEntry \<Rightarrow> PmRefreshTicket option" where
  "in_flight_ticket owner entry =
     (case re_in_flight_generation entry of
        Some generation \<Rightarrow> Some \<lparr>ticket_owner = owner, ticket_key = re_key entry, ticket_generation = generation\<rparr>
      | None \<Rightarrow> None)"

record PmRefreshState =
  rf_owner :: u64
  rf_entries :: "PmRefreshEntry option list"
  rf_length :: nat
  rf_next_generation :: u64
  rf_full_reconcile_required :: bool
  rf_counters :: PmRefreshCounters

definition PmRefreshState_new :: "u64 \<Rightarrow> PmRefreshState" where
  "PmRefreshState_new owner =
     \<lparr>rf_owner = owner, rf_entries = replicate MAX_PM_REFRESH_OBLIGATIONS None, rf_length = 0,
      rf_next_generation = 1, rf_full_reconcile_required = False,
      rf_counters = \<lparr>rc_requirements = 0, rc_deduplicated = 0, rc_superseded_in_flight = 0, rc_admissions = 0,
        rc_completions = 0, rc_stale_completions = 0, rc_saturations = 0, rc_high_water = 0\<rparr>\<rparr>"

text \<open>\<open>self.counters.f = self.counters.f.saturating_add(1)\<close>, with the field update as argument.\<close>

definition refresh_bump ::
    "((u64 \<Rightarrow> u64) \<Rightarrow> PmRefreshCounters \<Rightarrow> PmRefreshCounters) \<Rightarrow> PmRefreshState \<Rightarrow> PmRefreshState" where
  "refresh_bump field s = s\<lparr>rf_counters := field (\<lambda>n. saturating_add n 1) (rf_counters s)\<rparr>"

definition issue_generation :: "PmRefreshState \<Rightarrow> PmRefreshState \<times> (u64, PmRefreshError) result" where
  "issue_generation s =
     (case checked_add_word (rf_next_generation s) 1 of
        None \<Rightarrow> (s\<lparr>rf_full_reconcile_required := True\<rparr>, Err GenerationExhausted)
      | Some next_generation \<Rightarrow> (s\<lparr>rf_next_generation := next_generation\<rparr>, Ok (rf_next_generation s)))"

text \<open>The slice \<open>self.entries[..self.length]\<close> panics past the end of the array.\<close>

definition occupied_prefix :: "PmRefreshState \<Rightarrow> PmRefreshEntry option list option" where
  "occupied_prefix s = (if rf_length s \<le> length (rf_entries s) then Some (take (rf_length s) (rf_entries s)) else None)"

definition refresh_search :: "PmRefreshState \<Rightarrow> PmRefreshKey \<Rightarrow> (nat, nat) result option" where
  "refresh_search s key =
     expect (occupied_prefix s) (\<lambda>entries.
       binary_search_try (\<lambda>entry. expect entry (\<lambda>entry. Some (compare_of (re_key entry) key))) entries)"

text \<open>
  The two loops that move entries: \<open>for cursor in (index..self.length).rev()\<close> with
  \<open>n = self.length - index\<close> steps left, and \<open>for cursor in index..self.length - 1\<close>.
\<close>

primrec shift_up :: "nat \<Rightarrow> nat \<Rightarrow> 'a list \<Rightarrow> 'a list option" where
  "shift_up index 0 entries = Some entries"
| "shift_up index (Suc n) entries =
     (let cursor = index + n
      in if cursor + 1 < length entries then shift_up index n (entries[cursor + 1 := entries ! cursor]) else None)"

primrec shift_down :: "nat \<Rightarrow> nat \<Rightarrow> 'a list \<Rightarrow> 'a list option" where
  "shift_down cursor 0 entries = Some entries"
| "shift_down cursor (Suc n) entries =
     (if cursor + 1 < length entries then shift_down (cursor + 1) n (entries[cursor := entries ! (cursor + 1)]) else None)"

text \<open>\<open>self.length - 1\<close> underflows on an empty table.\<close>

definition refresh_remove :: "PmRefreshState \<Rightarrow> nat \<Rightarrow> PmRefreshState option" where
  "refresh_remove s index =
     (if rf_length s = 0 then None
      else expect (shift_down index (rf_length s - 1 - index) (rf_entries s)) (\<lambda>entries.
        if rf_length s - 1 < length entries
        then Some (s\<lparr>rf_entries := entries[rf_length s - 1 := None], rf_length := rf_length s - 1\<rparr>)
        else None))"

definition insert_obligation ::
    "PmRefreshState \<Rightarrow> nat \<Rightarrow> PmRefreshKey \<Rightarrow> (PmRefreshState, PmRefreshRequired, PmRefreshError) outcome" where
  "insert_obligation s index key =
     and_then (Some (issue_generation s)) (\<lambda>s generation.
     expect (shift_up index (rf_length s - index) (rf_entries s)) (\<lambda>entries.
     let entry = \<lparr>re_key = key, re_required_generation = generation, re_in_flight_generation = None\<rparr>
     in if index < length entries
        then let s = s\<lparr>rf_entries := entries[index := Some entry], rf_length := rf_length s + 1\<rparr>;
                 s = s\<lparr>rf_counters := rc_high_water_update (\<lambda>n. max n (rf_length s)) (rf_counters s)\<rparr>
             in Some (s, Ok (Inserted (required_ticket (rf_owner s) entry)))
        else None))"

definition refresh_require ::
    "PmRefreshState \<Rightarrow> PmRefreshKey \<Rightarrow> (PmRefreshState, PmRefreshRequired, PmRefreshError) outcome" where
  "refresh_require s key =
     (let s = refresh_bump rc_requirements_update s
      in expect (refresh_search s key) (\<lambda>found. case found of
           Ok index \<Rightarrow>
             expect (nth_entry (rf_entries s) index) (\<lambda>slot.
             expect slot (\<lambda>entry.
               case in_flight_ticket (rf_owner s) entry of
                 Some in_flight \<Rightarrow>
                   and_then (Some (issue_generation s)) (\<lambda>s generation.
                     let updated = entry\<lparr>re_required_generation := generation\<rparr>;
                         s = refresh_bump rc_superseded_in_flight_update
                               (s\<lparr>rf_entries := (rf_entries s)[index := Some updated]\<rparr>)
                     in Some (s, Ok (SupersededInFlight (required_ticket (rf_owner s) updated) in_flight)))
               | None \<Rightarrow>
                   Some (refresh_bump rc_deduplicated_update s, Ok (AlreadyRequired (required_ticket (rf_owner s) entry)))))
         | Err index \<Rightarrow>
             if rf_length s < MAX_PM_REFRESH_OBLIGATIONS then insert_obligation s index key
             else Some (refresh_bump rc_saturations_update (s\<lparr>rf_full_reconcile_required := True\<rparr>), Ok (Saturated key))))"

definition mark_admitted :: "PmRefreshState \<Rightarrow> PmRefreshTicket \<Rightarrow> (PmRefreshState \<times> PmRefreshAdmission) option" where
  "mark_admitted s ticket =
     (if ticket_owner ticket \<noteq> rf_owner s then Some (s, PmRefreshAdmission.Stale ticket)
      else expect (refresh_search s (ticket_key ticket)) (\<lambda>found. case found of
        Err _ \<Rightarrow> Some (s, NotRequired (ticket_key ticket))
      | Ok index \<Rightarrow>
          expect (nth_entry (rf_entries s) index) (\<lambda>slot.
          expect slot (\<lambda>entry.
            if re_required_generation entry \<noteq> ticket_generation ticket then Some (s, PmRefreshAdmission.Stale ticket)
            else case in_flight_ticket (rf_owner s) entry of
              Some in_flight \<Rightarrow> Some (s, AlreadyInFlight in_flight)
            | None \<Rightarrow>
                let entry = entry\<lparr>re_in_flight_generation := Some (re_required_generation entry)\<rparr>;
                    s = refresh_bump rc_admissions_update (s\<lparr>rf_entries := (rf_entries s)[index := Some entry]\<rparr>)
                in Some (s, Admitted (required_ticket (rf_owner s) entry))))))"

definition refresh_complete :: "PmRefreshState \<Rightarrow> PmRefreshTicket \<Rightarrow> (PmRefreshState \<times> PmRefreshCompletion) option" where
  "refresh_complete s ticket =
     (let stale = (refresh_bump rc_stale_completions_update s, PmRefreshCompletion.Stale ticket)
      in if ticket_owner ticket \<noteq> rf_owner s then Some stale
      else expect (refresh_search s (ticket_key ticket)) (\<lambda>found. case found of
        Err _ \<Rightarrow> Some stale
      | Ok index \<Rightarrow>
          expect (nth_entry (rf_entries s) index) (\<lambda>slot.
          expect slot (\<lambda>entry.
            if re_in_flight_generation entry \<noteq> Some (ticket_generation ticket) then Some stale
            else let s = refresh_bump rc_completions_update s
              in if re_required_generation entry = ticket_generation ticket
                 then expect (refresh_remove s index) (\<lambda>s. Some (s, Cleared ticket))
                 else let entry = entry\<lparr>re_in_flight_generation := None\<rparr>
                   in Some (s\<lparr>rf_entries := (rf_entries s)[index := Some entry]\<rparr>,
                        NewerRequirementRetained ticket (required_ticket (rf_owner s) entry))))))"

definition refresh_pending :: "PmRefreshState \<Rightarrow> PmRefreshTicket list option" where
  "refresh_pending s =
     expect (occupied_prefix s) (\<lambda>entries.
       Some (map (required_ticket (rf_owner s))
         (filter (\<lambda>entry. re_in_flight_generation entry = None) (List.map_filter (\<lambda>entry. entry) entries))))"

definition pending_keys :: "PmRefreshState \<Rightarrow> PmRefreshKey list option" where
  "pending_keys s =
     expect (occupied_prefix s) (\<lambda>entries.
       Some (map re_key
         (filter (\<lambda>entry. re_in_flight_generation entry = None) (List.map_filter (\<lambda>entry. entry) entries))))"

definition complete_full_reconciliation :: "PmRefreshState \<Rightarrow> PmRefreshState" where
  "complete_full_reconciliation s = s\<lparr>rf_full_reconcile_required := False\<rparr>"

end
