(* ===== verification/Pm_Refresh_Properties.thy ===== *)
theory Pm_Refresh_Properties
  imports Pm_Refresh
begin

text \<open>
  The table of refresh obligations implements a map of owed work: the layout of the array and the
  loops that shift it, the specification and the simulation, and the properties of whole runs.
\<close>

section \<open>The layout of the array\<close>

definition refresh_layout :: "PmRefreshState \<Rightarrow> PmRefreshEntry list \<Rightarrow> bool" where
  "refresh_layout s rows \<longleftrightarrow>
     rf_entries s = map Some rows @ replicate (MAX_PM_REFRESH_OBLIGATIONS - length rows) None
     \<and> rf_length s = length rows \<and> length rows \<le> MAX_PM_REFRESH_OBLIGATIONS
     \<and> sorted_by_key compare_of re_key rows"

lemma shift_up_split:
  assumes "length xs = i"
  shows "\<exists>es. shift_up i (length ys) (xs @ ys @ z # zs) = Some es \<and> es[i := x] = xs @ x # ys @ zs \<and> length es = Suc (length xs + length ys + length zs)"
proof (induction ys arbitrary: z zs rule: rev_induct)
  case Nil
  then show ?case using assms by (simp add: list_update_append)
next
  case (snoc y ys)
  have "(xs @ (ys @ [y]) @ z # zs)[i + length ys + 1 := (xs @ (ys @ [y]) @ z # zs) ! (i + length ys)] = xs @ ys @ y # y # zs"
    using assms by (simp add: list_update_append nth_append)
  then show ?case using snoc.IH [of y "y # zs"] assms by (simp add: Let_def)
qed

lemma shift_down_split:
  "length xs = i \<Longrightarrow> shift_down i (length ys) (xs @ w # ys @ zs) = Some (xs @ ys @ last (w # ys) # zs)"
proof (induction ys arbitrary: xs w i)
  case (Cons y ys)
  have "(xs @ w # (y # ys) @ zs)[i := (xs @ w # (y # ys) @ zs) ! (i + 1)] = (xs @ [y]) @ y # ys @ zs"
    using Cons.prems by (simp add: list_update_append nth_append)
  then show ?case using Cons.IH [of "xs @ [y]" "i + 1" y] Cons.prems by simp
qed simp

lemma layout_search:
  assumes "refresh_layout s rows"
  shows "refresh_search s k = Some (binary_search_by (\<lambda>e. compare_of (re_key e) k) rows)"
proof -
  have "occupied_prefix s = Some (map Some rows)"
    using assms by (simp add: refresh_layout_def occupied_prefix_def)
  moreover have "binary_search_try (\<lambda>entry. expect entry (\<lambda>entry. Some (compare_of (re_key entry) k))) (map Some rows)
      = Some (binary_search_by (\<lambda>e. compare_of (re_key e) k) (map the (map Some rows)))"
    by (rule binary_search_try_total) auto
  ultimately show ?thesis by (simp add: refresh_search_def comp_def)
qed

lemma layout_nth:
  "refresh_layout s rows \<Longrightarrow> i < length rows \<Longrightarrow> nth_entry (rf_entries s) i = Some (Some (rows ! i))"
  by (simp add: refresh_layout_def nth_entry_def nth_append)

lemma layout_replace:
  assumes "refresh_layout s rows" "i < length rows" "re_key e = re_key (rows ! i)"
    "rf_entries t = (rf_entries s)[i := Some e]" "rf_length t = rf_length s"
  shows "refresh_layout t (rows[i := e])"
  using assms key_index.sorted_replace [of re_key rows i e]
  by (simp add: refresh_layout_def list_update_append map_update)

lemma layout_insert:
  assumes "refresh_layout s rows" "length rows < MAX_PM_REFRESH_OBLIGATIONS"
    "binary_search_by (\<lambda>e. compare_of (re_key e) (re_key x)) rows = Err i"
  obtains es where "shift_up i (rf_length s - i) (rf_entries s) = Some es" "i < length es"
    "rf_entries t = es[i := Some x] \<Longrightarrow> rf_length t = rf_length s + 1 \<Longrightarrow> refresh_layout t (vec_insert i x rows)"
proof -
  let ?n = "MAX_PM_REFRESH_OBLIGATIONS - Suc (length rows)"
  have sorted: "sorted_by_key compare_of re_key rows" using assms(1) by (simp add: refresh_layout_def)
  have i: "i \<le> length rows" using key_index.search_Err [OF sorted assms(3)] by simp
  have n: "MAX_PM_REFRESH_OBLIGATIONS - length rows = Suc ?n" using assms(2) by simp
  have entries: "rf_entries s = map Some (take i rows) @ map Some (drop i rows) @ None # replicate ?n None"
    using assms(1) n by (simp add: refresh_layout_def flip: map_append append_assoc)
  obtain es where es: "shift_up i (length (map Some (drop i rows))) (rf_entries s) = Some es"
      "es[i := Some x] = map Some (take i rows) @ Some x # map Some (drop i rows) @ replicate ?n None"
      "length es = Suc (length (map Some (take i rows)) + length (map Some (drop i rows)) + ?n)"
    using shift_up_split [of "map Some (take i rows)" i "map Some (drop i rows)" None "replicate ?n None" "Some x"] i
    unfolding entries by auto
  show thesis
  proof (rule that [of es])
    show "shift_up i (rf_length s - i) (rf_entries s) = Some es" using es(1) assms(1) by (simp add: refresh_layout_def)
    show "i < length es" using es(3) i by simp
    assume "rf_entries t = es[i := Some x]" "rf_length t = rf_length s + 1"
    then show "refresh_layout t (vec_insert i x rows)"
      using es(2) assms key_index.sorted_insert [OF sorted assms(3) refl]
      by (simp add: refresh_layout_def) (simp add: vec_insert_def)
  qed
qed

lemma layout_remove:
  assumes "refresh_layout s rows" "i < length rows"
  obtains t where "refresh_remove s i = Some t" "refresh_layout t (vec_remove i rows)" "rf_owner t = rf_owner s"
    "rf_next_generation t = rf_next_generation s" "rf_full_reconcile_required t = rf_full_reconcile_required s"
proof -
  let ?zs = "replicate (MAX_PM_REFRESH_OBLIGATIONS - length rows) None :: PmRefreshEntry option list"
  let ?xs = "map Some (take i rows)" and ?ys = "map Some (drop (Suc i) rows)"
  have rows: "rows = take i rows @ rows ! i # drop (Suc i) rows" using assms(2) by (rule id_take_nth_drop)
  have entries: "rf_entries s = ?xs @ Some (rows ! i) # ?ys @ ?zs"
    using assms(1) arg_cong [OF rows, of "map Some"] by (simp add: refresh_layout_def)
  have n: "rf_length s - 1 - i = length ?ys" "rf_length s \<noteq> 0" "rf_length s - 1 = length (?xs @ ?ys)"
    using assms by (auto simp: refresh_layout_def)
  have es: "shift_down i (rf_length s - 1 - i) (rf_entries s) = Some (?xs @ ?ys @ last (Some (rows ! i) # ?ys) # ?zs)"
    unfolding n(1) entries using assms(2) by (intro shift_down_split) simp
  have upd: "(?xs @ ?ys @ last (Some (rows ! i) # ?ys) # ?zs)[rf_length s - 1 := None] = ?xs @ ?ys @ None # ?zs"
    unfolding n(3) by (simp only: append_assoc [symmetric] list_update_length)
  have "None # ?zs = replicate (MAX_PM_REFRESH_OBLIGATIONS - length (vec_remove i rows)) None"
    using assms by (simp add: refresh_layout_def flip: replicate_Suc) (simp add: Suc_diff_le)
  moreover have "sorted_by_key compare_of re_key (vec_remove i rows)"
    using assms by (simp add: refresh_layout_def key_index.sorted_remove)
  ultimately show thesis
    using assms es upd n by (intro that [of "s\<lparr>rf_entries := ?xs @ ?ys @ None # ?zs, rf_length := rf_length s - 1\<rparr>"])
      (auto simp: refresh_remove_def refresh_layout_def vec_remove_def)
qed

section \<open>The specification: a map of owed work\<close>

text \<open>
  What the table stands for: per key the generation last required and the generation in flight,
  the next generation and the request for a full reconciliation.
\<close>

record RefreshWork =
  ob_owner :: u64
  ob_work :: "PmRefreshKey \<rightharpoonup> u64 \<times> u64 option"
  ob_next :: u64
  ob_full :: bool

definition work_ticket :: "RefreshWork \<Rightarrow> PmRefreshKey \<Rightarrow> u64 \<Rightarrow> PmRefreshTicket" where
  "work_ticket w key generation = \<lparr>ticket_owner = ob_owner w, ticket_key = key, ticket_generation = generation\<rparr>"

definition issue_work ::
    "RefreshWork \<Rightarrow> PmRefreshKey \<Rightarrow> u64 option \<Rightarrow> (PmRefreshTicket \<Rightarrow> PmRefreshRequired)
      \<Rightarrow> RefreshWork \<times> (PmRefreshRequired, PmRefreshError) result" where
  "issue_work w key in_flight answer =
     (if ob_next w = - 1 then (w\<lparr>ob_full := True\<rparr>, Err GenerationExhausted)
      else (w\<lparr>ob_work := (ob_work w)(key \<mapsto> (ob_next w, in_flight)), ob_next := ob_next w + 1\<rparr>,
            Ok (answer (work_ticket w key (ob_next w)))))"

definition require_work :: "RefreshWork \<Rightarrow> PmRefreshKey \<Rightarrow> RefreshWork \<times> (PmRefreshRequired, PmRefreshError) result" where
  "require_work w key =
     (case ob_work w key of
        Some (generation, Some in_flight) \<Rightarrow>
          issue_work w key (Some in_flight) (\<lambda>ticket. SupersededInFlight ticket (work_ticket w key in_flight))
      | Some (generation, None) \<Rightarrow> (w, Ok (AlreadyRequired (work_ticket w key generation)))
      | None \<Rightarrow> if card (dom (ob_work w)) < 128 then issue_work w key None Inserted
          else (w\<lparr>ob_full := True\<rparr>, Ok (Saturated key)))"

definition admit_work :: "RefreshWork \<Rightarrow> PmRefreshTicket \<Rightarrow> RefreshWork \<times> PmRefreshAdmission" where
  "admit_work w ticket =
     (if ticket_owner ticket \<noteq> ob_owner w then (w, PmRefreshAdmission.Stale ticket)
      else case ob_work w (ticket_key ticket) of
        None \<Rightarrow> (w, NotRequired (ticket_key ticket))
      | Some (generation, in_flight) \<Rightarrow>
          if generation \<noteq> ticket_generation ticket then (w, PmRefreshAdmission.Stale ticket)
          else case in_flight of
            Some flying \<Rightarrow> (w, AlreadyInFlight (work_ticket w (ticket_key ticket) flying))
          | None \<Rightarrow> (w\<lparr>ob_work := (ob_work w)(ticket_key ticket \<mapsto> (generation, Some generation))\<rparr>, Admitted ticket))"

definition complete_work :: "RefreshWork \<Rightarrow> PmRefreshTicket \<Rightarrow> RefreshWork \<times> PmRefreshCompletion" where
  "complete_work w ticket =
     (if ticket_owner ticket \<noteq> ob_owner w then (w, PmRefreshCompletion.Stale ticket)
      else case ob_work w (ticket_key ticket) of
        None \<Rightarrow> (w, PmRefreshCompletion.Stale ticket)
      | Some (generation, in_flight) \<Rightarrow>
          if in_flight \<noteq> Some (ticket_generation ticket) then (w, PmRefreshCompletion.Stale ticket)
          else if generation = ticket_generation ticket
            then (w\<lparr>ob_work := (ob_work w)(ticket_key ticket := None)\<rparr>, Cleared ticket)
            else (w\<lparr>ob_work := (ob_work w)(ticket_key ticket \<mapsto> (generation, None))\<rparr>,
                  NewerRequirementRetained ticket (work_ticket w (ticket_key ticket) generation)))"

datatype PmRefreshOperation =
    Require PmRefreshKey
  | Admit PmRefreshTicket
  | Complete PmRefreshTicket
  | FullReconciliation

datatype PmRefreshAnswer =
    Requirement "(PmRefreshRequired, PmRefreshError) result"
  | Admission PmRefreshAdmission
  | Completion PmRefreshCompletion
  | Reconciled

primrec refresh_step :: "PmRefreshState \<Rightarrow> PmRefreshOperation \<Rightarrow> (PmRefreshState \<times> PmRefreshAnswer) option" where
  "refresh_step s (Require key) = map_option (\<lambda>(t, r). (t, Requirement r)) (refresh_require s key)"
| "refresh_step s (Admit ticket) = map_option (\<lambda>(t, r). (t, Admission r)) (mark_admitted s ticket)"
| "refresh_step s (Complete ticket) = map_option (\<lambda>(t, r). (t, Completion r)) (refresh_complete s ticket)"
| "refresh_step s FullReconciliation = Some (complete_full_reconciliation s, Reconciled)"

primrec work_step :: "RefreshWork \<Rightarrow> PmRefreshOperation \<Rightarrow> RefreshWork \<times> PmRefreshAnswer" where
  "work_step w (Require key) = (case require_work w key of (v, r) \<Rightarrow> (v, Requirement r))"
| "work_step w (Admit ticket) = (case admit_work w ticket of (v, r) \<Rightarrow> (v, Admission r))"
| "work_step w (Complete ticket) = (case complete_work w ticket of (v, r) \<Rightarrow> (v, Completion r))"
| "work_step w FullReconciliation = (w\<lparr>ob_full := False\<rparr>, Reconciled)"

section \<open>The table implements the map\<close>

definition work_of :: "PmRefreshEntry \<Rightarrow> u64 \<times> u64 option" where
  "work_of e = (re_required_generation e, re_in_flight_generation e)"

definition work_map :: "PmRefreshEntry list \<Rightarrow> PmRefreshKey \<rightharpoonup> u64 \<times> u64 option" where
  "work_map rows = (\<lambda>key. map_option work_of (index_map re_key rows key))"

definition refresh_rows :: "PmRefreshState \<Rightarrow> PmRefreshEntry list" where
  "refresh_rows s = map the (take (rf_length s) (rf_entries s))"

definition refresh_inv :: "PmRefreshState \<Rightarrow> bool" where
  "refresh_inv s \<longleftrightarrow> refresh_layout s (refresh_rows s)"

definition refresh_work :: "PmRefreshState \<Rightarrow> RefreshWork" where
  "refresh_work s = \<lparr>ob_owner = rf_owner s, ob_work = work_map (refresh_rows s), ob_next = rf_next_generation s,
     ob_full = rf_full_reconcile_required s\<rparr>"

lemma layout_rows: "refresh_layout s rows \<Longrightarrow> refresh_rows s = rows"
  by (simp add: refresh_layout_def refresh_rows_def comp_def)

lemma layout_inv: "refresh_layout s rows \<Longrightarrow> refresh_inv s"
  by (simp add: refresh_inv_def layout_rows)

lemma layout_sorted: "refresh_layout s rows \<Longrightarrow> sorted_by_key compare_of re_key rows"
  by (simp add: refresh_layout_def)

lemma layout_cong:
  "rf_entries t = rf_entries s \<Longrightarrow> rf_length t = rf_length s \<Longrightarrow> refresh_layout t rows \<longleftrightarrow> refresh_layout s rows"
  by (simp add: refresh_layout_def)

lemma work_map_nth:
  "sorted_by_key compare_of re_key rows \<Longrightarrow> i < length rows \<Longrightarrow> work_map rows (re_key (rows ! i)) = Some (work_of (rows ! i))"
  by (simp add: work_map_def key_index.index_map_nth)

lemma work_map_replace:
  "sorted_by_key compare_of re_key rows \<Longrightarrow> i < length rows \<Longrightarrow> re_key e = re_key (rows ! i) \<Longrightarrow>
     work_map (rows[i := e]) = (work_map rows)(re_key e \<mapsto> work_of e)"
  by (simp add: work_map_def key_index.index_map_replace fun_eq_iff)

lemma work_map_remove:
  "sorted_by_key compare_of re_key rows \<Longrightarrow> i < length rows \<Longrightarrow>
     work_map (vec_remove i rows) = (work_map rows)(re_key (rows ! i) := None)"
  by (simp add: work_map_def key_index.index_map_remove fun_eq_iff)

lemma work_map_insert:
  "sorted_by_key compare_of re_key rows \<Longrightarrow> binary_search_by (\<lambda>e. compare_of (re_key e) (re_key x)) rows = Err i \<Longrightarrow>
     work_map (vec_insert i x rows) = (work_map rows)(re_key x \<mapsto> work_of x)"
  by (simp add: work_map_def key_index.index_map_insert [OF _ _ refl] fun_eq_iff)

lemma work_map_absent:
  "sorted_by_key compare_of re_key rows \<Longrightarrow> binary_search_by (\<lambda>e. compare_of (re_key e) k) rows = Err i \<Longrightarrow> work_map rows k = None"
  by (simp add: work_map_def key_index.index_map_None key_index.search_Err_absent)

lemma card_work_map: "sorted_by_key compare_of re_key rows \<Longrightarrow> card (dom (work_map rows)) = length rows"
proof -
  assume "sorted_by_key compare_of re_key rows"
  then have "distinct (map re_key rows)" by (rule key_index.sorted_by_key_distinct)
  moreover have "dom (work_map rows) = set (map re_key rows)"
    using key_index.index_map_None [of re_key rows] by (force simp: work_map_def dom_def)
  ultimately show ?thesis using distinct_card [of "map re_key rows"] by simp
qed

lemma layout_search_cases:
  assumes "refresh_layout s rows"
  obtains (found) i where "refresh_search s k = Some (Ok i)" "i < length rows" "re_key (rows ! i) = k"
      "work_map rows k = Some (work_of (rows ! i))" "nth_entry (rf_entries s) i = Some (Some (rows ! i))"
  | (absent) i where "refresh_search s k = Some (Err i)" "work_map rows k = None"
      "binary_search_by (\<lambda>e. compare_of (re_key e) k) rows = Err i"
proof (cases "binary_search_by (\<lambda>e. compare_of (re_key e) k) rows")
  case (Ok i)
  then show thesis
    using key_index.search_Ok [OF layout_sorted [OF assms] Ok] work_map_nth [OF layout_sorted [OF assms], of i]
    by (intro found [of i]) (simp_all add: layout_search [OF assms] layout_nth [OF assms])
next
  case (Err i)
  then show thesis
    by (intro absent [of i]) (simp_all add: layout_search [OF assms] work_map_absent [OF layout_sorted [OF assms] Err])
qed

lemma not_max_word: "unat n + 1 < 2 ^ 64 \<longleftrightarrow> n \<noteq> (- 1 :: u64)"
  using unsigned_less [of n, where ?'a = nat]
  by (auto simp: word_unat_eq_iff unsigned_minus_1_eq_mask mask_eq_exp_minus_1)

lemma word_less_succ: "n \<noteq> (- 1 :: u64) \<Longrightarrow> n < n + 1"
  using not_max_word [of n] by (simp add: word_less_nat_alt unat_word_ariths)

lemma issue_generation_eq:
  "issue_generation s =
     (if rf_next_generation s = - 1 then (s\<lparr>rf_full_reconcile_required := True\<rparr>, Err GenerationExhausted)
      else (s\<lparr>rf_next_generation := rf_next_generation s + 1\<rparr>, Ok (rf_next_generation s)))"
  using not_max_word [of "rf_next_generation s"] by (simp add: issue_generation_def checked_add_word_def)

lemma refresh_bump_simps [simp]:
  "rf_entries (refresh_bump f s) = rf_entries s" "rf_length (refresh_bump f s) = rf_length s"
  "rf_owner (refresh_bump f s) = rf_owner s" "rf_next_generation (refresh_bump f s) = rf_next_generation s"
  "rf_full_reconcile_required (refresh_bump f s) = rf_full_reconcile_required s"
  by (simp_all add: refresh_bump_def)

lemma refresh_work_eq:
  "refresh_layout s rows \<Longrightarrow> refresh_work s = \<lparr>ob_owner = rf_owner s, ob_work = work_map rows, ob_next = rf_next_generation s,
     ob_full = rf_full_reconcile_required s\<rparr>"
  by (simp add: refresh_work_def layout_rows)

text \<open>One step refines when its state is laid out as the rows of the specification's next map.\<close>

definition implements :: "(PmRefreshState \<times> 'o) option \<Rightarrow> RefreshWork \<times> 'o \<Rightarrow> bool" where
  "implements out spec \<longleftrightarrow> (\<exists>t rows. out = Some (t, snd spec) \<and> refresh_layout t rows
     \<and> fst spec = \<lparr>ob_owner = rf_owner t, ob_work = work_map rows, ob_next = rf_next_generation t,
         ob_full = rf_full_reconcile_required t\<rparr>)"

lemma implementsI:
  assumes "out = Some (t, r)" "refresh_layout t rows"
    "spec = (\<lparr>ob_owner = rf_owner t, ob_work = work_map rows, ob_next = rf_next_generation t,
         ob_full = rf_full_reconcile_required t\<rparr>, r)"
  shows "implements out spec"
  using assms by (auto simp: implements_def)

lemma insert_implements:
  assumes lay: "refresh_layout s rows" and room: "length rows < MAX_PM_REFRESH_OBLIGATIONS"
    and i: "binary_search_by (\<lambda>e. compare_of (re_key e) key) rows = Err i"
  shows "implements (insert_obligation s i key) (issue_work (refresh_work s) key None Inserted)"
proof (cases "rf_next_generation s = - 1")
  case True
  have "refresh_layout (s\<lparr>rf_full_reconcile_required := True\<rparr>) rows" using lay by (simp add: refresh_layout_def)
  with True show ?thesis
    by (auto simp: implements_def insert_obligation_def issue_work_def issue_generation_eq refresh_work_eq [OF lay])
next
  case False
  let ?x = "\<lparr>re_key = key, re_required_generation = rf_next_generation s, re_in_flight_generation = None\<rparr>"
  have i': "binary_search_by (\<lambda>e. compare_of (re_key e) (re_key ?x)) rows = Err i" using i by simp
  define t where "t es = s\<lparr>rf_next_generation := rf_next_generation s + 1, rf_entries := es[i := Some ?x],
      rf_length := rf_length s + 1, rf_counters := rc_high_water_update (\<lambda>n. max n (rf_length s + 1)) (rf_counters s)\<rparr>" for es
  obtain es where es: "shift_up i (rf_length s - i) (rf_entries s) = Some es" "i < length es"
    "refresh_layout (t es) (vec_insert i ?x rows)"
  proof -
    obtain es where "shift_up i (rf_length s - i) (rf_entries s) = Some es" "i < length es"
      by (rule layout_insert [OF lay room i'])
    moreover have "refresh_layout (t es) (vec_insert i ?x rows)"
      using calculation by (auto simp: t_def intro: layout_insert [OF lay room i', of "t es"])
    ultimately show thesis by (rule that)
  qed
  show ?thesis
    by (rule implementsI [OF _ es(3), of _ "Ok (Inserted (work_ticket (refresh_work s) key (rf_next_generation s)))"])
      (use es False in \<open>simp_all add: insert_obligation_def issue_work_def issue_generation_eq refresh_work_eq [OF lay] t_def
        required_ticket_def work_ticket_def work_map_insert [OF layout_sorted [OF lay] i'] work_of_def Let_def\<close>)
qed

lemma supersede_implements:
  assumes lay: "refresh_layout s rows" and i: "i < length rows" "re_in_flight_generation (rows ! i) = Some flying"
    and key: "re_key (rows ! i) = key"
  shows "implements
      (and_then (Some (issue_generation s)) (\<lambda>s generation.
         let updated = (rows ! i)\<lparr>re_required_generation := generation\<rparr>;
             s = refresh_bump rc_superseded_in_flight_update (s\<lparr>rf_entries := (rf_entries s)[i := Some updated]\<rparr>)
         in Some (s, Ok (SupersededInFlight (required_ticket (rf_owner s) updated) in_flight))))
      (issue_work (refresh_work s) key (Some flying) (\<lambda>ticket. SupersededInFlight ticket in_flight))"
proof (cases "rf_next_generation s = - 1")
  case True
  have "refresh_layout (s\<lparr>rf_full_reconcile_required := True\<rparr>) rows" using lay by (simp add: refresh_layout_def)
  with True show ?thesis
    by (auto simp: implements_def issue_work_def issue_generation_eq refresh_work_eq [OF lay])
next
  case False
  let ?e = "(rows ! i)\<lparr>re_required_generation := rf_next_generation s\<rparr>"
  have map: "work_map (rows[i := ?e]) = (work_map rows)(key \<mapsto> (rf_next_generation s, Some flying))"
    using work_map_replace [OF layout_sorted [OF lay] i(1), of ?e] i(2) key by (simp add: work_of_def)
  have lay': "refresh_layout (refresh_bump rc_superseded_in_flight_update
      (s\<lparr>rf_next_generation := rf_next_generation s + 1, rf_entries := (rf_entries s)[i := Some ?e]\<rparr>)) (rows[i := ?e])"
    by (rule layout_replace [OF lay i(1)]) simp_all
  show ?thesis
    by (rule implementsI [OF _ lay', of _ "Ok (SupersededInFlight (work_ticket (refresh_work s) key (rf_next_generation s)) in_flight)"])
      (use False map key in \<open>simp_all add: issue_work_def issue_generation_eq refresh_work_eq [OF lay] required_ticket_def
        work_ticket_def\<close>)
qed

lemma require_implements:
  assumes "refresh_layout s rows"
  shows "implements (refresh_require s key) (require_work (refresh_work s) key)"
proof -
  let ?s = "refresh_bump rc_requirements_update s"
  have lay: "refresh_layout ?s rows" using assms by (simp add: layout_cong [of ?s s])
  have work: "refresh_work s = refresh_work ?s" by (simp add: refresh_work_eq [OF assms] refresh_work_eq [OF lay])
  have "implements (refresh_require s key) (require_work (refresh_work ?s) key)" (is ?goal)
    using lay
  proof (cases rule: layout_search_cases [where k = key])
    case (found i)
    show ?goal
    proof (cases "re_in_flight_generation (rows ! i)")
      case None
      have lay': "refresh_layout (refresh_bump rc_deduplicated_update ?s) rows" using lay by (simp add: refresh_layout_def)
      show ?goal
        by (rule implementsI [OF _ lay', of _ "Ok (AlreadyRequired (required_ticket (rf_owner s) (rows ! i)))"])
          (use found None in \<open>simp_all add: refresh_require_def require_work_def refresh_work_eq [OF lay]
            in_flight_ticket_def work_of_def required_ticket_def work_ticket_def\<close>)
    next
      case (Some flying)
      show ?goal
        using supersede_implements [OF lay found(2) Some found(3), of "work_ticket (refresh_work ?s) key flying"] found Some
        by (simp add: refresh_require_def require_work_def refresh_work_eq [OF lay] in_flight_ticket_def work_of_def work_ticket_def)
    qed
  next
    case (absent i)
    show ?goal
    proof (cases "length rows < MAX_PM_REFRESH_OBLIGATIONS")
      case True
      then show ?goal
        using insert_implements [OF lay True absent(3)] absent lay
        by (simp add: refresh_require_def require_work_def refresh_work_eq [OF lay] card_work_map [OF layout_sorted [OF lay]]
          refresh_layout_def MAX_PM_REFRESH_OBLIGATIONS_def)
    next
      case False
      have lay': "refresh_layout (refresh_bump rc_saturations_update (?s\<lparr>rf_full_reconcile_required := True\<rparr>)) rows"
        using lay by (simp add: refresh_layout_def)
      show ?goal
        by (rule implementsI [OF _ lay', of _ "Ok (Saturated key)"])
          (use absent False lay in \<open>simp_all add: refresh_require_def require_work_def refresh_work_eq [OF lay]
            card_work_map [OF layout_sorted [OF lay]] refresh_layout_def MAX_PM_REFRESH_OBLIGATIONS_def\<close>)
    qed
  qed
  then show ?thesis unfolding work .
qed

lemma admit_implements:
  assumes lay: "refresh_layout s rows"
  shows "implements (mark_admitted s ticket) (admit_work (refresh_work s) ticket)"
  using lay
proof (cases rule: layout_search_cases [where k = "ticket_key ticket"])
  case (found i)
  show ?thesis
  proof (cases "ticket_owner ticket = rf_owner s \<and> re_required_generation (rows ! i) = ticket_generation ticket
      \<and> re_in_flight_generation (rows ! i) = None")
    case True
    let ?e = "(rows ! i)\<lparr>re_in_flight_generation := Some (re_required_generation (rows ! i))\<rparr>"
    have lay': "refresh_layout (refresh_bump rc_admissions_update (s\<lparr>rf_entries := (rf_entries s)[i := Some ?e]\<rparr>)) (rows[i := ?e])"
      by (rule layout_replace [OF lay found(2)]) simp_all
    show ?thesis
      by (rule implementsI [OF _ lay', of _ "Admitted ticket"])
        (use found True work_map_replace [OF layout_sorted [OF lay] found(2), of ?e] in
          \<open>auto simp: mark_admitted_def admit_work_def refresh_work_eq [OF lay] in_flight_ticket_def work_of_def required_ticket_def\<close>)
  next
    case False
    then show ?thesis using found
      by (auto intro!: implementsI [OF _ lay] simp: mark_admitted_def admit_work_def refresh_work_eq [OF lay]
        in_flight_ticket_def work_of_def work_ticket_def)
  qed
next
  case (absent i)
  then show ?thesis
    by (auto intro!: implementsI [OF _ lay] simp: mark_admitted_def admit_work_def refresh_work_eq [OF lay])
qed

lemma complete_implements:
  assumes lay: "refresh_layout s rows"
  shows "implements (refresh_complete s ticket) (complete_work (refresh_work s) ticket)"
proof -
  have bumped: "refresh_layout (refresh_bump f s) rows" for f using lay by (simp add: refresh_layout_def)
  show ?thesis
    using lay
  proof (cases rule: layout_search_cases [where k = "ticket_key ticket"])
    case (found i)
    let ?c = "refresh_bump rc_completions_update s"
    consider (stale) "ticket_owner ticket \<noteq> rf_owner s \<or> re_in_flight_generation (rows ! i) \<noteq> Some (ticket_generation ticket)"
      | (cleared) "ticket_owner ticket = rf_owner s" "re_in_flight_generation (rows ! i) = Some (ticket_generation ticket)"
          "re_required_generation (rows ! i) = ticket_generation ticket"
      | (newer) "ticket_owner ticket = rf_owner s" "re_in_flight_generation (rows ! i) = Some (ticket_generation ticket)"
          "re_required_generation (rows ! i) \<noteq> ticket_generation ticket" by blast
    then show ?thesis
    proof cases
      case stale
      then show ?thesis using found
        by (intro implementsI [OF _ bumped, of _ rc_stale_completions_update "PmRefreshCompletion.Stale ticket"])
          (auto simp: Let_def refresh_complete_def complete_work_def refresh_work_eq [OF lay] work_of_def)
    next
      case cleared
      obtain t where t: "refresh_remove ?c i = Some t" "refresh_layout t (vec_remove i rows)" "rf_owner t = rf_owner ?c"
        "rf_next_generation t = rf_next_generation ?c" "rf_full_reconcile_required t = rf_full_reconcile_required ?c"
        by (rule layout_remove [OF bumped found(2)])
      show ?thesis
        by (rule implementsI [OF _ t(2), of _ "Cleared ticket"])
          (use found cleared t in \<open>simp_all add: Let_def refresh_complete_def complete_work_def refresh_work_eq [OF lay] work_of_def
            work_map_remove [OF layout_sorted [OF lay]]\<close>)
    next
      case newer
      let ?e = "(rows ! i)\<lparr>re_in_flight_generation := None\<rparr>"
      have lay': "refresh_layout (?c\<lparr>rf_entries := (rf_entries s)[i := Some ?e]\<rparr>) (rows[i := ?e])"
        by (rule layout_replace [OF bumped found(2)]) simp_all
      show ?thesis
        by (rule implementsI [OF _ lay', of _ "NewerRequirementRetained ticket (required_ticket (rf_owner s) ?e)"])
          (use found newer work_map_replace [OF layout_sorted [OF lay] found(2), of ?e] in
            \<open>auto simp: Let_def refresh_complete_def complete_work_def refresh_work_eq [OF lay] work_of_def required_ticket_def work_ticket_def\<close>)
    qed
  next
    case (absent i)
    then show ?thesis
      by (intro implementsI [OF _ bumped, of _ rc_stale_completions_update "PmRefreshCompletion.Stale ticket"])
        (auto simp: Let_def refresh_complete_def complete_work_def refresh_work_eq [OF lay])
  qed
qed

lemma implements_step:
  assumes "implements out spec"
  shows "\<exists>t. map_option (\<lambda>(t, r). (t, answer r)) out = Some (t, answer (snd spec)) \<and> refresh_work t = fst spec \<and> refresh_inv t"
  using assms by (auto simp: implements_def refresh_work_eq layout_inv)

interpretation refresh: simulation refresh_step work_step refresh_inv refresh_work
proof
  fix s op
  assume "refresh_inv s"
  then have lay: "refresh_layout s (refresh_rows s)" by (simp add: refresh_inv_def)
  show "\<exists>t out. refresh_step s op = Some (t, out) \<and> work_step (refresh_work s) op = (refresh_work t, out) \<and> refresh_inv t"
  proof (cases op)
    case (Require key)
    then show ?thesis using implements_step [OF require_implements [OF lay, of key], of Requirement]
      by (auto split: prod.splits)
  next
    case (Admit ticket)
    then show ?thesis using implements_step [OF admit_implements [OF lay, of ticket], of Admission]
      by (auto split: prod.splits)
  next
    case (Complete ticket)
    then show ?thesis using implements_step [OF complete_implements [OF lay, of ticket], of Completion]
      by (auto split: prod.splits)
  next
    case FullReconciliation
    have "refresh_layout (complete_full_reconciliation s) (refresh_rows s)"
      using lay by (simp add: refresh_layout_def complete_full_reconciliation_def)
    then show ?thesis
      using FullReconciliation by (auto simp: refresh_work_eq layout_inv refresh_work_eq [OF lay] complete_full_reconciliation_def)
  qed
qed

section \<open>Owed work is not lost\<close>

definition work_ok :: "RefreshWork \<Rightarrow> bool" where
  "work_ok w \<longleftrightarrow> (\<forall>key generation in_flight. ob_work w key = Some (generation, in_flight) \<longrightarrow>
     generation < ob_next w \<and> (\<forall>flying. in_flight = Some flying \<longrightarrow> flying \<le> generation))"

lemma work_okD:
  assumes "work_ok w" "ob_work w key = Some (generation, in_flight)"
  shows "generation < ob_next w" "in_flight = Some flying \<Longrightarrow> flying \<le> generation"
  using assms unfolding work_ok_def by blast+

lemma work_ok_update:
  assumes "work_ok w" "generation < next_generation" "ob_next w \<le> next_generation"
    "\<And>flying. in_flight = Some flying \<Longrightarrow> flying \<le> generation"
  shows "work_ok (w\<lparr>ob_work := (ob_work w)(key \<mapsto> (generation, in_flight)), ob_next := next_generation\<rparr>)"
  using assms unfolding work_ok_def by (auto split: if_splits dest: less_le_trans)

lemma work_ok_issue:
  assumes ok: "work_ok w" and flying: "\<And>flying. in_flight = Some flying \<Longrightarrow> flying \<le> ob_next w"
  shows "work_ok (fst (issue_work w key in_flight answer))"
proof (cases "ob_next w = - 1")
  case True then show ?thesis using ok by (simp add: issue_work_def work_ok_def)
next
  case False
  note less = word_less_succ [OF False]
  show ?thesis
    using False work_ok_update [OF ok less less_imp_le [OF less], of in_flight key] flying by (simp add: issue_work_def)
qed

lemma work_ok_require:
  assumes ok: "work_ok w"
  shows "work_ok (fst (require_work w key))"
proof (cases "ob_work w key")
  case None
  then show ?thesis using work_ok_issue [OF ok, of None key Inserted] ok
    by (simp add: require_work_def work_ok_def [of "w\<lparr>ob_full := True\<rparr>"]) (simp add: work_ok_def)
next
  case (Some entry)
  obtain generation in_flight where entry: "entry = (generation, in_flight)" by (cases entry)
  have "in_flight = Some flying \<Longrightarrow> flying \<le> ob_next w" for flying
    using work_okD(1) [OF ok Some [unfolded entry]] work_okD(2) [OF ok Some [unfolded entry], of flying] by simp
  then show ?thesis
    using Some ok work_ok_issue [OF ok, of in_flight key] by (auto simp: require_work_def entry split: option.split)
qed

lemma work_ok_same_next:
  "work_ok w \<Longrightarrow> generation < ob_next w \<Longrightarrow> (\<And>flying. in_flight = Some flying \<Longrightarrow> flying \<le> generation) \<Longrightarrow>
     work_ok (w\<lparr>ob_work := (ob_work w)(key \<mapsto> (generation, in_flight))\<rparr>)"
  unfolding work_ok_def by (auto split: if_splits)

lemma work_ok_step:
  assumes ok: "work_ok w"
  shows "work_ok (fst (work_step w op))"
proof (cases op)
  case (Require key)
  then show ?thesis using work_ok_require [OF ok, of key] by (auto split: prod.split)
next
  case (Admit ticket)
  then show ?thesis using ok work_okD [OF ok, of "ticket_key ticket"]
    by (auto simp: admit_work_def intro!: work_ok_same_next split: option.split)
next
  case (Complete ticket)
  then show ?thesis using ok work_okD [OF ok, of "ticket_key ticket"]
    by (auto simp: complete_work_def intro!: work_ok_same_next split: option.split) (auto simp: work_ok_def split: if_splits)
next
  case FullReconciliation
  then show ?thesis using ok by (simp add: work_ok_def)
qed

lemma work_step_owner: "ob_owner (fst (work_step w op)) = ob_owner w"
  by (cases op) (auto simp: require_work_def issue_work_def admit_work_def complete_work_def split: option.split)

text \<open>
  What one step does to the work owed for a key: it is cleared by the completion of the
  generation last required, or it stays owed, at least as new, and in flight only by an admission.
\<close>

lemma step_survives:
  assumes ok: "work_ok w" and owed: "ob_work w key = Some (generation, in_flight)" and step: "work_step w op = (v, answer)"
  shows "(\<exists>newer flying. ob_work v key = Some (newer, flying) \<and> generation \<le> newer
       \<and> (flying = in_flight \<or> flying = None
          \<or> (answer = Admission (Admitted (work_ticket w key newer)) \<and> flying = Some newer)))
    \<or> (answer = Completion (Cleared (work_ticket w key generation)) \<and> in_flight = Some generation)"
proof (cases "ob_work v key = ob_work w key")
  case True
  then show ?thesis using owed by auto
next
  case False
  have le: "generation \<le> ob_next w" using work_okD(1) [OF ok owed] by simp
  show ?thesis
    using step owed False le
    by (cases op) (auto simp: require_work_def issue_work_def admit_work_def complete_work_def work_ticket_def
      split: option.splits if_splits prod.splits)
qed

lemma run_survives:
  assumes "work_ok w" "ob_work w key = Some (newer, in_flight)" "generation \<le> newer"
    and "\<And>flying. in_flight = Some flying \<Longrightarrow> generation \<le> flying \<Longrightarrow> Admission (Admitted (work_ticket w key flying)) \<in> admitted"
    and "spec_outputs work_step w later = (v, outs)"
  shows "(\<exists>newest flying. ob_work v key = Some (newest, flying) \<and> generation \<le> newest)
    \<or> (\<exists>ticket. Admission (Admitted ticket) \<in> admitted \<union> set outs \<and> Completion (Cleared ticket) \<in> set outs
        \<and> ticket_key ticket = key \<and> generation \<le> ticket_generation ticket)"
  using assms
proof (induction later arbitrary: w newer in_flight admitted outs)
  case (Cons op later)
  obtain u answer where u: "work_step w op = (u, answer)" by (cases "work_step w op")
  obtain rest where rest: "spec_outputs work_step u later = (v, rest)" "outs = answer # rest"
    using Cons.prems(5) u by (auto split: prod.splits)
  have ok: "work_ok u" and owner: "work_ticket u = work_ticket w"
    using work_ok_step [OF Cons.prems(1), of op] work_step_owner [of w op] u by (auto simp: work_ticket_def fun_eq_iff)
  from step_survives [OF Cons.prems(1,2) u] show ?case
  proof
    assume "\<exists>newest flying. ob_work u key = Some (newest, flying) \<and> newer \<le> newest \<and> (flying = in_flight \<or> flying = None
      \<or> (answer = Admission (Admitted (work_ticket w key newest)) \<and> flying = Some newest))"
    then obtain newest flying where kept: "ob_work u key = Some (newest, flying)" "newer \<le> newest"
      and or: "flying = in_flight \<or> flying = None \<or> (answer = Admission (Admitted (work_ticket w key newest)) \<and> flying = Some newest)"
      by blast
    have "Admission (Admitted (work_ticket u key x)) \<in> insert answer admitted" if "flying = Some x" "generation \<le> x" for x
      using or that Cons.prems(4) by (auto simp: owner)
    from Cons.IH [OF ok kept(1) order_trans [OF Cons.prems(3) kept(2)] this rest(1)] show ?case
      unfolding rest(2) by auto
  next
    assume "answer = Completion (Cleared (work_ticket w key newer)) \<and> in_flight = Some newer"
    then show ?case using Cons.prems(3) Cons.prems(4) [of newer]
      by (intro disjI2 exI [of _ "work_ticket w key newer"]) (auto simp: rest(2) work_ticket_def)
  qed
qed auto

section \<open>Properties\<close>

lemma refresh_new_inv: "refresh_inv (PmRefreshState_new owner)"
  by (rule layout_inv [of _ "[]"]) (simp add: refresh_layout_def PmRefreshState_new_def sorted_by_key_def)

lemma refresh_new_work:
  "refresh_work (PmRefreshState_new owner) = \<lparr>ob_owner = owner, ob_work = Map.empty, ob_next = 1, ob_full = False\<rparr>"
  by (simp add: refresh_work_def refresh_rows_def PmRefreshState_new_def work_map_def index_map_def)

lemma work_ok_run: "work_ok w \<Longrightarrow> spec_outputs work_step w operations = (v, outs) \<Longrightarrow> work_ok v \<and> ob_owner v = ob_owner w"
proof (induction operations arbitrary: w outs)
  case (Cons op operations)
  then show ?case using work_ok_step [of w op] work_step_owner [of w op] by (force split: prod.splits)
qed simp

lemma refresh_reachable:
  assumes "run_outputs refresh_step (PmRefreshState_new owner) operations = Some (s, outs)"
  shows "refresh_inv s" "work_ok (refresh_work s)" "rf_owner s = owner"
proof -
  note run = refresh.run_inv [OF refresh_new_inv assms]
  show "refresh_inv s" by (rule run(1))
  have "work_ok (refresh_work (PmRefreshState_new owner))" by (simp add: refresh_new_work work_ok_def)
  from work_ok_run [OF this run(2)] show "work_ok (refresh_work s)" "rf_owner s = owner"
    by (simp_all add: refresh_new_work) (simp add: refresh_work_def)
qed

lemma refresh_inv_entries:
  "refresh_inv s \<Longrightarrow> ob_work (refresh_work s) key = Some (generation, in_flight) \<Longrightarrow>
     \<exists>entry. Some entry \<in> set (rf_entries s) \<and> re_key entry = key \<and> re_required_generation entry = generation"
  by (auto simp: refresh_inv_def refresh_layout_def refresh_work_def work_map_def work_of_def dest!: key_index.index_map_Some_key)

lemma refresh_pending_rows:
  assumes "refresh_inv s"
  shows "refresh_pending s = Some (map (required_ticket (rf_owner s)) (filter (\<lambda>e. re_in_flight_generation e = None) (refresh_rows s)))"
    "pending_keys s = Some (map re_key (filter (\<lambda>e. re_in_flight_generation e = None) (refresh_rows s)))"
proof -
  have "occupied_prefix s = Some (map Some (refresh_rows s))"
    using assms by (simp add: refresh_inv_def refresh_layout_def occupied_prefix_def)
  moreover have "List.map_filter (\<lambda>entry. entry) (map Some rows) = rows" for rows :: "PmRefreshEntry list"
    by (simp add: map_filter_def comp_def)
  ultimately show "refresh_pending s = Some (map (required_ticket (rf_owner s)) (filter (\<lambda>e. re_in_flight_generation e = None) (refresh_rows s)))"
    "pending_keys s = Some (map re_key (filter (\<lambda>e. re_in_flight_generation e = None) (refresh_rows s)))"
    by (simp_all add: refresh_pending_def pending_keys_def)
qed

lemma refresh_pending_exact:
  assumes "refresh_inv s"
  obtains tickets where "refresh_pending s = Some tickets" "pending_keys s = Some (map ticket_key tickets)"
    "sorted_wrt (<) (map ticket_key tickets)"
    "set tickets = {ticket. ticket_owner ticket = rf_owner s
       \<and> ob_work (refresh_work s) (ticket_key ticket) = Some (ticket_generation ticket, None)}"
proof -
  let ?rows = "refresh_rows s"
  let ?tickets = "map (required_ticket (rf_owner s)) (filter (\<lambda>e. re_in_flight_generation e = None) ?rows)"
  have sorted: "sorted_by_key compare_of re_key ?rows" using assms by (simp add: refresh_inv_def refresh_layout_def)
  have keys: "map ticket_key ?tickets = map re_key (filter (\<lambda>e. re_in_flight_generation e = None) ?rows)"
    by (simp add: required_ticket_def)
  have "sorted_wrt (<) (map ticket_key ?tickets)"
    using sorted unfolding keys by (simp add: sorted_by_key_def sorted_wrt_map sorted_wrt_filter)
  moreover have "ticket \<in> set ?tickets \<longleftrightarrow> ticket_owner ticket = rf_owner s
       \<and> ob_work (refresh_work s) (ticket_key ticket) = Some (ticket_generation ticket, None)" (is "?l \<longleftrightarrow> ?r") for ticket
  proof
    assume ?l
    then obtain i where "i < length ?rows" "re_in_flight_generation (?rows ! i) = None" "ticket = required_ticket (rf_owner s) (?rows ! i)"
      by (auto simp: in_set_conv_nth)
    then show ?r using work_map_nth [OF sorted, of i] by (simp add: required_ticket_def refresh_work_def work_of_def)
  next
    assume ?r
    then obtain e where "index_map re_key ?rows (ticket_key ticket) = Some e" "work_of e = (ticket_generation ticket, None)"
      by (auto simp: refresh_work_def work_map_def)
    with \<open>?r\<close> show ?l
      using key_index.index_map_Some_key [of re_key ?rows "ticket_key ticket" e]
      by (cases ticket) (auto simp: work_of_def required_ticket_def intro!: image_eqI [of _ _ e])
  qed
  ultimately show thesis using that [of ?tickets] refresh_pending_rows [OF assms] keys by auto
qed

text \<open>
  C10: on every sequence of calls, the table of refresh obligations never panics and answers what
  the map of owed work answers: a requirement is inserted, deduplicated, supersedes the work in
  flight, saturates at 128 keys or exhausts the generations; a ticket is admitted once and only
  at the generation required; a completion clears only the generation required.  The table has
  one entry per owed key, and the pending tickets are the owed ones not in flight, in key order.
\<close>

theorem refresh_refines_work:
  "\<exists>s outs tickets. run_outputs refresh_step (PmRefreshState_new owner) operations = Some (s, outs)
     \<and> spec_outputs work_step \<lparr>ob_owner = owner, ob_work = Map.empty, ob_next = 1, ob_full = False\<rparr> operations
         = (refresh_work s, outs)
     \<and> rf_length s = card (dom (ob_work (refresh_work s))) \<and> rf_length s \<le> 128
     \<and> refresh_pending s = Some tickets \<and> pending_keys s = Some (map ticket_key tickets)
     \<and> sorted_wrt (<) (map ticket_key tickets)
     \<and> set tickets = {ticket. ticket_owner ticket = owner
         \<and> ob_work (refresh_work s) (ticket_key ticket) = Some (ticket_generation ticket, None)}"
proof -
  obtain s outs where run: "run_outputs refresh_step (PmRefreshState_new owner) operations = Some (s, outs)"
    and spec: "spec_outputs work_step (refresh_work (PmRefreshState_new owner)) operations = (refresh_work s, outs)"
    and inv: "refresh_inv s"
    using refresh.run_refines [OF refresh_new_inv] by blast
  obtain tickets where "refresh_pending s = Some tickets" "pending_keys s = Some (map ticket_key tickets)"
    "sorted_wrt (<) (map ticket_key tickets)"
    "set tickets = {ticket. ticket_owner ticket = rf_owner s
       \<and> ob_work (refresh_work s) (ticket_key ticket) = Some (ticket_generation ticket, None)}"
    by (rule refresh_pending_exact [OF inv])
  moreover have "rf_length s = card (dom (ob_work (refresh_work s)))" "rf_length s \<le> 128"
    using inv by (simp_all add: refresh_inv_def refresh_work_def refresh_layout_def card_work_map MAX_PM_REFRESH_OBLIGATIONS_def)
  ultimately show ?thesis
    using run spec refresh_reachable(3) [OF run] unfolding refresh_new_work by blast
qed

text \<open>The ticket a requirement leaves required; saturation leaves none.\<close>

primrec requirement_of :: "PmRefreshRequired \<Rightarrow> PmRefreshTicket option" where
  "requirement_of (Inserted ticket) = Some ticket"
| "requirement_of (AlreadyRequired ticket) = Some ticket"
| "requirement_of (SupersededInFlight required in_flight) = Some required"
| "requirement_of (Saturated key) = None"

lemma required_work:
  assumes ok: "work_ok w" and req: "require_work w key = (v, Ok required)" "requirement_of required = Some ticket"
  obtains in_flight where "ob_work v key = Some (ticket_generation ticket, in_flight)"
    "\<And>flying. in_flight = Some flying \<Longrightarrow> \<not> ticket_generation ticket \<le> flying"
proof (cases "ob_work w key")
  case None
  then show thesis using req that [of None]
    by (auto simp: require_work_def issue_work_def work_ticket_def split: if_splits)
next
  case (Some entry)
  obtain generation in_flight where entry: "entry = (generation, in_flight)" by (cases entry)
  have "in_flight = Some flying \<Longrightarrow> flying < ob_next w" for flying
    using work_okD(1) [OF ok Some [unfolded entry]] work_okD(2) [OF ok Some [unfolded entry], of flying] by simp
  then show thesis using req Some entry that [of in_flight]
    by (auto simp: require_work_def issue_work_def work_ticket_def not_le split: option.splits if_splits)
qed

text \<open>
  C8: a requirement that was taken up is never lost.  Whatever calls follow, the key is still
  owed at that generation or a newer one, or a ticket of the key at least as new was both
  admitted and cleared after the requirement; work that was already in flight when the
  requirement arrived cannot discharge it.
\<close>

theorem refresh_requirement_survives:
  assumes earlier: "run_outputs refresh_step (PmRefreshState_new owner) earlier = Some (s, outs)"
    and require: "refresh_require s key = Some (s1, Ok required)" "requirement_of required = Some ticket"
    and later: "run_outputs refresh_step s1 later = Some (s2, answers)"
  shows "(\<exists>entry. Some entry \<in> set (rf_entries s2) \<and> re_key entry = key
       \<and> ticket_generation ticket \<le> re_required_generation entry)
    \<or> (\<exists>finished. Admission (Admitted finished) \<in> set answers \<and> Completion (Cleared finished) \<in> set answers
        \<and> ticket_key finished = key \<and> ticket_generation ticket \<le> ticket_generation finished)"
proof -
  note s = refresh_reachable [OF earlier]
  have "refresh_step s (Require key) = Some (s1, Requirement (Ok required))" using require(1) by simp
  note step = refresh.step_inv [OF s(1) this]
  have ok: "work_ok (refresh_work s1)" using work_ok_step [OF s(2), of "Require key"] step(2) by simp
  have "require_work (refresh_work s) key = (refresh_work s1, Ok required)"
    using step(2) by (auto split: prod.splits)
  then obtain in_flight where f: "ob_work (refresh_work s1) key = Some (ticket_generation ticket, in_flight)"
    "\<And>flying. in_flight = Some flying \<Longrightarrow> \<not> ticket_generation ticket \<le> flying"
    by (rule required_work [OF s(2) _ require(2)]) blast
  note run = refresh.run_inv [OF step(1) later]
  show ?thesis
    using run_survives [OF ok f(1) order_refl _ run(2), of "{}"] f(2) refresh_inv_entries [OF run(1), of key] by blast
qed

definition sample_refresh_key :: PmRefreshKey where
  "sample_refresh_key = PmRefreshKey 3 (PmInstrumentHandle 1 2) FillObserved"

definition sample_ticket :: "u64 \<Rightarrow> PmRefreshTicket" where
  "sample_ticket generation = \<lparr>ticket_owner = 5, ticket_key = sample_refresh_key, ticket_generation = generation\<rparr>"

lemma sample_refresh_spec:
  "spec_outputs work_step \<lparr>ob_owner = 5, ob_work = Map.empty, ob_next = 1, ob_full = False\<rparr>
     [Require sample_refresh_key, Admit (sample_ticket 1), Require sample_refresh_key, Complete (sample_ticket 1)]
   = (\<lparr>ob_owner = 5, ob_work = [sample_refresh_key \<mapsto> (2, None)], ob_next = 3, ob_full = False\<rparr>,
      [Requirement (Ok (Inserted (sample_ticket 1))), Admission (Admitted (sample_ticket 1)),
       Requirement (Ok (SupersededInFlight (sample_ticket 2) (sample_ticket 1))),
       Completion (NewerRequirementRetained (sample_ticket 1) (sample_ticket 2))])"
  by (simp add: sample_ticket_def require_work_def issue_work_def admit_work_def complete_work_def work_ticket_def)

theorem refresh_requirement_survives_witness:
  "\<exists>s s1 s2 outs answers.
     run_outputs refresh_step (PmRefreshState_new 5) [Require sample_refresh_key, Admit (sample_ticket 1)] = Some (s, outs)
     \<and> refresh_require s sample_refresh_key = Some (s1, Ok (SupersededInFlight (sample_ticket 2) (sample_ticket 1)))
     \<and> run_outputs refresh_step s1 [Complete (sample_ticket 1)] = Some (s2, answers)
     \<and> answers = [Completion (NewerRequirementRetained (sample_ticket 1) (sample_ticket 2))]
     \<and> (\<exists>entry. Some entry \<in> set (rf_entries s2) \<and> re_key entry = sample_refresh_key \<and> 2 \<le> re_required_generation entry)"
proof -
  obtain t outs where run: "run_outputs refresh_step (PmRefreshState_new 5)
      [Require sample_refresh_key, Admit (sample_ticket 1), Require sample_refresh_key, Complete (sample_ticket 1)] = Some (t, outs)"
    and outs: "outs = [Requirement (Ok (Inserted (sample_ticket 1))), Admission (Admitted (sample_ticket 1)),
       Requirement (Ok (SupersededInFlight (sample_ticket 2) (sample_ticket 1))),
       Completion (NewerRequirementRetained (sample_ticket 1) (sample_ticket 2))]"
    using refresh.run_refines [OF refresh_new_inv, of 5
        "[Require sample_refresh_key, Admit (sample_ticket 1), Require sample_refresh_key, Complete (sample_ticket 1)]"]
    unfolding refresh_new_work sample_refresh_spec by auto
  then obtain s s1 outs' where s: "run_outputs refresh_step (PmRefreshState_new 5) [Require sample_refresh_key, Admit (sample_ticket 1)]
        = Some (s, outs')"
      "refresh_require s sample_refresh_key = Some (s1, Ok (SupersededInFlight (sample_ticket 2) (sample_ticket 1)))"
      "run_outputs refresh_step s1 [Complete (sample_ticket 1)]
        = Some (t, [Completion (NewerRequirementRetained (sample_ticket 1) (sample_ticket 2))])"
    by (auto simp: expect_Some)
  have "ticket_generation (sample_ticket 2) = 2" by (simp add: sample_ticket_def)
  with refresh_requirement_survives [OF s(1,2) requirement_of.simps(3) s(3)] s show ?thesis by auto
qed

end
