(* ===== verification/Spec2Isabelle.thy ===== *)
theory Spec2Isabelle
  imports Pm_Book_Properties Pm_Risk Pm_Order_Properties Pm_Account_Properties Pm_Refresh_Properties
begin

text \<open>
  A verification development for the exact-integer core of the Polymarket product of \<open>reap\<close>: the
  crate \<open>reap-pm-core\<close>, which has the numbers, identities, events and reconciliation results, and
  the reducers of \<open>reap-pm-state\<close> that turn them into state an order decision may rest on.

  \<^bold>\<open>The parts and how they interact.\<close>  Venue adapters build typed events from texts.  Every number
  in them is a 256-bit or 32-bit integer in millionths, checked on construction
  (\<open>numeric.rs\<close>), every identity is a bounded byte array (\<open>identity.rs\<close>), and each event carries
  the source it came from (\<open>event.rs\<close>, \<open>metadata.rs\<close>).  An event is received and serviced in an
  envelope that fixes its scope, clock and ingress sequence (\<open>envelope.rs\<close>).  Public events go to
  the book reducer (\<open>book.rs\<close>, \<open>book/canonical.rs\<close>, \<open>book/metadata.rs\<close>, \<open>readiness.rs\<close>), which
  publishes a top of book only while its evidence is complete and fresh.  Private events and
  complete reconciliation results (\<open>reconciliation.rs\<close>), compared with one account configuration
  (\<open>private_config.rs\<close>) and ordered by private occurrences (\<open>private_occurrence.rs\<close>), go to the
  order table (\<open>order_state.rs\<close> and its submodules) and to the account projection (\<open>account.rs\<close>);
  reconciliation still owed is kept as refresh obligations (\<open>refresh.rs\<close>).  The decision summary
  of the order table and the exposure of a candidate go to the risk gate (\<open>risk.rs\<close>).

  \<^bold>\<open>The library theories.\<close>
  \<^item> \<open>Reap_Prelude\<close>: machine integers, \<open>Result\<close>, \<open>Ordering\<close>, \<open>Vec\<close> and slice operations; the
    locale \<open>comparator\<close> (a lawful \<open>Ord\<close>) and its extension \<open>keyed_order\<close> (a vector kept sorted by
    a key), interpreted on the book keys, the 256-bit integers, the spender requirements and every
    linear order.
  \<^item> \<open>Reap_Slots\<close>: computations that may panic, and dense rows with sorted slot indexes.
  \<^item> \<open>Reap_Reducer\<close>: the locale \<open>reducer\<close> (a step function that keeps an invariant never panics on a
    run, and continues what it started from), interpreted on the order operations, and the locale
    \<open>simulation\<close> (a component that implements a total specification), interpreted on the refresh
    obligations.

  \<^bold>\<open>The models and what is shown of them.\<close>
  \<^item> \<open>Pm_U256\<close>, \<open>Pm_Decimal\<close>, \<open>Pm_Numeric\<close>, \<open>Okx_Reference_Price\<close> (\<open>numeric.rs\<close>): the four-limb
    integer, its decimal text, prices, ticks, quantities, order amounts and the OKX reference price.
    Checked arithmetic is exact or reports overflow; parsing accepts exactly the decimal texts of
    the type, with the value they denote, and printing is its inverse; order amounts are the exact
    products or an error.
  \<^item> \<open>Pm_Identity\<close>, \<open>Pm_Metadata\<close>, \<open>Pm_Event\<close>, \<open>Pm_Envelope\<close>, \<open>Pm_Readiness\<close>,
    \<open>Pm_Reconciliation\<close> (the files of the same names, and \<open>private_config.rs\<close>,
    \<open>private_occurrence.rs\<close>): every constructor with every check.  What a constructor accepts is
    characterised exactly, texts round trip, a serviced envelope keeps everything it was received with and its clock in
    order, and a reconciliation result answers for the configured scope with its unique row.  The
    locale \<open>source_bound\<close>, a payload that carries its source, is interpreted on every event type.
  \<^item> \<open>Pm_Book_Canonical\<close>, \<open>Pm_Book\<close>, with \<open>Pm_Book_Invariant\<close>, \<open>Pm_Book_Runs\<close> and
    \<open>Pm_Book_Properties\<close> (\<open>book.rs\<close> and its submodules): the level vector and the reducer.  A delta
    batch refines the update of a finite map of levels and is all or nothing; a refused call
    leaves the reducer not ready; a ready reducer holds a canonical book of a snapshot of its
    connection, publishes its exact best levels, never accepts an update twice, recovers through
    metadata, epoch and snapshot, and was fresh at its last check.
  \<^item> \<open>Pm_Order_Entry\<close>, \<open>Pm_Order_Index\<close>, \<open>Pm_Order_State\<close>, with \<open>Pm_Order_Index_Laws\<close>,
    \<open>Pm_Order_Rows\<close>, \<open>Pm_Order_Invariant\<close>, \<open>Pm_Order_Snapshot\<close>, \<open>Pm_Order_Summary\<close> and
    \<open>Pm_Order_Properties\<close> (\<open>order_state.rs\<close>, \<open>order_state/admission.rs\<close>,
    \<open>order_state/decision_summary.rs\<close>, \<open>order_state/dense_index.rs\<close>): rows, dense index and
    operations.  No run panics or breaks the index; no operation but compaction loses a row or
    lets an order go back; a complete open-order snapshot is applied as a whole or not at all, and
    what an applied one leaves is characterised; the decision summary is the exact total of the
    live rows; the two-phase admission and the binding preflight agree with the direct calls.
  \<^item> \<open>Pm_Account\<close>, \<open>Pm_Account_Properties\<close> (\<open>account.rs\<close>): the account projection.  Every application
    is total; refused, duplicate and stale snapshots change only their counter; the state shows
    exactly the rows of the latest snapshot applied, a row that is absent and a position that is
    not tradable as states of their own.
  \<^item> \<open>Pm_Refresh\<close>, \<open>Pm_Refresh_Properties\<close> (\<open>refresh.rs\<close>): the refresh obligations.  The array, its
    binary search and its shifting loops implement a map of owed work, and a requirement is
    discharged only by work admitted after it.
  \<^item> \<open>Pm_Risk\<close> (\<open>risk.rs\<close>): the risk gate.  It approves exactly the candidates whose integer exposure
    is within every limit, with fresh dependencies and no halt, and a halt is kept until recovery.

  \<^bold>\<open>How the code is rendered.\<close>  A struct is a record and its getters are the selectors, with a
  prefix where two structs share a field name; an enum is a datatype; a newtype is a datatype with
  one constructor or its representation.  A method on \<open>&mut self\<close> returns the new state with its
  result.  A method with an \<open>expect\<close>, an index or an \<open>unreachable!\<close> returns an option in which
  \<open>None\<close> is the panic.  The book reducer is the exception: the hash it unwraps and the counts it
  converts to 16 bits are \<open>the\<close> and \<open>word_of_nat\<close>, and \<open>apply_snapshot_expects\<close> and
  \<open>apply_delta_batch_expects\<close> show that they are reached only where the \<open>expect\<close> succeeds.
  \<open>debug_assert!\<close> is left out, as in a release build; those of the order table restate its index
  invariant.  Admission of an owned order, prepared and committed under one exclusive borrow of
  the state, is one step of a run of the order table.  Integers keep their width: \<open>saturating_add\<close>, \<open>checked_add\<close> and the carries
  of the 256-bit limbs are written out on words.  \<open>usize\<close> lengths and indexes are natural numbers,
  since every collection is bounded far below the address space.  Sorting with equal keys keeps
  the input order, one of the orders \<open>sort_unstable\<close> allows; the uses here sort distinct keys or
  only look for duplicates.  A static atomic counter is an argument and a result.

  \<^bold>\<open>Bounds and termination.\<close>  No definition has fuel.  The loops that are not structural, the
  display of a 256-bit integer and the binary searches, are functions with a termination proof on
  the value left or on the window.  The bounds that appear in statements are those of the source:
  1,024 private orders and open-order rows, 8,192 reconciliation fills, 128 refresh obligations,
  eight expected assets, spenders or instruments and eight diagnostic rows beyond them.

  \<^bold>\<open>Samples.\<close>  Definitions named \<open>sample_\<close> are concrete inputs, with byte arrays of the lengths the
  source fixes; the witness after a property applies the property to them.  They are written out
  as records.  \<open>sample_metadata_new\<close>, \<open>sample_config_new\<close> and \<open>sample_account_snapshot_new\<close> show that
  the checked constructors return the market row, the account configuration and the account
  snapshot that the others rest on.

  \<^bold>\<open>Deviations found.\<close>  \<open>Pm_Order_Properties\<close> ends with three facts about the order table.
  \<open>registration_terms_ignored\<close>: \<open>register_owned\<close> takes a repeated registration with other terms and
  an equal reservation for the same one, which \<open>prepare_owned_registration\<close> refuses.
  \<open>revived_order_unreserved\<close>: an owned order that detail reported absent and that is then observed
  live has no reservation, and the decision summary counts none for it.
  \<open>merge_ignores_observed_terms\<close>: binding a venue key merges registered terms with an observed
  event of other terms, which a direct observation refuses.

  \<^bold>\<open>Not modelled.\<close>
  \<^item> In \<open>reap-pm-core\<close>: \<open>mapping.rs\<close>, whose grant is a hash by a third-party package; Serde visitors,
    which call the constructors modelled; \<open>Display\<close> of error types.
  \<^item> In \<open>reap-pm-state\<close>: the fill reducers (\<open>fill_state.rs\<close>, \<open>unresolved_fill.rs\<close>), the lifecycle of
    owned orders (\<open>owned_lifecycle.rs\<close> and its submodules) and the owner that composes the private
    reducers (\<open>private.rs\<close>, \<open>private/owned_lifecycle.rs\<close>, \<open>private_readiness.rs\<close>,
    \<open>private_ingress.rs\<close>).  They are deterministic code of the same kind and the natural next
    components; nothing here assumes anything of them.  The reports of reserved memory
    (\<open>reserved_capacity_bytes\<close>) are allocator facts.
  \<^item> The OKX product (\<open>reap-core\<close>, \<open>reap-book\<close>, \<open>reap-strategy\<close>, \<open>reap-engine\<close>, \<open>reap-risk\<close>,
    \<open>reap-order\<close>, \<open>reap-backtest\<close>, \<open>reap-live\<close>) computes with binary floating-point numbers, for
    which the theories used have no model.
  \<^item> Transports, adapters, runners, journals, capture and command lines are asynchronous network
    and file I/O around the modelled core, JSON schemas over Serde, or calls into third-party
    cryptography.
\<close>

end
